(* ===== verification/Prelude.thy ===== *)
theory Prelude
  imports Main "HOL-Library.Word" "HOL-Library.FSet"
begin

text \<open>
  The vocabulary every theory of the development shares: the machine integers of Go, the error
  values of the control plane, the collections of rewrite rules the component proofs use, and a
  few general lemmas on lists and folds.

  Go strings are byte strings, so they are modelled by the type \<^typ>\<open>string\<close> (a list of 8-bit
  characters).  Go's \<open>map[string]bool\<close> values, which the source only uses as sets, are finite sets.
\<close>

unbundle bit_operations_syntax

type_synonym u8 = "8 word"
type_synonym u16 = "16 word"
type_synonym u32 = "32 word"
type_synonym u64 = "64 word"

text \<open>
  The errors the control plane returns.  The constructors stand for the (Vietnamese) message texts;
  a payload is what the message interpolates.
\<close>

datatype go_error =
    ErrConfigMapNil
  | ErrRingStatsMapNil
  | ErrInvalidIP string
  | ErrInvalidCIDR string
  | ErrOnlyIPv4
  | ErrBlacklistPut
  | ErrBlacklistDelete
  | ErrWhitelistPut
  | ErrWhitelistDelete
  | ErrBackendPut
  | ErrMapPut
  | ErrMapLookup
  | ErrMapIterate
  | ErrGeoNotLoaded
  | ErrReadFile
  | ErrNoMemTotal
  | ErrNoCpuLine
  | ErrCpuFields
  | ErrParseUint string

named_theorems go_defs "definitions unfolded when an operation of the model is executed"
named_theorems outcome_simps "what an operation returns on each of its branches"
named_theorems frame_simps "which parts of the state an operation leaves alone"

subsection \<open>Folds that count\<close>

text \<open>A counted filter, the shape of every \<open>successCount++\<close> loop of the handlers.\<close>

fun count_ok :: "('a \<Rightarrow> 's \<Rightarrow> 's \<times> bool) \<Rightarrow> 'a list \<Rightarrow> 's \<times> nat \<Rightarrow> 's \<times> nat" where
  "count_ok f [] (s, n) = (s, n)"
| "count_ok f (x # xs) (s, n) =
     (let (s', ok) = f x s in count_ok f xs (s', if ok then Suc n else n))"

lemma count_ok_bound: "snd (count_ok f xs (s, n)) \<le> n + length xs"
proof (induction xs arbitrary: s n)
  case (Cons x xs)
  obtain s' ok where "f x s = (s', ok)" by (cases "f x s")
  then show ?case using Cons.IH[of s' "if ok then Suc n else n"] by (auto split: if_splits)
qed simp

lemma count_ok_ge: "n \<le> snd (count_ok f xs (s, n))"
proof (induction xs arbitrary: s n)
  case (Cons x xs)
  obtain s' ok where f: "f x s = (s', ok)" by (cases "f x s")
  have "(if ok then Suc n else n) \<le> snd (count_ok f xs (s', if ok then Suc n else n))"
    by (rule Cons.IH)
  with f show ?case by (auto split: if_splits)
qed simp

lemma count_ok_invariant:
  assumes step: "\<And>x s. x \<in> set xs \<Longrightarrow> P s \<Longrightarrow> P (fst (f x s))"
    and start: "P s"
  shows "P (fst (count_ok f xs (s, n)))"
  using assms
proof (induction xs arbitrary: s n)
  case (Cons x xs)
  obtain s' ok where f: "f x s = (s', ok)" by (cases "f x s")
  have "P s'" using Cons.prems(1)[of x s] Cons.prems(2) f by simp
  then have "P (fst (count_ok f xs (s', if ok then Suc n else n)))"
    using Cons.prems(1) by (intro Cons.IH) auto
  with f show ?case by simp
qed simp

subsection \<open>Sums of counters\<close>

lemma sum_list_word_append:
  "sum_list (xs @ ys) = sum_list xs + (sum_list ys :: 'a::len word)"
  by simp

lemma foldl_plus_sum_list: "foldl (\<lambda>acc v. acc + g v) a xs = a + sum_list (map g xs)"
  for a :: "'a::len word"
  by (induction xs arbitrary: a) (simp_all add: add.assoc)

lemma unat_sum_list_no_overflow:
  assumes "sum_list (map unat xs) < 2 ^ LENGTH('a)"
  shows "unat (sum_list xs) = sum_list (map unat (xs :: 'a::len word list))"
  using assms
proof (induction xs)
  case (Cons x xs)
  then have IH: "unat (sum_list xs) = sum_list (map unat xs)" by simp
  with Cons.prems show ?case by (simp add: unat_word_ariths)
qed simp

end
