(* ===== verification/GoStrings.thy ===== *)
theory GoStrings
  imports Prelude "HOL-Library.Sublist" "HOL-Library.Char_ord"
begin

text \<open>
  The functions of Go's packages \<open>strings\<close>, \<open>strconv\<close> and \<open>fmt\<close> that the control plane calls,
  over byte strings.  \<open>TrimSpace\<close> and \<open>Fields\<close> recognise every UTF-8 encoding of a Unicode space
  (\<open>go_spaces\<close>); \<open>ToUpper\<close> and \<open>ToLower\<close> map the ASCII letters, the only ones a country code
  or a protocol name has, and leave other bytes alone.
\<close>

subsection \<open>Package strings\<close>

definition HasPrefix :: "string \<Rightarrow> string \<Rightarrow> bool" where
  "HasPrefix s p = prefix p s"

definition HasSuffix :: "string \<Rightarrow> string \<Rightarrow> bool" where
  "HasSuffix s p = suffix p s"

definition TrimPrefix :: "string \<Rightarrow> string \<Rightarrow> string" where
  "TrimPrefix s p = (if HasPrefix s p then drop (length p) s else s)"

definition TrimSuffix :: "string \<Rightarrow> string \<Rightarrow> string" where
  "TrimSuffix s p = (if HasSuffix s p then take (length s - length p) s else s)"

fun Contains :: "string \<Rightarrow> string \<Rightarrow> bool" where
  "Contains [] sub = (sub = [])"
| "Contains (c # cs) sub = (prefix sub (c # cs) \<or> Contains cs sub)"

fun splitOn :: "char \<Rightarrow> string \<Rightarrow> string list" where
  "splitOn sep [] = [[]]"
| "splitOn sep (c # cs) =
     (if c = sep then [] # splitOn sep cs
      else (case splitOn sep cs of [] \<Rightarrow> [[c]] | l # ls \<Rightarrow> (c # l) # ls))"

fun joinWith :: "char \<Rightarrow> string list \<Rightarrow> string" where
  "joinWith sep [] = []"
| "joinWith sep [l] = l"
| "joinWith sep (l # ls) = l @ sep # joinWith sep ls"

definition newline :: char where
  "newline = CHR 0x0A"

text \<open>The encodings of the code points for which \<open>unicode.IsSpace\<close> holds.\<close>

definition go_spaces :: "string list" where
  "go_spaces =
     [[CHR 0x09], [CHR 0x0A], [CHR 0x0B], [CHR 0x0C], [CHR 0x0D], [CHR 0x20],
      [CHR 0xC2, CHR 0x85], [CHR 0xC2, CHR 0xA0], [CHR 0xE1, CHR 0x9A, CHR 0x80],
      [CHR 0xE2, CHR 0x80, CHR 0x80], [CHR 0xE2, CHR 0x80, CHR 0x81],
      [CHR 0xE2, CHR 0x80, CHR 0x82], [CHR 0xE2, CHR 0x80, CHR 0x83],
      [CHR 0xE2, CHR 0x80, CHR 0x84], [CHR 0xE2, CHR 0x80, CHR 0x85],
      [CHR 0xE2, CHR 0x80, CHR 0x86], [CHR 0xE2, CHR 0x80, CHR 0x87],
      [CHR 0xE2, CHR 0x80, CHR 0x88], [CHR 0xE2, CHR 0x80, CHR 0x89],
      [CHR 0xE2, CHR 0x80, CHR 0x8A], [CHR 0xE2, CHR 0x80, CHR 0xA8],
      [CHR 0xE2, CHR 0x80, CHR 0xA9], [CHR 0xE2, CHR 0x80, CHR 0xAF],
      [CHR 0xE2, CHR 0x81, CHR 0x9F], [CHR 0xE3, CHR 0x80, CHR 0x80]]"

definition leadingSpace :: "string \<Rightarrow> string option" where
  "leadingSpace s = find (\<lambda>p. prefix p s) go_spaces"

definition trailingSpace :: "string \<Rightarrow> string option" where
  "trailingSpace s = find (\<lambda>p. suffix p s) go_spaces"

lemma go_spaces_nonempty: "p \<in> set go_spaces \<Longrightarrow> p \<noteq> []"
  by (auto simp: go_spaces_def)

lemma leadingSpace_SomeD: "leadingSpace s = Some p \<Longrightarrow> p \<noteq> [] \<and> prefix p s"
  by (auto simp: leadingSpace_def find_Some_iff dest: go_spaces_nonempty[OF nth_mem])

lemma trailingSpace_SomeD: "trailingSpace s = Some p \<Longrightarrow> p \<noteq> [] \<and> suffix p s"
  by (auto simp: trailingSpace_def find_Some_iff dest: go_spaces_nonempty[OF nth_mem])

function trimLeftSpace :: "string \<Rightarrow> string" where
  "trimLeftSpace s =
     (case leadingSpace s of None \<Rightarrow> s | Some p \<Rightarrow> trimLeftSpace (drop (length p) s))"
  by pat_completeness auto
termination
  by (relation "measure length")
     (auto dest!: leadingSpace_SomeD simp: prefix_def)

function trimRightSpace :: "string \<Rightarrow> string" where
  "trimRightSpace s =
     (case trailingSpace s of
        None \<Rightarrow> s | Some p \<Rightarrow> trimRightSpace (take (length s - length p) s))"
  by pat_completeness auto
termination
  by (relation "measure length")
     (auto dest!: trailingSpace_SomeD simp: suffix_def)

declare trimLeftSpace.simps [simp del] trimRightSpace.simps [simp del]

definition TrimSpace :: "string \<Rightarrow> string" where
  "TrimSpace s = trimRightSpace (trimLeftSpace s)"

text \<open>
  \<open>Fields\<close>: the maximal runs of non-space bytes.  \<open>cur\<close> is the field being read.
\<close>

function fieldsFrom :: "string \<Rightarrow> string \<Rightarrow> string list" where
  "fieldsFrom s cur =
     (case leadingSpace s of
        Some p \<Rightarrow> (if cur = [] then [] else [cur]) @ fieldsFrom (drop (length p) s) []
      | None \<Rightarrow> (case s of [] \<Rightarrow> (if cur = [] then [] else [cur])
                 | c # cs \<Rightarrow> fieldsFrom cs (cur @ [c])))"
  by pat_completeness auto
termination
  by (relation "measure (\<lambda>(s, cur). length s)")
     (auto dest!: leadingSpace_SomeD simp: prefix_def)

declare fieldsFrom.simps [simp del]

definition Fields :: "string \<Rightarrow> string list" where
  "Fields s = fieldsFrom s []"

definition upperChar :: "char \<Rightarrow> char" where
  "upperChar c =
     (let n = (of_char c :: int) in if 97 \<le> n \<and> n \<le> 122 then char_of (n - 32) else c)"

definition lowerChar :: "char \<Rightarrow> char" where
  "lowerChar c =
     (let n = (of_char c :: int) in if 65 \<le> n \<and> n \<le> 90 then char_of (n + 32) else c)"

definition ToUpper :: "string \<Rightarrow> string" where
  "ToUpper s = map upperChar s"

definition ToLower :: "string \<Rightarrow> string" where
  "ToLower s = map lowerChar s"

subsection \<open>Package strconv\<close>

definition digitVal :: "char \<Rightarrow> int option" where
  "digitVal c =
     (let n = (of_char c :: int) in if 48 \<le> n \<and> n \<le> 57 then Some (n - 48) else None)"

definition digitChar :: "int \<Rightarrow> char" where
  "digitChar d = char_of (48 + d)"

fun parseDigits :: "string \<Rightarrow> int \<Rightarrow> int option" where
  "parseDigits [] acc = Some acc"
| "parseDigits (c # cs) acc =
     (case digitVal c of None \<Rightarrow> None | Some d \<Rightarrow> parseDigits cs (acc * 10 + d))"

text \<open>\<open>strconv.ParseUint(s, 10, bits)\<close>: \<open>None\<close> for a syntax or a range error.\<close>

definition ParseUint :: "string \<Rightarrow> nat \<Rightarrow> int option" where
  "ParseUint s bits =
     (if s = [] then None
      else case parseDigits s 0 of
             None \<Rightarrow> None
           | Some n \<Rightarrow> if n < 2 ^ bits then Some n else None)"

text \<open>\<open>strconv.Itoa\<close> and \<open>%d\<close> on non-negative numbers.\<close>

fun itoa :: "int \<Rightarrow> string" where
  "itoa n = (if n < 10 then [digitChar n] else itoa (n div 10) @ [digitChar (n mod 10)])"

declare itoa.simps [simp del]

subsection \<open>Package fmt: scanning an unsigned integer\<close>

definition scanNumber :: "string \<Rightarrow> string" where
  "scanNumber s = takeWhile (\<lambda>c. digitVal c \<noteq> None) s"

text \<open>
  The verb \<open>%d\<close> with a \<open>*uint64\<close>: skip spaces, read the digits, convert.  \<open>None\<close> is a
  scanning error, after which \<open>Sscanf\<close> leaves the variable as it was.
\<close>

definition scanUint64 :: "string \<Rightarrow> u64 option" where
  "scanUint64 s =
     map_option of_int (ParseUint (scanNumber (trimLeftSpace s)) 64)"

text \<open>
  \<open>fmt.Sscanf(line, "<key> %d", &v)\<close>: the key must be matched literally, the space in the format
  must match at least one space of the input (or its end), then \<open>%d\<close>.
\<close>

definition sscanfKey :: "string \<Rightarrow> string \<Rightarrow> u64 \<Rightarrow> u64" where
  "sscanfKey key line v =
     (if \<not> HasPrefix line key then v
      else let rest = drop (length key) line in
        (if rest \<noteq> [] \<and> leadingSpace rest = None then v
         else case scanUint64 rest of None \<Rightarrow> v | Some n \<Rightarrow> n))"

subsection \<open>Lemmas\<close>

lemma Contains_eq_sublist: "Contains s sub = sublist sub s"
  by (induction s) (auto simp: sublist_Cons_right)

lemma Contains_append_iff:
  "Contains (a @ sub @ b) sub"
  by (simp add: Contains_eq_sublist)

lemma splitOn_not_Nil [simp]: "splitOn sep s \<noteq> []"
  by (induction s) (auto split: list.splits)

lemma joinWith_Cons: "ls \<noteq> [] \<Longrightarrow> joinWith sep (l # ls) = l @ sep # joinWith sep ls"
  by (cases ls) auto

lemma join_split [simp]: "joinWith sep (splitOn sep s) = s"
proof (induction s)
  case (Cons c s)
  obtain l ls where s: "splitOn sep s = l # ls" by (cases "splitOn sep s") auto
  show ?case
  proof (cases "c = sep")
    case True
    with Cons.IH show ?thesis by (simp add: joinWith_Cons)
  next
    case False
    with Cons.IH s show ?thesis by (cases ls) auto
  qed
qed simp

lemma splitOn_no_sep: "sep \<notin> set s \<Longrightarrow> splitOn sep s = [s]"
  by (induction s) auto

lemma splitOn_append:
  "splitOn sep (a @ sep # b) = splitOn sep a @ splitOn sep b"
  by (induction a) (auto split: list.splits)

lemma split_line_sublist: "l \<in> set (splitOn sep s) \<Longrightarrow> sublist l s"
proof (induction s arbitrary: l)
  case (Cons c s)
  obtain h ls where s: "splitOn sep s = h # ls" by (cases "splitOn sep s") auto
  show ?case
  proof (cases "c = sep \<or> l \<noteq> c # h")
    case True
    with Cons.prems s have "l = [] \<or> l \<in> set (splitOn sep s)" by (auto split: if_splits)
    with Cons.IH show ?thesis by (auto simp: sublist_Cons_right)
  next
    case False
    then have l: "l = c # h" by simp
    have "prefix h s"
      using s join_split[of sep s] by (metis joinWith.simps(2) joinWith_Cons prefixI prefix_order.refl)
    with l show ?thesis by (simp add: sublist_Cons_right)
  qed
qed simp

lemma splitOn_sep_notin: "l \<in> set (splitOn sep s) \<Longrightarrow> sep \<notin> set l"
proof (induction s arbitrary: l)
  case (Cons c s)
  obtain h ls where "splitOn sep s = h # ls" by (cases "splitOn sep s") auto
  with Cons show ?case by (auto split: if_splits)
qed simp

lemma digitVal_digitChar [simp]: "0 \<le> d \<Longrightarrow> d < 10 \<Longrightarrow> digitVal (digitChar d) = Some d"
  by (simp add: digitVal_def digitChar_def Let_def)

lemma parseDigits_append:
  "parseDigits (a @ b) acc = (case parseDigits a acc of None \<Rightarrow> None | Some n \<Rightarrow> parseDigits b n)"
  by (induction a arbitrary: acc) (auto split: option.splits)

lemma itoa_not_Nil [simp]: "itoa n \<noteq> []"
  by (subst itoa.simps) simp

lemma itoa_parse_Some: "0 \<le> n \<Longrightarrow> parseDigits (itoa n) 0 = Some n"
proof (induction n rule: itoa.induct)
  case (1 n)
  show ?case
  proof (cases "n < 10")
    case True
    with 1 show ?thesis by (simp add: itoa.simps[of n])
  next
    case False
    with 1 have "parseDigits (itoa (n div 10)) 0 = Some (n div 10)" by simp
    with False show ?thesis by (simp add: itoa.simps[of n] parseDigits_append)
  qed
qed

lemma ParseUint_itoa: "0 \<le> n \<Longrightarrow> n < 2 ^ bits \<Longrightarrow> ParseUint (itoa n) bits = Some n"
  by (simp add: ParseUint_def itoa_parse_Some)

lemma ParseUint_bound: "ParseUint s bits = Some n \<Longrightarrow> n < 2 ^ bits"
  by (auto simp: ParseUint_def split: if_splits option.splits)

lemma itoa_digits: "0 \<le> n \<Longrightarrow> c \<in> set (itoa n) \<Longrightarrow> \<exists>d. 0 \<le> d \<and> d < 10 \<and> c = digitChar d"
proof (induction n rule: itoa.induct)
  case (1 n)
  then show ?case
    by (subst (asm) (2) itoa.simps)
       (auto split: if_splits intro: exI[of _ "n mod 10"])
qed

lemma itoa_small: "n < 10 \<Longrightarrow> itoa n = [digitChar n]"
  by (simp add: itoa.simps)

end
