(* ===== verification/GoNet.thy ===== *)
theory GoNet
  imports GoStrings
begin

text \<open>
  The parts of Go's packages \<open>net\<close>, \<open>net/netip\<close> and \<open>encoding/binary\<close> that the control plane
  calls: parsing an address or a CIDR block, masking, printing an IPv4 address, and reading four
  bytes as a little-endian integer.  An address is the byte slice Go uses: 4 bytes or 16 bytes.
\<close>

subsection \<open>Parsing an address (netip.ParseAddr)\<close>

datatype Addr = AddrV4 "u8 list" | AddrV6 "u8 list" string

text \<open>
  \<open>parseIPv4Fields\<close>: \<open>val\<close> and \<open>digLen\<close> are the octet being read, \<open>fields\<close> the octets read.
  A dot is refused at the start, at the end and after another dot (then \<open>digLen\<close> is 0).
\<close>

fun parseIPv4Fields :: "string \<Rightarrow> int \<Rightarrow> nat \<Rightarrow> u8 list \<Rightarrow> u8 list option" where
  "parseIPv4Fields [] val digLen fields =
     (if length fields < 3 then None else Some (fields @ [of_int val]))"
| "parseIPv4Fields (c # cs) val digLen fields =
     (case digitVal c of
        Some d \<Rightarrow>
          (if digLen = 1 \<and> val = 0 then None
           else let val' = val * 10 + d in
             (if val' > 255 then None else parseIPv4Fields cs val' (digLen + 1) fields))
      | None \<Rightarrow>
          (if c = CHR ''.'' then
             (if digLen = 0 \<or> cs = [] then None
              else if length fields = 3 then None
              else parseIPv4Fields cs 0 0 (fields @ [of_int val]))
           else None))"

definition hexVal :: "char \<Rightarrow> int option" where
  "hexVal c =
     (let n = (of_char c :: int) in
        if 48 \<le> n \<and> n \<le> 57 then Some (n - 48)
        else if 97 \<le> n \<and> n \<le> 102 then Some (n - 97 + 10)
        else if 65 \<le> n \<and> n \<le> 70 then Some (n - 65 + 10)
        else None)"

text \<open>One group of hexadecimal digits: its length, its value and the rest of the text.\<close>

fun hexGroup :: "string \<Rightarrow> nat \<Rightarrow> int \<Rightarrow> (nat \<times> int \<times> string) option" where
  "hexGroup [] off acc = Some (off, acc, [])"
| "hexGroup (c # cs) off acc =
     (case hexVal c of
        None \<Rightarrow> Some (off, acc, c # cs)
      | Some d \<Rightarrow>
          let acc' = acc * 16 + d in
          (if off > 3 then None else if acc' > 65535 then None else hexGroup cs (off + 1) acc'))"

lemma hexGroup_length: "hexGroup s off acc = Some (off', acc', rest) \<Longrightarrow> length rest \<le> length s"
  by (induction s off acc rule: hexGroup.induct)
     (auto simp: Let_def split: option.splits if_splits intro: le_SucI)

text \<open>
  The loop of \<open>parseIPv6\<close>: \<open>s\<close> the text left, \<open>ip\<close> the bytes read (its length is the loop's \<open>i\<close>),
  \<open>ell\<close> the position of the \<open>::\<close>.
\<close>

function parseIPv6Loop ::
  "string \<Rightarrow> u8 list \<Rightarrow> nat option \<Rightarrow> (string \<times> u8 list \<times> nat option) option" where
  "parseIPv6Loop s ip ell =
     (if \<not> length ip < 16 then Some (s, ip, ell)
      else case hexGroup s 0 0 of
        None \<Rightarrow> None
      | Some (off, acc, rest) \<Rightarrow>
          (if off = 0 then None
           else case rest of
             [] \<Rightarrow> Some ([], ip @ [of_int (acc div 256), of_int acc], ell)
           | c # s1 \<Rightarrow>
              (if c = CHR ''.'' then
                 (if ell = None \<and> length ip \<noteq> 12 then None
                  else if length ip + 4 > 16 then None
                  else case parseIPv4Fields s 0 0 [] of
                         None \<Rightarrow> None
                       | Some f \<Rightarrow> Some ([], ip @ f, ell))
               else let ip' = ip @ [of_int (acc div 256), of_int acc] in
                 (if c \<noteq> CHR '':'' then None
                  else case s1 of
                    [] \<Rightarrow> None
                  | c2 # s2 \<Rightarrow>
                      (if c2 = CHR '':'' then
                         (if ell \<noteq> None then None
                          else if s2 = [] then Some ([], ip', Some (length ip'))
                          else parseIPv6Loop s2 ip' (Some (length ip')))
                       else parseIPv6Loop s1 ip' ell)))))"
  by pat_completeness auto
termination
  by (relation "measure (\<lambda>(s, ip, ell). length s)")
     (auto dest: hexGroup_length)

declare parseIPv6Loop.simps [simp del]

definition parseIPv6 :: "string \<Rightarrow> Addr option" where
  "parseIPv6 input =
     (let s = takeWhile (\<lambda>c. c \<noteq> CHR ''%'') input;
          hasZone = (CHR ''%'' \<in> set input);
          zone = drop (length s + 1) input
      in if hasZone \<and> zone = [] then None
         else
           let lead = prefix [CHR '':'', CHR '':''] s;
               s' = (if lead then drop 2 s else s)
           in if lead \<and> s' = [] then Some (AddrV6 (replicate 16 0) zone)
              else case parseIPv6Loop s' [] (if lead then Some 0 else None) of
                None \<Rightarrow> None
              | Some (rest, ip, ell) \<Rightarrow>
                  (if rest \<noteq> [] then None
                   else if length ip < 16 then
                     (case ell of
                        None \<Rightarrow> None
                      | Some e \<Rightarrow>
                          Some (AddrV6 (take e ip @ replicate (16 - length ip) 0 @ drop e ip) zone))
                   else if ell \<noteq> None then None
                   else Some (AddrV6 ip zone)))"

text \<open>The first of the three characters decides which parser reads the whole text.\<close>

definition ParseAddr :: "string \<Rightarrow> Addr option" where
  "ParseAddr s =
     (case find (\<lambda>c. c = CHR ''.'' \<or> c = CHR '':'' \<or> c = CHR ''%'') s of
        None \<Rightarrow> None
      | Some c \<Rightarrow>
          (if c = CHR ''.'' then map_option AddrV4 (parseIPv4Fields s 0 0 [])
           else if c = CHR '':'' then parseIPv6 s
           else None))"

definition v4InV6Prefix :: "u8 list" where
  "v4InV6Prefix = [0, 0, 0, 0, 0, 0, 0, 0, 0, 0, 255, 255]"

fun As16 :: "Addr \<Rightarrow> u8 list" where
  "As16 (AddrV4 b) = v4InV6Prefix @ b"
| "As16 (AddrV6 b z) = b"

fun BitLen :: "Addr \<Rightarrow> nat" where
  "BitLen (AddrV4 b) = 32"
| "BitLen (AddrV6 b z) = 128"

fun Zone :: "Addr \<Rightarrow> string" where
  "Zone (AddrV4 b) = []"
| "Zone (AddrV6 b z) = z"

subsection \<open>net.ParseIP, IP.To4, IP.String\<close>

definition ParseIP :: "string \<Rightarrow> u8 list option" where
  "ParseIP s =
     (case ParseAddr s of
        None \<Rightarrow> None
      | Some a \<Rightarrow> if Zone a \<noteq> [] then None else Some (As16 a))"

definition To4 :: "u8 list \<Rightarrow> u8 list option" where
  "To4 ip =
     (if length ip = 4 then Some ip
      else if length ip = 16 \<and> take 12 ip = v4InV6Prefix then Some (drop 12 ip)
      else None)"

text \<open>\<open>IP.String\<close> on the 4-byte addresses the control plane prints.\<close>

definition IPv4String :: "u8 list \<Rightarrow> string" where
  "IPv4String ip = joinWith (CHR ''.'') (map (\<lambda>b. itoa (uint b)) ip)"

subsection \<open>net.ParseCIDR\<close>

text \<open>\<open>dtoi\<close>: a decimal prefix of the text, its value and its length; \<open>None\<close> when not ok.\<close>

fun dtoiLoop :: "string \<Rightarrow> int \<Rightarrow> nat \<Rightarrow> (int \<times> nat) option" where
  "dtoiLoop [] n i = Some (n, i)"
| "dtoiLoop (c # cs) n i =
     (case digitVal c of
        None \<Rightarrow> Some (n, i)
      | Some d \<Rightarrow>
          let n' = n * 10 + d in
          (if n' \<ge> 0xFFFFFF then None else dtoiLoop cs n' (i + 1)))"

definition dtoi :: "string \<Rightarrow> (int \<times> nat) option" where
  "dtoi s =
     (case dtoiLoop s 0 0 of
        None \<Rightarrow> None
      | Some (n, i) \<Rightarrow> if i = 0 then None else Some (n, i))"

text \<open>\<open>CIDRMask(n, 8 * l)\<close>, byte by byte.\<close>

fun CIDRMask :: "nat \<Rightarrow> nat \<Rightarrow> u8 list" where
  "CIDRMask n 0 = []"
| "CIDRMask n (Suc l) =
     (if n \<ge> 8 then 255 # CIDRMask (n - 8) l
      else NOT (drop_bit n 255) # CIDRMask 0 l)"

text \<open>
  \<open>IP.Mask\<close>: a 16-byte mask that starts with twelve bytes \<open>0xff\<close> applies to a 4-byte address,
  and a 4-byte mask applies to the last four bytes of a mapped address.
\<close>

definition Mask :: "u8 list \<Rightarrow> u8 list \<Rightarrow> u8 list option" where
  "Mask ip m =
     (let m' = (if length m = 16 \<and> length ip = 4 \<and> take 12 m = replicate 12 255
                then drop 12 m else m);
          ip' = (if length m' = 4 \<and> length ip = 16 \<and> take 12 ip = v4InV6Prefix
                 then drop 12 ip else ip)
      in if length ip' \<noteq> length m' then None else Some (map2 (AND) ip' m'))"

fun countOnes :: "nat \<Rightarrow> u8 \<Rightarrow> nat \<times> u8" where
  "countOnes 0 v = (0, v)"
| "countOnes (Suc f) v =
     (if v AND 128 \<noteq> 0 then (let (n, v') = countOnes f (push_bit 1 v) in (Suc n, v'))
      else (0, v))"

text \<open>
  \<open>simpleMaskLength\<close>: \<open>None\<close> for a mask that is not canonical.  A byte has eight bits, so eight
  rounds of \<open>countOnes\<close> suffice.
\<close>

fun simpleMaskLength :: "u8 list \<Rightarrow> nat option" where
  "simpleMaskLength [] = Some 0"
| "simpleMaskLength (v # vs) =
     (if v = 255 then map_option (\<lambda>n. n + 8) (simpleMaskLength vs)
      else let (n, v') = countOnes 8 v in
        (if v' \<noteq> 0 then None else if list_all (\<lambda>x. x = 0) vs then Some n else None))"

record IPNet =
  IP :: "u8 list"
  IPMask :: "u8 list"

definition MaskSize :: "u8 list \<Rightarrow> nat" where
  "MaskSize m = (case simpleMaskLength m of None \<Rightarrow> 0 | Some n \<Rightarrow> n)"

definition ParseCIDR :: "string \<Rightarrow> IPNet option" where
  "ParseCIDR s =
     (if CHR ''/'' \<notin> set s then None
      else
        let addr = takeWhile (\<lambda>c. c \<noteq> CHR ''/'') s;
            mask = drop (length addr + 1) s
        in case ParseAddr addr of
             None \<Rightarrow> None
           | Some a \<Rightarrow>
               (if Zone a \<noteq> [] then None
                else case dtoi mask of
                  None \<Rightarrow> None
                | Some (n, i) \<Rightarrow>
                    (if i \<noteq> length mask \<or> n > int (BitLen a) then None
                     else let m = CIDRMask (nat n) (BitLen a div 8) in
                       Some \<lparr>IP = (case Mask (As16 a) m of None \<Rightarrow> [] | Some x \<Rightarrow> x), IPMask = m\<rparr>)))"

subsection \<open>encoding/binary: little-endian four-byte integers\<close>

text \<open>
  \<open>Uint32\<close> reads the first four bytes; on a shorter slice Go panics, which no caller can reach:
  every argument comes from \<open>To4\<close>, whose results have four bytes (\<open>To4_length\<close> below).
\<close>

fun LittleEndianUint32 :: "u8 list \<Rightarrow> u32" where
  "LittleEndianUint32 (b0 # b1 # b2 # b3 # _) =
     ucast b0 OR push_bit 8 (ucast b1) OR push_bit 16 (ucast b2) OR push_bit 24 (ucast b3)"
| "LittleEndianUint32 _ = 0"

definition PutUint32 :: "u32 \<Rightarrow> u8 list" where
  "PutUint32 v = [ucast v, ucast (drop_bit 8 v), ucast (drop_bit 16 v), ucast (drop_bit 24 v)]"

subsection \<open>Lemmas\<close>

lemma To4_length: "To4 ip = Some v \<Longrightarrow> length v = 4"
  by (auto simp: To4_def split: if_splits)

lemma length4E:
  assumes "length v = 4"
  obtains b0 b1 b2 b3 where "v = [b0, b1, b2, b3]"
  using assms by (auto simp: numeral_eq_Suc length_Suc_conv)

lemma length_PutUint32 [simp]: "length (PutUint32 w) = 4"
  by (simp add: PutUint32_def)

lemma u8_high_bit [simp]: "8 \<le> n \<Longrightarrow> \<not> bit (b :: u8) n"
  by (auto dest: bit_imp_le_length)

lemma LittleEndian_PutUint32 [simp]: "LittleEndianUint32 (PutUint32 w) = w"
proof (rule bit_word_eqI)
  fix n assume "n < LENGTH(32)"
  then consider "n < 8" | "8 \<le> n" "n < 16" | "16 \<le> n" "n < 24" | "24 \<le> n" "n < 32"
    by fastforce
  then show "bit (LittleEndianUint32 (PutUint32 w)) n = bit w n"
    by cases (auto simp: PutUint32_def bit_simps)
qed

lemma PutUint32_LittleEndian:
  "PutUint32 (LittleEndianUint32 [b0, b1, b2, b3]) = [b0, b1, b2, b3]"
  by (auto simp: PutUint32_def bit_simps intro!: bit_word_eqI)

lemma PutUint32_Uint32: "length v = 4 \<Longrightarrow> PutUint32 (LittleEndianUint32 v) = v"
  by (erule length4E) (simp only: PutUint32_LittleEndian)

lemma dot_not_digit [simp]: "digitVal (CHR ''.'') = None"
  by (simp add: digitVal_def)

text \<open>One printed octet is read back as one field.\<close>

lemma parseIPv4Fields_octet_cases:
  assumes "0 \<le> n" "n < 256"
  shows "parseIPv4Fields (itoa n @ rest) 0 0 fs = parseIPv4Fields rest n (length (itoa n)) fs"
proof -
  consider "n < 10" | "10 \<le> n" "n < 100" | "100 \<le> n" by linarith
  then show ?thesis
  proof cases
    case 1
    with assms show ?thesis by (simp add: itoa_small)
  next
    case 2
    then have "itoa n = [digitChar (n div 10), digitChar (n mod 10)]"
      by (simp add: itoa.simps[of n] itoa_small)
    moreover have "n div 10 \<noteq> 0" "n div 10 < 10" using 2 by auto
    ultimately show ?thesis using 2 by (simp add: div_mult_mod_eq)
  next
    case 3
    have d: "n div 10 div 10 = n div 100" by (simp add: zdiv_zmult2_eq[symmetric])
    from 3 have g: "\<not> n div 10 < 10" by linarith
    from 3 d g have "itoa n = [digitChar (n div 100), digitChar (n div 10 mod 10), digitChar (n mod 10)]"
      using assms by (simp add: itoa.simps[of n] itoa.simps[of "n div 10"] itoa_small)
    moreover have "n div 100 \<noteq> 0" "n div 100 < 10" using 3 assms by auto
    moreover have "n div 100 * 10 + n div 10 mod 10 = n div 10"
      using div_mult_mod_eq[of "n div 10" 10] by (simp add: d)
    moreover have le: "\<not> 255 < n div 10" "\<not> 255 < n div 100" using assms by auto
    moreover have "n div 10 * 10 + n mod 10 = n" by simp
    ultimately show ?thesis using 3 assms by (simp add: Let_def le)
  qed
qed

lemma parseIPv4Fields_octet:
  "parseIPv4Fields (itoa (uint b) @ rest) 0 0 fs
   = parseIPv4Fields rest (uint b) (length (itoa (uint b))) fs" for b :: u8
  by (rule parseIPv4Fields_octet_cases) (use uint_lt2p[of b] in simp_all)

lemma parseIPv4Fields_dotted:
  "parseIPv4Fields (IPv4String [b0, b1, b2, b3]) 0 0 [] = Some [b0, b1, b2, b3]"
  using parseIPv4Fields_octet[of b3 "[]"] by (simp add: IPv4String_def parseIPv4Fields_octet)

lemma parseIPv4Fields_length:
  "parseIPv4Fields s val dl fs = Some b \<Longrightarrow> length fs \<le> 3 \<Longrightarrow> length b = 4"
proof (induction s val dl fs rule: parseIPv4Fields.induct)
  case (2 c cs val dl fs)
  then show ?case by (auto simp: Let_def split: option.splits if_splits)
qed (auto split: if_splits)

text \<open>The mask of \<open>n\<close> ones has size \<open>n\<close>.\<close>

lemma CIDRMask_0: "list_all (\<lambda>x. x = 0) (CIDRMask 0 l)"
  by (induction l) simp_all

lemma length_CIDRMask [simp]: "length (CIDRMask n l) = l"
  by (induction n l rule: CIDRMask.induct) simp_all

lemma partial_mask_bytes:
  "list_all (\<lambda>n. NOT (drop_bit n (255 :: u8)) \<noteq> 255 \<and>
                countOnes 8 (NOT (drop_bit n (255 :: u8))) = (n, 0)) [0..<8]"
  by code_simp

lemma partial_mask_byte:
  assumes "n < 8"
  shows "NOT (drop_bit n (255 :: u8)) \<noteq> 255" "countOnes 8 (NOT (drop_bit n (255 :: u8))) = (n, 0)"
  using partial_mask_bytes assms by (simp_all only: list_all_iff set_upt atLeastLessThan_iff) auto

lemma simpleMaskLength_CIDRMask: "n \<le> 8 * l \<Longrightarrow> simpleMaskLength (CIDRMask n l) = Some n"
proof (induction n l rule: CIDRMask.induct)
  case (2 n l)
  then show ?case
    by (cases "n \<ge> 8") (simp_all add: partial_mask_byte CIDRMask_0)
qed simp

lemma MaskSize_CIDRMask: "n \<le> 8 * l \<Longrightarrow> MaskSize (CIDRMask n l) = n"
  by (simp add: MaskSize_def simpleMaskLength_CIDRMask)

text \<open>A printed prefix length is read back.\<close>

lemma dtoiLoop_append:
  "dtoiLoop a n i = Some (m, j) \<Longrightarrow> j = i + length a \<Longrightarrow> dtoiLoop (a @ b) n i = dtoiLoop b m j"
  by (induction a arbitrary: n i) (auto simp: Let_def split: option.splits if_splits)

lemma dtoiLoop_itoa: "0 \<le> n \<Longrightarrow> n < 0xFFFFFF \<Longrightarrow> dtoiLoop (itoa n) 0 0 = Some (n, length (itoa n))"
proof (induction n rule: itoa.induct)
  case (1 n)
  show ?case
  proof (cases "n < 10")
    case True
    with 1 show ?thesis by (simp add: itoa_small)
  next
    case False
    with 1 have "dtoiLoop (itoa (n div 10)) 0 0 = Some (n div 10, length (itoa (n div 10)))" by simp
    with False "1.prems" show ?thesis
      by (simp add: itoa.simps[of n] dtoiLoop_append Let_def)
  qed
qed

lemma dtoi_itoa: "0 \<le> n \<Longrightarrow> n < 0xFFFFFF \<Longrightarrow> dtoi (itoa n) = Some (n, length (itoa n))"
  by (simp add: dtoi_def dtoiLoop_itoa)

lemma itoa_digitVal: "0 \<le> n \<Longrightarrow> c \<in> set (itoa n) \<Longrightarrow> digitVal c \<noteq> None"
  by (drule (1) itoa_digits) auto

lemma itoa_notin [simp]:
  assumes "0 \<le> n"
  shows "CHR ''/'' \<notin> set (itoa n)" "CHR ''.'' \<notin> set (itoa n)"
    "CHR '':'' \<notin> set (itoa n)" "CHR ''%'' \<notin> set (itoa n)"
  using itoa_digitVal[OF assms, of "CHR ''/''"] itoa_digitVal[OF assms, of "CHR ''.''"]
    itoa_digitVal[OF assms, of "CHR '':''"] itoa_digitVal[OF assms, of "CHR ''%''"]
  by (auto simp: digitVal_def)

end
