(* ===== verification/GoJson.thy ===== *)
theory GoJson
  imports GoStrings
begin

text \<open>
  The part of \<open>encoding/json\<close> the control plane writes its files with: string literals with the
  encoder's escapes (HTML-safe, the default), unsigned numbers, and the compact and the indented
  layout of objects and arrays.
\<close>

subsection \<open>UTF-8\<close>

definition byteVal :: "char \<Rightarrow> int" where
  "byteVal c = of_char c"

lemma char_of_byteVal: "char_of (byteVal c) = c"
  by (simp add: byteVal_def)

definition continuation :: "char \<Rightarrow> bool" where
  "continuation c \<longleftrightarrow> 128 \<le> byteVal c \<and> byteVal c \<le> 191"

text \<open>
  The length of the multi-byte character a text starts with, 0 when its first bytes are no valid
  encoding (overlong forms and surrogates are not).
\<close>

fun runeLen :: "string \<Rightarrow> nat" where
  "runeLen (c0 # c1 # cs) =
     (let b0 = byteVal c0; b1 = byteVal c1 in
      if 194 \<le> b0 \<and> b0 \<le> 223 then (if continuation c1 then 2 else 0)
      else if 224 \<le> b0 \<and> b0 \<le> 239 then
        (if continuation c1 \<and> (b0 = 224 \<longrightarrow> 160 \<le> b1) \<and> (b0 = 237 \<longrightarrow> b1 \<le> 159)
            \<and> (case cs of c2 # _ \<Rightarrow> continuation c2 | [] \<Rightarrow> False) then 3 else 0)
      else if 240 \<le> b0 \<and> b0 \<le> 244 then
        (if continuation c1 \<and> (b0 = 240 \<longrightarrow> 144 \<le> b1) \<and> (b0 = 244 \<longrightarrow> b1 \<le> 143)
            \<and> (case cs of c2 # c3 # _ \<Rightarrow> continuation c2 \<and> continuation c3 | _ \<Rightarrow> False) then 4 else 0)
      else 0)"
| "runeLen _ = 0"

subsection \<open>String literals\<close>

definition hexDigit :: "int \<Rightarrow> char" where
  "hexDigit d = (if d < 10 then char_of (48 + d) else char_of (87 + d))"

definition backslash :: char where
  "backslash = CHR 0x5C"

definition quote :: char where
  "quote = CHR 0x22"

definition escapeByte :: "char \<Rightarrow> string" where
  "escapeByte c =
     (let b = byteVal c in
      if c = backslash \<or> c = quote then [backslash, c]
      else if b = 8 then [backslash, CHR ''b'']
      else if b = 12 then [backslash, CHR ''f'']
      else if b = 10 then [backslash, CHR ''n'']
      else if b = 13 then [backslash, CHR ''r'']
      else if b = 9 then [backslash, CHR ''t'']
      else if b < 32 \<or> c = CHR ''<'' \<or> c = CHR ''>'' \<or> c = CHR ''&'' then
        backslash # ''u00'' @ [hexDigit (b div 16), hexDigit (b mod 16)]
      else [c])"

function jsonChars :: "string \<Rightarrow> string" where
  "jsonChars [] = []"
| "jsonChars (c # cs) =
     (if byteVal c < 128 then escapeByte c @ jsonChars cs
      else let k = runeLen (c # cs) in
        if k = 0 then (backslash # ''ufffd'') @ jsonChars cs
        else if take 3 (c # cs) = [CHR 0xE2, CHR 0x80, CHR 0xA8] then
          (backslash # ''u2028'') @ jsonChars (drop k (c # cs))
        else if take 3 (c # cs) = [CHR 0xE2, CHR 0x80, CHR 0xA9] then
          (backslash # ''u2029'') @ jsonChars (drop k (c # cs))
        else take k (c # cs) @ jsonChars (drop k (c # cs)))"
  by pat_completeness auto
termination
  by (relation "measure length") (auto simp: Let_def)

definition jsonString :: "string \<Rightarrow> string" where
  "jsonString s = quote # jsonChars s @ [quote]"

text \<open>An array of strings on the second level of an indented document (indent of two blanks).\<close>

definition jsonArray :: "string list \<Rightarrow> string" where
  "jsonArray xs =
     (if xs = [] then ''[]''
      else CHR ''['' # concat (map (\<lambda>(i, x). (if i = (0 :: nat) then [] else '','')
             @ newline # ''    '' @ jsonString x) (enumerate 0 xs))
           @ newline # ''  ]'')"

text \<open>A member of an object.\<close>

definition jsonMember :: "string \<Rightarrow> string \<Rightarrow> string" where
  "jsonMember key val = jsonString key @ CHR '':'' # val"

lemma jsonString_plain: "jsonString ''VN'' = [quote, CHR ''V'', CHR ''N'', quote]"
  by code_simp

lemma jsonString_escaped:
  "jsonString [CHR ''a'', quote, CHR ''<'', newline, CHR 0xFF]
   = [quote, CHR ''a'', backslash, quote] @ backslash # ''u003c'' @ backslash # ''n'' @ backslash # ''ufffd'' @ [quote]"
  by code_simp

end
