(* ===== verification/GoUrl.thy ===== *)
theory GoUrl
  imports GoNet GoJson
begin

text \<open>
  The part of \<open>net/url\<close> and \<open>net\<close> the API and the cluster code use: query escaping and parsing, the
  host of a parsed URL, and \<open>SplitHostPort\<close>.
\<close>

subsection \<open>Escaping\<close>

definition isAlnum :: "char \<Rightarrow> bool" where
  "isAlnum c =
     (let b = byteVal c in (48 \<le> b \<and> b \<le> 57) \<or> (65 \<le> b \<and> b \<le> 90) \<or> (97 \<le> b \<and> b \<le> 122))"

definition unreserved :: "char \<Rightarrow> bool" where
  "unreserved c \<longleftrightarrow> isAlnum c \<or> c \<in> {CHR ''-'', CHR ''_'', CHR ''.'', CHR ''~''}"

definition upperHex :: "int \<Rightarrow> char" where
  "upperHex d = (if d < 10 then char_of (48 + d) else char_of (55 + d))"

definition percentByte :: "char \<Rightarrow> string" where
  "percentByte c = [CHR ''%'', upperHex (byteVal c div 16), upperHex (byteVal c mod 16)]"

definition QueryEscape :: "string \<Rightarrow> string" where
  "QueryEscape s = concat (map (\<lambda>c.
     if unreserved c then [c] else if c = CHR '' '' then ''+'' else percentByte c) s)"

fun QueryUnescape :: "string \<Rightarrow> string option" where
  "QueryUnescape [] = Some []"
| "QueryUnescape (c # cs) =
     (if c = CHR ''%'' then
        (case cs of
           h # l # rest \<Rightarrow>
             (case (hexVal h, hexVal l) of
                (Some a, Some b) \<Rightarrow> map_option (\<lambda>t. char_of (a * 16 + b) # t) (QueryUnescape rest)
              | _ \<Rightarrow> None)
         | _ \<Rightarrow> None)
      else map_option (\<lambda>t. (if c = CHR ''+'' then CHR '' '' else c) # t) (QueryUnescape cs))"

subsection \<open>Query strings\<close>

text \<open>\<open>strings.Cut\<close> at a single character: what precedes it and what follows it.\<close>

definition cutAt :: "char \<Rightarrow> string \<Rightarrow> string \<times> string" where
  "cutAt sep s = (takeWhile (\<lambda>c. c \<noteq> sep) s, drop 1 (dropWhile (\<lambda>c. c \<noteq> sep) s))"

definition parsePair :: "string \<Rightarrow> (string \<times> string) option" where
  "parsePair seg =
     (if CHR '';'' \<in> set seg \<or> seg = [] then None
      else case cutAt (CHR ''='') seg of
        (k, v) \<Rightarrow>
          (case QueryUnescape k of
             None \<Rightarrow> None
           | Some key \<Rightarrow> (case QueryUnescape v of None \<Rightarrow> None | Some val \<Rightarrow> Some (key, val))))"

definition ParseQuery :: "string \<Rightarrow> (string \<times> string) list" where
  "ParseQuery q = List.map_filter parsePair (splitOn (CHR ''&'') q)"

text \<open>\<open>Values.Get\<close>: the first value of the key, or the empty string.\<close>

definition queryGet :: "string \<Rightarrow> string \<Rightarrow> string" where
  "queryGet q key = (case map_of (ParseQuery q) key of None \<Rightarrow> [] | Some v \<Rightarrow> v)"

subsection \<open>Parsing a URL (url.Parse), as far as the host\<close>

definition isLetter :: "char \<Rightarrow> bool" where
  "isLetter c = (let b = byteVal c in (65 \<le> b \<and> b \<le> 90) \<or> (97 \<le> b \<and> b \<le> 122))"

definition isDigitChar :: "char \<Rightarrow> bool" where
  "isDigitChar c \<longleftrightarrow> digitVal c \<noteq> None"

text \<open>\<open>getScheme\<close>: \<open>None\<close> is the error for a leading colon.\<close>

fun schemeFrom :: "string \<Rightarrow> string \<Rightarrow> string \<Rightarrow> (string \<times> string) option" where
  "schemeFrom raw [] seen = Some ([], raw)"
| "schemeFrom raw (c # cs) seen =
     (if isLetter c then schemeFrom raw cs (seen @ [c])
      else if isDigitChar c \<or> c \<in> {CHR ''+'', CHR ''-'', CHR ''.''} then
        (if seen = [] then Some ([], raw) else schemeFrom raw cs (seen @ [c]))
      else if c = CHR '':'' then (if seen = [] then None else Some (seen, cs))
      else Some ([], raw))"

definition validOptionalPort :: "string \<Rightarrow> bool" where
  "validOptionalPort port \<longleftrightarrow>
     port = [] \<or> (hd port = CHR '':'' \<and> list_all isDigitChar (tl port))"

text \<open>The characters a host may contain unescaped.\<close>

definition hostChar :: "char \<Rightarrow> bool" where
  "hostChar c \<longleftrightarrow> unreserved c \<or>
     c \<in> set ''!$&()*+,;=:[]<>'' \<or> c = quote \<or> c = CHR 0x27"

text \<open>
  \<open>unescape\<close> in the modes of hosts and zones: an escape in a host must denote a non-ASCII byte (or a
  percent sign), in a zone also a blank and the characters a host may contain; ASCII characters
  outside the set are refused.
\<close>

fun unescapeHost :: "bool \<Rightarrow> string \<Rightarrow> string option" where
  "unescapeHost zone [] = Some []"
| "unescapeHost zone (c # cs) =
     (if c = CHR ''%'' then
        (case cs of
           h # l # rest \<Rightarrow>
             (case (hexVal h, hexVal l) of
                (Some a, Some b) \<Rightarrow>
                  (let d = char_of (a * 16 + b) in
                   if \<not> zone \<and> a < 8 \<and> [h, l] \<noteq> ''25'' then None
                   else if zone \<and> [h, l] \<noteq> ''25'' \<and> d \<noteq> CHR '' '' \<and> byteVal d < 128 \<and> \<not> hostChar d then None
                   else map_option (\<lambda>t. d # t) (unescapeHost zone rest))
              | _ \<Rightarrow> None)
         | _ \<Rightarrow> None)
      else if byteVal c < 128 \<and> \<not> hostChar c then None
      else map_option (\<lambda>t. c # t) (unescapeHost zone cs))"

definition lastIndex :: "char \<Rightarrow> string \<Rightarrow> nat option" where
  "lastIndex c s =
     (if c \<in> set s then Some (length s - 1 - length (takeWhile (\<lambda>x. x \<noteq> c) (rev s))) else None)"

fun indexOf :: "string \<Rightarrow> string \<Rightarrow> nat option" where
  "indexOf [] sub = (if sub = [] then Some 0 else None)"
| "indexOf (c # cs) sub =
     (if prefix sub (c # cs) then Some 0 else map_option Suc (indexOf cs sub))"

definition parseHost :: "string \<Rightarrow> string option" where
  "parseHost host =
     (if HasPrefix host ''['' then
        (case lastIndex (CHR '']'') host of
           None \<Rightarrow> None
         | Some i \<Rightarrow>
             (if \<not> validOptionalPort (drop (i + 1) host) then None
              else case indexOf (take i host) ''%25'' of
                None \<Rightarrow> unescapeHost False host
              | Some z \<Rightarrow>
                  (case (unescapeHost False (take z host), unescapeHost True (take (i - z) (drop z host)),
                         unescapeHost False (drop i host)) of
                     (Some h1, Some h2, Some h3) \<Rightarrow> Some (h1 @ h2 @ h3)
                   | _ \<Rightarrow> None)))
      else case lastIndex (CHR '':'') host of
        None \<Rightarrow> unescapeHost False host
      | Some i \<Rightarrow> if \<not> validOptionalPort (drop i host) then None else unescapeHost False host)"

text \<open>\<open>unescape\<close> fails on a malformed escape in the modes of user names and paths, on nothing else.\<close>

fun escapesOk :: "string \<Rightarrow> bool" where
  "escapesOk [] = True"
| "escapesOk (c # cs) =
     (if c = CHR ''%'' then
        (case cs of
           h # l # rest \<Rightarrow> hexVal h \<noteq> None \<and> hexVal l \<noteq> None \<and> escapesOk rest
         | _ \<Rightarrow> False)
      else escapesOk cs)"

definition validUserinfo :: "string \<Rightarrow> bool" where
  "validUserinfo s = list_all (\<lambda>c. isAlnum c \<or> c \<in> set ''-._:~!$&()*+,;=%@'' \<or> c = CHR 0x27) s"

definition parseAuthority :: "string \<Rightarrow> string option" where
  "parseAuthority authority =
     (case lastIndex (CHR ''@'') authority of
        None \<Rightarrow> parseHost authority
      | Some i \<Rightarrow>
          (case parseHost (drop (i + 1) authority) of
             None \<Rightarrow> None
           | Some host \<Rightarrow>
               if validUserinfo (take i authority) \<and>
                  list_all escapesOk
                    (let (a, b) = cutAt (CHR '':'') (take i authority) in [a, b])
               then Some host else None))"

text \<open>The host of the parsed URL; \<open>None\<close> when \<open>url.Parse\<close> reports an error.\<close>

definition urlHost :: "string \<Rightarrow> string option" where
  "urlHost rawURL =
     (case cutAt (CHR ''#'') rawURL of
        (u, frag) \<Rightarrow>
          (if list_ex (\<lambda>c. byteVal c < 32 \<or> byteVal c = 127) u \<or> \<not> escapesOk frag then None
           else if u = ''*'' then Some []
           else case schemeFrom u u [] of
             None \<Rightarrow> None
           | Some (scheme, rest0) \<Rightarrow>
               (let rest = fst (cutAt (CHR ''?'') rest0) in
                if \<not> HasPrefix rest ''/'' \<and> scheme \<noteq> [] then Some []
                else if \<not> HasPrefix rest ''/'' \<and> CHR '':'' \<in> set (fst (cutAt (CHR ''/'') rest)) then None
                else if (scheme \<noteq> [] \<or> \<not> HasPrefix rest ''///'') \<and> HasPrefix rest ''//'' then
                  (let authority = takeWhile (\<lambda>c. c \<noteq> CHR ''/'') (drop 2 rest) in
                   case parseAuthority authority of
                     None \<Rightarrow> None
                   | Some host \<Rightarrow>
                       if escapesOk (drop (2 + length authority) rest) then Some host else None)
                else if escapesOk rest then Some [] else None)))"

text \<open>The query of the URL of a request, as the server receives it.\<close>

definition urlQuery :: "string \<Rightarrow> string" where
  "urlQuery rawURL = snd (cutAt (CHR ''?'') (fst (cutAt (CHR ''#'') rawURL)))"

subsection \<open>net.SplitHostPort\<close>

definition SplitHostPort :: "string \<Rightarrow> (string \<times> string) option" where
  "SplitHostPort hostport =
     (case lastIndex (CHR '':'') hostport of
        None \<Rightarrow> None
      | Some i \<Rightarrow>
          (if HasPrefix hostport ''['' then
             (case indexOf hostport '']'' of
                None \<Rightarrow> None
              | Some e \<Rightarrow>
                  (if e + 1 \<noteq> i then None
                   else if CHR ''['' \<in> set (drop 1 hostport) \<or> CHR '']'' \<in> set (drop (e + 1) hostport) then None
                   else Some (drop 1 (take e hostport), drop (i + 1) hostport)))
           else if CHR '':'' \<in> set (take i hostport) then None
           else if CHR ''['' \<in> set hostport \<or> CHR '']'' \<in> set hostport then None
           else Some (take i hostport, drop (i + 1) hostport)))"

lemma SplitHostPort_examples:
  "SplitHostPort ''10.0.0.2:9090'' = Some (''10.0.0.2'', ''9090'')"
  "SplitHostPort '':8080'' = Some ([], ''8080'')"
  "SplitHostPort ''[::1]:80'' = Some (''::1'', ''80'')"
  "SplitHostPort ''::1'' = None" "SplitHostPort ''host'' = None"
  by code_simp+

lemma urlHost_examples:
  "urlHost ''https://10.0.0.2:9090/x?y'' = Some ''10.0.0.2:9090''"
  "urlHost ''10.0.0.2:9090'' = None" "urlHost ''localhost:9090'' = Some []"
  "urlHost ''http://u:p@node.example'' = Some ''node.example''"
  by code_simp+

subsection \<open>Unescaping what was escaped\<close>

lemma hexVal_upperHex: "0 \<le> d \<Longrightarrow> d < 16 \<Longrightarrow> hexVal (upperHex d) = Some d"
proof -
  have "list_all (\<lambda>d. hexVal (upperHex d) = Some d) [0..15]" by code_simp
  moreover assume "0 \<le> d" "d < 16"
  ultimately show ?thesis by (simp only: list_all_iff set_upto atLeastAtMost_iff) auto
qed

lemma byteVal_range: "0 \<le> byteVal c" "byteVal c < 256"
proof -
  have "byteVal c = byteVal c mod 256" by (simp add: byteVal_def)
  then show "0 \<le> byteVal c" "byteVal c < 256" by (metis pos_mod_sign zero_less_numeral)
      (metis \<open>byteVal c = byteVal c mod 256\<close> pos_mod_bound zero_less_numeral)
qed

declare char_of_byteVal [simp]

lemma QueryUnescape_percent: "QueryUnescape (percentByte c @ s) = map_option (\<lambda>t. c # t) (QueryUnescape s)"
proof -
  have "hexVal (upperHex (byteVal c div 16)) = Some (byteVal c div 16)"
    "hexVal (upperHex (byteVal c mod 16)) = Some (byteVal c mod 16)"
    using byteVal_range[of c] by (simp_all add: hexVal_upperHex)
  then show ?thesis by (simp add: percentByte_def)
qed

lemma QueryUnescape_Escape: "QueryUnescape (QueryEscape s) = Some s"
proof (induction s)
  case (Cons c s)
  show ?case
  proof (cases "unreserved c")
    case True
    then have "c \<noteq> CHR ''%''" "c \<noteq> CHR ''+''" by (auto simp: unreserved_def isAlnum_def byteVal_def Let_def)
    with True Cons show ?thesis by (simp add: QueryEscape_def)
  next
    case False
    with Cons show ?thesis
      by (cases "c = CHR '' ''") (simp_all add: QueryEscape_def QueryUnescape_percent)
  qed
qed (simp add: QueryEscape_def)

text \<open>An escaped text has none of the characters that structure a query.\<close>

lemma unreserved_upperHex: "0 \<le> d \<Longrightarrow> d < 16 \<Longrightarrow> unreserved (upperHex d)"
proof -
  have "list_all (\<lambda>d. unreserved (upperHex d)) [0..15]" by code_simp
  moreover assume "0 \<le> d" "d < 16"
  ultimately show ?thesis by (simp only: list_all_iff set_upto atLeastAtMost_iff) auto
qed

lemma QueryEscape_chars:
  assumes "x \<in> set (QueryEscape s)"
  shows "unreserved x \<or> x = CHR ''+'' \<or> x = CHR ''%''"
proof -
  from assms obtain c where c: "x \<in> set (if unreserved c then [c] else if c = CHR '' '' then ''+'' else percentByte c)"
    unfolding QueryEscape_def set_concat set_map by blast
  show ?thesis
  proof (cases "unreserved c \<or> c = CHR '' ''")
    case True
    with c show ?thesis by (auto split: if_splits)
  next
    case False
    with c have "x \<in> set (percentByte c)" by simp
    then show ?thesis using byteVal_range[of c] by (auto simp: percentByte_def unreserved_upperHex)
  qed
qed

lemma QueryEscape_clean:
  "c \<in> {CHR ''&'', CHR ''='', CHR '';'', CHR ''#'', CHR ''?''} \<Longrightarrow> c \<notin> set (QueryEscape s)"
  using QueryEscape_chars[of c s] by (auto simp: unreserved_def isAlnum_def byteVal_def Let_def)

end
