(* ===== verification/Ebpf.thy ===== *)
theory Ebpf
  imports Prelude
begin

text \<open>
  What lies outside the repository and is used by it: the eBPF maps, reached through the package
  \<open>github.com/cilium/ebpf\<close>, and the operating system (clock, files, processes).  Neither is defined
  here.  A map handle is a record of the methods the control plane calls, over an unspecified world
  \<^typ>\<open>'w\<close>; every definition that uses one takes it as an argument.  The documented behaviour the
  properties rely on is the predicate \<open>kernel_contract\<close> of the theory Kernel, a hypothesis where it
  is needed.

  \<open>Iterate\<close> stands for the loop head \<open>iter.Next(&k, &v)\<close> and the final \<open>iter.Err() == nil\<close>: the
  sequence of entries a loop started in a world is given, and whether it ended without error.  The
  sequence may repeat entries and, when it ends with an error, miss some.  The loops of the program
  at most delete from the map they run over, and then only the entry they are at, so every entry
  they are given is one the map held when the loop started.  A method returns
  \<^term>\<open>True\<close> beside the new world when its Go error is nil.
\<close>

record ('k, 'v, 'w) ebpf_map =
  is_nil :: bool
  Put :: "'k \<Rightarrow> 'v \<Rightarrow> 'w \<Rightarrow> 'w \<times> bool"
  Delete :: "'k \<Rightarrow> 'w \<Rightarrow> 'w \<times> bool"
  Lookup :: "'k \<Rightarrow> 'w \<Rightarrow> 'v option"
  Iterate :: "'w \<Rightarrow> ('k \<times> 'v) list \<times> bool"
  MaxEntries :: "'w \<Rightarrow> nat option"

subsection \<open>The keys and values of the maps (map_manager.go)\<close>

record LpmTrieKey =
  PrefixLen :: u32
  Data :: u32

record BackendKey =
  Vip :: u32
  Vport :: u16
  Protocol :: u8
  KeyPad :: u8

record BackendInfo =
  BackendIP :: u32
  BackendPort :: u16
  TunnelType :: u8
  InfoPad :: u8

record VipStatsVal =
  Passed :: u64
  Dropped :: u64

record statVal =
  PPS :: u64
  BPS :: u64
  NextUpdate :: u64

record RingStatsVal =
  RxFillPct :: u32
  TxFillPct :: u32
  FillRingPct :: u32
  CompletionRingPct :: u32
  TimestampNs :: u64

subsection \<open>The loaded objects (loader.go)\<close>

text \<open>
  The maps of \<open>bpfObjects\<close> the map manager reads or writes.  The keys and values of \<open>a2s_info\<close>
  are never looked at in Go; they are left as bytes.
\<close>

record 'w bpfObjects =
  CidrBlacklist :: "(LpmTrieKey, u64, 'w) ebpf_map"
  CidrWhitelist :: "(LpmTrieKey, u64, 'w) ebpf_map"
  IpStatsMap :: "(u32, statVal list, 'w) ebpf_map"
  BackendMap :: "(BackendKey, BackendInfo, 'w) ebpf_map"
  StatsMap :: "(u32, u64 list, 'w) ebpf_map"
  A2sInfo :: "(u8 list, u8 list, 'w) ebpf_map"
  VipStats :: "(u32, VipStatsVal, 'w) ebpf_map"
  ConfigMap :: "(u32, u64, 'w) ebpf_map"
  RingStatsMap :: "(u32, RingStatsVal, 'w) ebpf_map"

text \<open>
  The operating system and the runtime: the clock (in Unix seconds, as the RFC 3339 text of the local
  time and in nanoseconds), files and directories, commands run for their effect, the addresses of
  the network interfaces as \<open>IP.String\<close> prints them, the host name, the random source, and the order
  in which \<open>range\<close> visits the keys of a Go map, which the language leaves open.  \<open>Stat\<close> tells whether
  \<open>os.Stat\<close> succeeds for a path, \<open>NotExist\<close> whether it fails with an error of which \<open>os.IsNotExist\<close> holds
  (it can fail otherwise, for lack of permission, say).
\<close>

record 'w goos =
  UnixNow :: "'w \<Rightarrow> u64"
  ReadFile :: "string \<Rightarrow> 'w \<Rightarrow> string option"
  WriteFile :: "string \<Rightarrow> string \<Rightarrow> 'w \<Rightarrow> 'w \<times> bool"
  AppendFile :: "string \<Rightarrow> string \<Rightarrow> 'w \<Rightarrow> 'w \<times> bool"
  RunCommand :: "string list \<Rightarrow> 'w \<Rightarrow> 'w"
  Stat :: "string \<Rightarrow> 'w \<Rightarrow> bool"
  NotExist :: "string \<Rightarrow> 'w \<Rightarrow> bool"
  FileSize :: "string \<Rightarrow> 'w \<Rightarrow> int"
  MkdirAll :: "string \<Rightarrow> 'w \<Rightarrow> 'w \<times> bool"
  AppendCreateFile :: "string \<Rightarrow> string \<Rightarrow> 'w \<Rightarrow> 'w \<times> bool"
  TimeText :: "'w \<Rightarrow> string"
  NowNano :: "'w \<Rightarrow> int"
  InterfaceIPs :: "'w \<Rightarrow> string list option"
  Hostname :: "'w \<Rightarrow> string option"
  RandomBytes :: "nat \<Rightarrow> 'w \<Rightarrow> u8 list option"
  MapOrder :: "string fset \<Rightarrow> 'w \<Rightarrow> string list"

text \<open>Ranging over a map visits every key once.\<close>

definition map_order_contract :: "'w goos \<Rightarrow> bool" where
  "map_order_contract os \<longleftrightarrow>
     (\<forall>S w. distinct (MapOrder os S w) \<and> set (MapOrder os S w) = fset S)"

end
