(* ===== verification/Cidr.thy ===== *)
theory Cidr
  imports GoNet Ebpf
begin

text \<open>
  Addresses and CIDR blocks as the control plane keys its maps with them
  (\<open>ipToUint32\<close>, \<open>parseCIDR\<close>, \<open>formatLpmKey\<close>, \<open>htons\<close> and \<open>ntohs\<close> of \<open>map_manager.go\<close>), the
  specification of the network a key denotes, and the round trip of printing and parsing a key.
\<close>

subsection \<open>Definitions\<close>

definition ipToUint32 :: "string \<Rightarrow> go_error + u32" where
  "ipToUint32 ipStr =
     (case ParseIP ipStr of
        None \<Rightarrow> Inl (ErrInvalidIP ipStr)
      | Some ip \<Rightarrow>
          (case To4 ip of
             None \<Rightarrow> Inl ErrOnlyIPv4
           | Some ipv4 \<Rightarrow> Inr (LittleEndianUint32 ipv4)))"

definition parseCIDR :: "string \<Rightarrow> go_error + u32 \<times> u32" where
  "parseCIDR cidrStr =
     (case ParseCIDR cidrStr of
        None \<Rightarrow>
          (case ParseIP cidrStr of
             None \<Rightarrow> Inl (ErrInvalidCIDR cidrStr)
           | Some ip \<Rightarrow>
               (case To4 ip of
                  None \<Rightarrow> Inl ErrOnlyIPv4
                | Some ipv4 \<Rightarrow> Inr (LittleEndianUint32 ipv4, 32)))
      | Some ipNet \<Rightarrow>
          (case To4 (IP ipNet) of
             None \<Rightarrow> Inl ErrOnlyIPv4
           | Some ipv4 \<Rightarrow> Inr (LittleEndianUint32 ipv4, of_nat (MaskSize (IPMask ipNet)))))"

definition formatLpmKey :: "LpmTrieKey \<Rightarrow> string" where
  "formatLpmKey key =
     (let ip = IPv4String (PutUint32 (Data key)) in
      if PrefixLen key = 32 then ip
      else ip @ ''/'' @ itoa (uint (PrefixLen key)))"

definition htons :: "u16 \<Rightarrow> u16" where
  "htons val = push_bit 8 val OR drop_bit 8 val"

definition ntohs :: "u16 \<Rightarrow> u16" where
  "ntohs val = push_bit 8 val OR drop_bit 8 val"

subsection \<open>The network of a key\<close>

text \<open>
  \<open>networkOf d p\<close> clears the host bits of the address whose four bytes \<open>d\<close> holds.  A key is
  canonical when its prefix fits and its host bits are clear; only canonical keys have a trie node
  of their own.
\<close>

definition networkOf :: "u32 \<Rightarrow> nat \<Rightarrow> u32" where
  "networkOf d p = LittleEndianUint32 (map2 (AND) (PutUint32 d) (CIDRMask p 4))"

definition canonicalKey :: "LpmTrieKey \<Rightarrow> bool" where
  "canonicalKey k \<longleftrightarrow>
     PrefixLen k \<le> 32 \<and> networkOf (Data k) (unat (PrefixLen k)) = Data k"

lemma canonicalKey_example: "canonicalKey \<lparr>PrefixLen = 24, Data = 0x006433C6\<rparr>"
  by code_simp

lemma not_canonicalKey_example: "\<not> canonicalKey \<lparr>PrefixLen = 24, Data = 0x056433C6\<rparr>"
  by code_simp

subsection \<open>Parsing what was printed\<close>

lemma find_append_skip:
  "\<forall>x \<in> set xs. \<not> P x \<Longrightarrow> P y \<Longrightarrow> find P (xs @ y # ys) = Some y"
  by (induction xs) auto

lemma ParseAddr_IPv4String:
  "ParseAddr (IPv4String [b0, b1, b2, b3]) = Some (AddrV4 [b0, b1, b2, b3])"
proof -
  have "\<forall>c \<in> set (itoa (uint b0)). \<not> (c = CHR ''.'' \<or> c = CHR '':'' \<or> c = CHR ''%'')"
    by auto
  then have "find (\<lambda>c. c = CHR ''.'' \<or> c = CHR '':'' \<or> c = CHR ''%'') (IPv4String [b0, b1, b2, b3])
      = Some (CHR ''.'')"
    by (simp add: IPv4String_def find_append_skip)
  then show ?thesis by (simp add: ParseAddr_def parseIPv4Fields_dotted)
qed

lemma slash_notin_IPv4String: "CHR ''/'' \<notin> set (IPv4String [b0, b1, b2, b3])"
  by (simp add: IPv4String_def)

lemma ParseIP_IPv4String:
  "length v = 4 \<Longrightarrow> ParseIP (IPv4String v) = Some (v4InV6Prefix @ v)"
  by (erule length4E) (simp add: ParseIP_def ParseAddr_IPv4String)

lemma To4_mapped [simp]: "length v = 4 \<Longrightarrow> To4 (v4InV6Prefix @ v) = Some v"
  by (simp add: To4_def v4InV6Prefix_def)

lemma To4_four [simp]: "length v = 4 \<Longrightarrow> To4 v = Some v"
  by (simp add: To4_def)

lemma Mask_mapped:
  "length v = 4 \<Longrightarrow> length m = 4 \<Longrightarrow> Mask (v4InV6Prefix @ v) m = Some (map2 (AND) v m)"
  by (simp add: Mask_def v4InV6Prefix_def Let_def)

lemma ParseCIDR_IPv4String:
  assumes "length v = 4" "n \<le> 32"
  shows "ParseCIDR (IPv4String v @ CHR ''/'' # itoa (int n))
         = Some \<lparr>IP = map2 (AND) v (CIDRMask n 4), IPMask = CIDRMask n 4\<rparr>"
proof -
  obtain b0 b1 b2 b3 where v: "v = [b0, b1, b2, b3]" using assms(1) by (rule length4E)
  have take: "takeWhile (\<lambda>c. c \<noteq> CHR ''/'') (IPv4String v @ CHR ''/'' # itoa (int n)) = IPv4String v"
    using slash_notin_IPv4String[of b0 b1 b2 b3] unfolding v
    by (subst takeWhile_append2) auto
  have "dtoi (itoa (int n)) = Some (int n, length (itoa (int n)))"
    using assms(2) by (intro dtoi_itoa) simp_all
  then show ?thesis
    using assms ParseAddr_IPv4String[of b0 b1 b2 b3] unfolding v
    by (simp add: ParseCIDR_def take[unfolded v] Let_def Mask_mapped)
qed

lemma parseCIDR_cidr_text:
  assumes "n \<le> 32"
  shows "parseCIDR (IPv4String (PutUint32 d) @ CHR ''/'' # itoa (int n)) = Inr (networkOf d n, of_nat n)"
  using assms
  by (simp add: parseCIDR_def ParseCIDR_IPv4String networkOf_def MaskSize_CIDRMask)

lemma parseCIDR_address_text:
  "parseCIDR (IPv4String (PutUint32 d)) = Inr (d, 32)"
proof -
  have "ParseCIDR (IPv4String (PutUint32 d)) = None"
    using slash_notin_IPv4String by (simp add: ParseCIDR_def PutUint32_def)
  then show ?thesis by (simp add: parseCIDR_def ParseIP_IPv4String)
qed

lemma ipToUint32_address_text: "ipToUint32 (IPv4String (PutUint32 d)) = Inr d"
  by (simp add: ipToUint32_def ParseIP_IPv4String)

lemma u8_and_255 [simp]: "x AND 255 = (x :: u8)"
proof -
  have "(255 :: u8) = - 1" by simp
  then show ?thesis by (simp only: and.right_neutral)
qed

lemma networkOf_32 [simp]: "networkOf d 32 = d"
proof -
  have "CIDRMask 32 4 = replicate 4 255" by code_simp
  moreover have "map2 (AND) (PutUint32 d) (replicate 4 255) = PutUint32 d"
    by (simp add: PutUint32_def numeral_eq_Suc)
  ultimately show ?thesis by (simp add: networkOf_def)
qed

lemma map2_and_idem: "map2 (AND) (map2 (AND) v m) m = map2 (AND) v (m :: u8 list)"
proof (induction v arbitrary: m)
  case (Cons x v)
  then show ?case by (cases m) (simp_all add: and.assoc)
qed simp

lemma networkOf_idem: "networkOf (networkOf d p) p = networkOf d p"
  by (simp add: networkOf_def PutUint32_Uint32 map2_and_idem)

subsection \<open>What a successful parse returns\<close>

lemma ParseAddr_V4_length: "ParseAddr s = Some (AddrV4 b) \<Longrightarrow> length b = 4"
  by (auto simp: ParseAddr_def parseIPv6_def Let_def
      split: option.splits if_splits dest: parseIPv4Fields_length)

lemma networkOf_masked:
  "length v = 4 \<Longrightarrow> networkOf (LittleEndianUint32 (map2 (AND) v (CIDRMask p 4))) p
     = LittleEndianUint32 (map2 (AND) v (CIDRMask p 4))"
  by (simp add: networkOf_def PutUint32_Uint32 map2_and_idem)

lemma ParseCIDR_SomeE:
  assumes "ParseCIDR s = Some net"
  obtains a n where "ParseAddr (takeWhile (\<lambda>c. c \<noteq> CHR ''/'') s) = Some a" "n \<le> BitLen a"
    "net = \<lparr>IP = (case Mask (As16 a) (CIDRMask n (BitLen a div 8)) of None \<Rightarrow> [] | Some x \<Rightarrow> x),
       IPMask = CIDRMask n (BitLen a div 8)\<rparr>"
proof -
  let ?addr = "takeWhile (\<lambda>c. c \<noteq> CHR ''/'') s"
  from assms obtain a where a: "ParseAddr ?addr = Some a"
    by (auto simp: ParseCIDR_def Let_def split: if_splits option.splits)
  from assms obtain n i where "dtoi (drop (length ?addr + 1) s) = Some (n, i)"
    by (auto simp: ParseCIDR_def Let_def split: if_splits option.splits)
  with assms a that[OF a, of "nat n"] show ?thesis
    by (simp add: ParseCIDR_def Let_def nat_le_iff split: if_splits)
qed

text \<open>
  The bytes of a mask after its ones are zero, so a block whose mask has at most 32 ones is never
  taken for an IPv4 address mapped into IPv6.
\<close>

lemma CIDRMask_nth_0: "n \<le> 8 * i \<Longrightarrow> i < l \<Longrightarrow> CIDRMask n l ! i = 0"
proof (induction n l arbitrary: i rule: CIDRMask.induct)
  case (2 n l)
  show ?case
  proof (cases i)
    case (Suc j)
    then show ?thesis using 2 by (cases "8 \<le> n") simp_all
  qed (use 2 in simp)
qed simp

lemma To4_masked_v6:
  assumes "To4 (case Mask b (CIDRMask n 16) of None \<Rightarrow> [] | Some x \<Rightarrow> x) = Some v" "length b = 16"
  shows "n > 32"
proof (rule ccontr)
  assume "\<not> n > 32"
  then have z: "CIDRMask n 16 ! 10 = 0" by (simp add: CIDRMask_nth_0)
  have "Mask b (CIDRMask n 16) = Some (map2 (AND) b (CIDRMask n 16))"
    using assms(2) by (simp add: Mask_def Let_def)
  with assms have "take 12 (map2 (AND) b (CIDRMask n 16)) = v4InV6Prefix"
    by (simp add: To4_def split: if_splits)
  then have "take 12 (map2 (AND) b (CIDRMask n 16)) ! 10 = 255" by (simp add: v4InV6Prefix_def)
  with z assms(2) show False by simp
qed

lemma even_less_16: "even n \<Longrightarrow> n < 16 \<Longrightarrow> n \<le> 14" for n :: nat
  by (auto elim!: evenE)

lemma parseIPv6Loop_length:
  "parseIPv6Loop s ip ell = Some (rest, ip', ell') \<Longrightarrow> even (length ip) \<Longrightarrow> length ip \<le> 16 \<Longrightarrow>
   length ip' \<le> 16"
proof (induction s ip ell rule: parseIPv6Loop.induct)
  case (1 s ip ell)
  note step = 1(3)[unfolded parseIPv6Loop.simps[of s ip ell]]
  show ?case
  proof (cases "length ip < 16")
    case True
    with 1(4) have len: "length ip \<le> 14" by (rule even_less_16)
    obtain off acc s0 where hex: "hexGroup s 0 0 = Some (off, acc, s0)" and off: "off \<noteq> 0"
      using step True by (auto split: option.splits if_splits)
    show ?thesis
    proof (cases s0)
      case Nil
      then show ?thesis using step True hex off len by auto
    next
      case (Cons c s1)
      show ?thesis
      proof (cases "c = CHR ''.''")
        case True
        then show ?thesis
          using step \<open>length ip < 16\<close> hex off Cons
          by (auto dest!: parseIPv4Fields_length split: option.splits if_splits)
      next
        case False
        with step \<open>length ip < 16\<close> hex off Cons obtain c2 s2 where c: "c = CHR '':''" "s1 = c2 # s2"
          by (auto simp: Let_def split: list.splits if_splits)
        let ?ip = "ip @ [of_int (acc div 256), of_int acc]"
        have ih1: "c2 = CHR '':'' \<Longrightarrow> ell = None \<Longrightarrow> s2 \<noteq> [] \<Longrightarrow>
            parseIPv6Loop s2 ?ip (Some (length ?ip)) = Some (rest, ip', ell') \<Longrightarrow> length ip' \<le> 16"
          by (rule 1(1)[OF _ hex refl refl off Cons False refl _ c(2)])
             (use \<open>length ip < 16\<close> len 1(4) c in simp_all)
        have ih2: "c2 \<noteq> CHR '':'' \<Longrightarrow>
            parseIPv6Loop s1 ?ip ell = Some (rest, ip', ell') \<Longrightarrow> length ip' \<le> 16"
          by (rule 1(2)[OF _ hex refl refl off Cons False refl _ c(2)])
             (use \<open>length ip < 16\<close> len 1(4) c in simp_all)
        show ?thesis
        proof (cases "c2 = CHR '':'' \<and> s2 \<noteq> []")
          case True
          with step \<open>length ip < 16\<close> hex off Cons False c
          have "ell = None" "parseIPv6Loop s2 ?ip (Some (length ?ip)) = Some (rest, ip', ell')"
            by (simp_all add: Let_def split: if_splits)
          with True show ?thesis by (intro ih1) simp_all
        next
          case other: False
          with other step \<open>length ip < 16\<close> hex off Cons False c len ih2 show ?thesis
            by (auto simp: Let_def split: if_splits)
        qed
      qed
    qed
  next
    case False
    then show ?thesis using step 1(5) by simp
  qed
qed

lemma parseIPv6Loop_start: "parseIPv6Loop s [] ell = Some (rest, ip, ell') \<Longrightarrow> length ip \<le> 16"
  by (erule parseIPv6Loop_length) simp_all

lemma ParseAddr_V6_length: "ParseAddr s = Some (AddrV6 b z) \<Longrightarrow> length b = 16"
  by (auto simp: ParseAddr_def parseIPv6_def Let_def min_def
      split: option.splits if_splits dest!: parseIPv6Loop_start)

lemma dtoi_nonneg:
  assumes "dtoi s = Some (n, i)"
  shows "0 \<le> n"
proof -
  have "0 \<le> n0 \<Longrightarrow> dtoiLoop s n0 i0 = Some (n, i) \<Longrightarrow> 0 \<le> n" for n0 i0
    by (induction s n0 i0 rule: dtoiLoop.induct) (auto simp: digitVal_def Let_def split: option.splits if_splits)
  with assms show ?thesis by (fastforce simp: dtoi_def split: option.splits if_splits)
qed

lemma parseCIDR_canonical:
  assumes "parseCIDR s = Inr (d, p)"
  shows "canonicalKey \<lparr>PrefixLen = p, Data = d\<rparr> \<or> p > 32"
proof (cases "ParseCIDR s")
  case None
  with assms have "p = 32" by (auto simp: parseCIDR_def split: option.splits)
  then show ?thesis by (simp add: canonicalKey_def)
next
  case (Some net)
  let ?addr = "takeWhile (\<lambda>c. c \<noteq> CHR ''/'') s"
  from Some obtain a n where a: "ParseAddr ?addr = Some a" and n: "n \<le> BitLen a"
    and net: "net = \<lparr>IP = (case Mask (As16 a) (CIDRMask n (BitLen a div 8)) of None \<Rightarrow> [] | Some x \<Rightarrow> x),
             IPMask = CIDRMask n (BitLen a div 8)\<rparr>"
    by (rule ParseCIDR_SomeE)
  show ?thesis
  proof (cases a)
    case (AddrV4 b)
    with a have b: "length b = 4" by (simp add: ParseAddr_V4_length)
    with n net AddrV4 have "net = \<lparr>IP = map2 (AND) b (CIDRMask n 4), IPMask = CIDRMask n 4\<rparr>" "n \<le> 32"
      by (simp_all add: Mask_mapped)
    with assms Some b have "d = LittleEndianUint32 (map2 (AND) b (CIDRMask n 4))" "p = of_nat n"
      by (simp_all add: parseCIDR_def MaskSize_CIDRMask)
    moreover have "unat (of_nat n :: u32) = n" "(of_nat n :: u32) \<le> 32"
      using \<open>n \<le> 32\<close> by (simp_all add: unat_of_nat word_le_nat_alt)
    ultimately show ?thesis using b by (simp add: canonicalKey_def networkOf_masked)
  next
    case (AddrV6 b z)
    with a have b: "length b = 16" by (simp add: ParseAddr_V6_length)
    from AddrV6 n net have net': "net = \<lparr>IP = (case Mask b (CIDRMask n 16) of None \<Rightarrow> [] | Some x \<Rightarrow> x),
        IPMask = CIDRMask n 16\<rparr>" "n \<le> 128" by simp_all
    with assms Some obtain v where v: "To4 (IP net) = Some v" and p: "p = of_nat n"
      by (auto simp: parseCIDR_def MaskSize_CIDRMask split: option.splits)
    have "n > 32" using v net'(1) b by (auto intro: To4_masked_v6)
    with net'(2) p have "p > 32" by (simp add: word_less_nat_alt unat_of_nat)
    then show ?thesis ..
  qed
qed

lemma parseCIDR_formatLpmKey:
  assumes "canonicalKey k"
  shows "parseCIDR (formatLpmKey k) = Inr (Data k, PrefixLen k)"
proof (cases "PrefixLen k = 32")
  case True
  then show ?thesis by (simp add: formatLpmKey_def parseCIDR_address_text)
next
  case False
  from assms have le: "unat (PrefixLen k) \<le> 32" and net: "networkOf (Data k) (unat (PrefixLen k)) = Data k"
    by (simp_all add: canonicalKey_def word_le_nat_alt)
  have "formatLpmKey k = IPv4String (PutUint32 (Data k)) @ CHR ''/'' # itoa (int (unat (PrefixLen k)))"
    using False by (simp add: formatLpmKey_def Let_def)
  with parseCIDR_cidr_text[OF le, of "Data k"] net show ?thesis by simp
qed

subsection \<open>What a text denotes\<close>

text \<open>
  A block is written as an IPv4 address, a slash and a decimal number of at most 32; the text denotes
  the addresses that agree with that address in so many leading bits.  An address alone denotes itself.
\<close>

definition blockText :: "string \<Rightarrow> u8 list \<Rightarrow> nat \<Rightarrow> bool" where
  "blockText s b n \<longleftrightarrow>
     (\<exists>a m. s = a @ CHR ''/'' # m \<and> CHR ''/'' \<notin> set a \<and> ParseAddr a = Some (AddrV4 b) \<and>
        dtoi m = Some (int n, length m) \<and> n \<le> 32)"

definition addressText :: "string \<Rightarrow> u8 list \<Rightarrow> bool" where
  "addressText s b \<longleftrightarrow> (\<exists>ip. ParseIP s = Some ip \<and> To4 ip = Some b)"

definition blockKey :: "u8 list \<Rightarrow> nat \<Rightarrow> LpmTrieKey" where
  "blockKey b n = \<lparr>PrefixLen = of_nat n, Data = LittleEndianUint32 (map2 (AND) b (CIDRMask n 4))\<rparr>"

lemma takeWhile_slash:
  assumes "CHR ''/'' \<in> set s"
  shows "s = takeWhile (\<lambda>c. c \<noteq> CHR ''/'') s @ CHR ''/'' # drop (length (takeWhile (\<lambda>c. c \<noteq> CHR ''/'') s) + 1) s"
proof -
  let ?t = "takeWhile (\<lambda>c. c \<noteq> CHR ''/'') s" and ?d = "dropWhile (\<lambda>c. c \<noteq> CHR ''/'') s"
  obtain c cs where d: "?d = c # cs" using assms by (cases ?d) (auto simp: dropWhile_eq_Nil_conv)
  then have "c = CHR ''/''" using hd_dropWhile[of "\<lambda>c. c \<noteq> CHR ''/''" s] by simp
  then have s: "?t @ CHR ''/'' # cs = s" using takeWhile_dropWhile_id[of "\<lambda>c. c \<noteq> CHR ''/''" s] d by simp
  have "drop (length t + 1) u = cs" if "t @ CHR ''/'' # cs = u" for t u by (simp flip: that)
  from this[OF s] s show ?thesis by simp
qed

lemma blockText_parses:
  assumes "blockText s b n"
  shows "parseCIDR s = Inr (Data (blockKey b n), PrefixLen (blockKey b n))"
proof -
  obtain a m where s: "s = a @ CHR ''/'' # m" "CHR ''/'' \<notin> set a" "ParseAddr a = Some (AddrV4 b)"
    "dtoi m = Some (int n, length m)" "n \<le> 32" using assms by (auto simp: blockText_def)
  have b: "length b = 4" using s(3) by (rule ParseAddr_V4_length)
  have "takeWhile (\<lambda>c. c \<noteq> CHR ''/'') s = a" unfolding s(1) using s(2) by (subst takeWhile_append2) auto
  with s b have "ParseCIDR s = Some \<lparr>IP = map2 (AND) b (CIDRMask n 4), IPMask = CIDRMask n 4\<rparr>"
    by (simp add: ParseCIDR_def Let_def Mask_mapped)
  with s(5) b show ?thesis by (simp add: parseCIDR_def blockKey_def MaskSize_CIDRMask)
qed

lemma parseCIDR_denotes:
  assumes "parseCIDR s = Inr (d, p)" "p \<le> 32"
  shows "\<exists>b n. (blockText s b n \<or> n = 32 \<and> addressText s b) \<and> \<lparr>PrefixLen = p, Data = d\<rparr> = blockKey b n"
proof (cases "ParseCIDR s")
  case None
  then obtain ip b where ip: "ParseIP s = Some ip" "To4 ip = Some b" "d = LittleEndianUint32 b" "p = 32"
    using assms(1) by (auto simp: parseCIDR_def split: option.splits)
  have "length b = 4" using ip(2) by (rule To4_length)
  then have "map2 (AND) b (CIDRMask 32 4) = b" by (elim length4E) (simp add: numeral_eq_Suc)
  with ip show ?thesis by (intro exI[of _ b] exI[of _ 32]) (simp add: addressText_def blockKey_def)
next
  case (Some net)
  let ?a = "takeWhile (\<lambda>c. c \<noteq> CHR ''/'') s"
  let ?m = "drop (length ?a + 1) s"
  from Some have slash: "CHR ''/'' \<in> set s" by (auto simp: ParseCIDR_def split: if_splits)
  from Some obtain addr where addr: "ParseAddr ?a = Some addr"
    by (auto simp: ParseCIDR_def Let_def split: if_splits option.splits)
  from Some obtain n i where n: "dtoi ?m = Some (n, i)"
    by (auto simp: ParseCIDR_def Let_def split: if_splits option.splits)
  have n0: "0 \<le> n" using dtoi_nonneg[OF n] .
  from Some addr n slash have len: "i = length ?m" "n \<le> int (BitLen addr)"
    and net: "net = \<lparr>IP = (case Mask (As16 addr) (CIDRMask (nat n) (BitLen addr div 8)) of None \<Rightarrow> [] | Some x \<Rightarrow> x),
       IPMask = CIDRMask (nat n) (BitLen addr div 8)\<rparr>"
    by (simp_all add: ParseCIDR_def Let_def split: if_splits)
  show ?thesis
  proof (cases addr)
    case (AddrV4 b)
    have "CHR ''/'' \<notin> set ?a" by (auto dest: set_takeWhileD)
    with takeWhile_slash[OF slash] addr AddrV4 n len n0 have bt: "blockText s b (nat n)"
      unfolding blockText_def by (intro exI[of _ ?a] exI[of _ ?m]) simp
    from blockText_parses[OF this] assms(1) bt show ?thesis
      by (intro exI[of _ b] exI[of _ "nat n"]) (simp add: blockKey_def)
  next
    case (AddrV6 b z)
    with addr have b: "length b = 16" by (simp add: ParseAddr_V6_length)
    from AddrV6 len net have net': "net = \<lparr>IP = (case Mask b (CIDRMask (nat n) 16) of None \<Rightarrow> [] | Some x \<Rightarrow> x),
        IPMask = CIDRMask (nat n) 16\<rparr>" "nat n \<le> 128" by simp_all
    with assms Some obtain v where v: "To4 (IP net) = Some v" and p: "p = of_nat (nat n)"
      by (auto simp: parseCIDR_def MaskSize_CIDRMask split: option.splits)
    have "nat n > 32" using v net'(1) b by (auto intro: To4_masked_v6)
    moreover have "(of_nat N :: u32) > 32" if "N \<le> 128" "32 < N" for N
      using that by (simp add: word_less_nat_alt unat_of_nat)
    ultimately have "p > 32" using net'(2) unfolding p by blast
    with assms(2) show ?thesis by simp
  qed
qed

subsection \<open>Byte order of ports\<close>

lemma ntohs_htons [simp]: "ntohs (htons v) = v"
  by (rule bit_word_eqI) (auto simp: ntohs_def htons_def bit_simps dest: bit_imp_le_length)

lemma htons_ntohs [simp]: "htons (ntohs v) = v"
  by (rule bit_word_eqI) (auto simp: ntohs_def htons_def bit_simps dest: bit_imp_le_length)

subsection \<open>Properties\<close>

text \<open>
  C34: Printing a canonical key and parsing the text gives the key back: the CIDR texts the API lists,
  logs and synchronises denote the entries they came from.
\<close>

theorem parse_format_roundtrip:
  "canonicalKey k \<Longrightarrow> parseCIDR (formatLpmKey k) = Inr (Data k, PrefixLen k)"
  by (rule parseCIDR_formatLpmKey)

theorem parse_format_roundtrip_witness:
  "parseCIDR (formatLpmKey \<lparr>PrefixLen = 24, Data = 0x006433C6\<rparr>) = Inr (0x006433C6, 24)"
  using parse_format_roundtrip[OF canonicalKey_example] by simp

text \<open>A prefix of more than 32 bits does occur.\<close>

lemma parseCIDR_mapped_block: "parseCIDR ''::ffff:1.2.3.4/128'' = Inr (67305985, 128)"
  by code_simp

end
