(* ===== verification/Kernel.thy ===== *)
theory Kernel
  imports Ebpf Cidr
begin

text \<open>
  The documented behaviour of the kernel maps, as the properties assume it: what the kernel holds
  (\<open>kernel_view\<close>), the contract of one map and the contract of the maps the manager writes.
\<close>

record kernel_view =
  vBlacklist :: "LpmTrieKey \<Rightarrow> u64 option"
  vWhitelist :: "LpmTrieKey \<Rightarrow> u64 option"
  vIpStats :: "u32 \<Rightarrow> statVal list option"
  vBackend :: "BackendKey \<Rightarrow> BackendInfo option"
  vConfig :: "u32 \<Rightarrow> u64 option"

text \<open>
  One map, seen through a component of the view, for the keys of \<open>K\<close> (the keys that name an entry
  of their own).  A successful write or delete changes exactly its own entry, a failed one changes
  nothing, deleting a missing key fails, an iteration yields entries of the map and, if it ends
  without error, all of them.
\<close>

definition map_contract ::
  "('k \<Rightarrow> bool) \<Rightarrow> ('k, 'v, 'w) ebpf_map \<Rightarrow> ('w \<Rightarrow> kernel_view) \<Rightarrow> (kernel_view \<Rightarrow> 'k \<Rightarrow> 'v option)
   \<Rightarrow> (('k \<Rightarrow> 'v option) \<Rightarrow> kernel_view \<Rightarrow> kernel_view) \<Rightarrow> bool" where
  "map_contract K M view sel upd \<longleftrightarrow>
     (\<forall>k v w w'. K k \<longrightarrow> Put M k v w = (w', True) \<longrightarrow>
        view w' = upd ((sel (view w))(k := Some v)) (view w)) \<and>
     (\<forall>k v w w'. Put M k v w = (w', False) \<longrightarrow> view w' = view w) \<and>
     (\<forall>k w w'. K k \<longrightarrow> Delete M k w = (w', True) \<longrightarrow>
        sel (view w) k \<noteq> None \<and> view w' = upd ((sel (view w))(k := None)) (view w)) \<and>
     (\<forall>k w w'. K k \<longrightarrow> Delete M k w = (w', False) \<longrightarrow> view w' = view w) \<and>
     (\<forall>w k. sel (view w) k \<noteq> None \<longrightarrow> K k) \<and>
     (\<forall>w kvs ok. Iterate M w = (kvs, ok) \<longrightarrow>
        (\<forall>(k, v) \<in> set kvs. sel (view w) k = Some v) \<and>
        (ok \<longrightarrow> (\<forall>k. sel (view w) k \<noteq> None \<longrightarrow> k \<in> fst ` set kvs)))"

text \<open>A lookup in a map that is not a trie reads the entry.\<close>

definition lookup_contract ::
  "('k, 'v, 'w) ebpf_map \<Rightarrow> ('w \<Rightarrow> kernel_view) \<Rightarrow> (kernel_view \<Rightarrow> 'k \<Rightarrow> 'v option) \<Rightarrow> bool" where
  "lookup_contract M view sel \<longleftrightarrow> (\<forall>k w. Lookup M k w = sel (view w) k)"

text \<open>
  The longest-prefix-match maps have four-byte keys: the kernel refuses (\<open>EINVAL\<close>) a key whose
  prefix is longer than 32 bits.
\<close>

definition lpm_prefix_bound :: "(LpmTrieKey, u64, 'w) ebpf_map \<Rightarrow> ('w \<Rightarrow> kernel_view) \<Rightarrow> bool" where
  "lpm_prefix_bound M view \<longleftrightarrow>
     (\<forall>k v w. PrefixLen k > 32 \<longrightarrow> \<not> snd (Put M k v w)) \<and>
     (\<forall>k w. PrefixLen k > 32 \<longrightarrow> \<not> snd (Delete M k w) \<and> view (fst (Delete M k w)) = view w)"

abbreviation anyKey :: "'k \<Rightarrow> bool" where
  "anyKey \<equiv> \<lambda>_. True"

definition kernel_contract :: "'w bpfObjects \<Rightarrow> ('w \<Rightarrow> kernel_view) \<Rightarrow> bool" where
  "kernel_contract objs view \<longleftrightarrow>
     map_contract canonicalKey (CidrBlacklist objs) view vBlacklist (\<lambda>f. vBlacklist_update (\<lambda>_. f)) \<and>
     map_contract canonicalKey (CidrWhitelist objs) view vWhitelist (\<lambda>f. vWhitelist_update (\<lambda>_. f)) \<and>
     map_contract anyKey (IpStatsMap objs) view vIpStats (\<lambda>f. vIpStats_update (\<lambda>_. f)) \<and>
     map_contract anyKey (BackendMap objs) view vBackend (\<lambda>f. vBackend_update (\<lambda>_. f)) \<and>
     map_contract anyKey (ConfigMap objs) view vConfig (\<lambda>f. vConfig_update (\<lambda>_. f)) \<and>
     lookup_contract (ConfigMap objs) view vConfig \<and>
     lpm_prefix_bound (CidrBlacklist objs) view \<and> lpm_prefix_bound (CidrWhitelist objs) view"

text \<open>
  Deleting an entry that is there succeeds, in the maps the control plane deletes from (the array
  maps refuse every delete).
\<close>

definition delete_contract ::
  "('k \<Rightarrow> bool) \<Rightarrow> ('k, 'v, 'w) ebpf_map \<Rightarrow> ('w \<Rightarrow> kernel_view) \<Rightarrow> (kernel_view \<Rightarrow> 'k \<Rightarrow> 'v option)
   \<Rightarrow> bool" where
  "delete_contract K M view sel \<longleftrightarrow> (\<forall>k w. K k \<longrightarrow> sel (view w) k \<noteq> None \<longrightarrow> snd (Delete M k w))"

definition kernel_deletes :: "'w bpfObjects \<Rightarrow> ('w \<Rightarrow> kernel_view) \<Rightarrow> bool" where
  "kernel_deletes objs view \<longleftrightarrow>
     delete_contract canonicalKey (CidrBlacklist objs) view vBlacklist \<and>
     delete_contract canonicalKey (CidrWhitelist objs) view vWhitelist \<and>
     delete_contract anyKey (IpStatsMap objs) view vIpStats \<and>
     delete_contract anyKey (BackendMap objs) view vBackend"

lemma map_contractD:
  assumes "map_contract K M view sel upd"
  shows Put_ok:
      "K k \<Longrightarrow> Put M k v w = (w', True) \<Longrightarrow> view w' = upd ((sel (view w))(k := Some v)) (view w)"
    and Put_err: "Put M k v w = (w', False) \<Longrightarrow> view w' = view w"
    and Delete_ok:
      "K k \<Longrightarrow> Delete M k w = (w', True) \<Longrightarrow> view w' = upd ((sel (view w))(k := None)) (view w)"
    and Delete_ok_dom: "K k \<Longrightarrow> Delete M k w = (w', True) \<Longrightarrow> sel (view w) k \<noteq> None"
    and Delete_err: "K k \<Longrightarrow> Delete M k w = (w', False) \<Longrightarrow> view w' = view w"
    and stored_key: "sel (view w) k = Some v \<Longrightarrow> K k"
    and Iterate_sound: "Iterate M w = (kvs, ok) \<Longrightarrow> (k, v) \<in> set kvs \<Longrightarrow> sel (view w) k = Some v"
    and Iterate_complete: "Iterate M w = (kvs, True) \<Longrightarrow> sel (view w) k \<noteq> None \<Longrightarrow> k \<in> fst ` set kvs"
proof -
  note c = assms[unfolded map_contract_def]
  note c1 = c[THEN conjunct1] and r1 = c[THEN conjunct2]
  note c2 = r1[THEN conjunct1] and r2 = r1[THEN conjunct2]
  note c3 = r2[THEN conjunct1] and r3 = r2[THEN conjunct2]
  note c4 = r3[THEN conjunct1] and r4 = r3[THEN conjunct2]
  note c5 = r4[THEN conjunct1] and c6 = r4[THEN conjunct2]
  show "K k \<Longrightarrow> Put M k v w = (w', True) \<Longrightarrow> view w' = upd ((sel (view w))(k := Some v)) (view w)"
    using c1 by blast
  show "Put M k v w = (w', False) \<Longrightarrow> view w' = view w" using c2 by blast
  show "K k \<Longrightarrow> Delete M k w = (w', True) \<Longrightarrow> view w' = upd ((sel (view w))(k := None)) (view w)"
    and "K k \<Longrightarrow> Delete M k w = (w', True) \<Longrightarrow> sel (view w) k \<noteq> None"
    using c3 by blast+
  show "K k \<Longrightarrow> Delete M k w = (w', False) \<Longrightarrow> view w' = view w" using c4 by blast
  show "sel (view w) k = Some v \<Longrightarrow> K k" using c5 option.distinct(1) by metis
  show "Iterate M w = (kvs, ok) \<Longrightarrow> (k, v) \<in> set kvs \<Longrightarrow> sel (view w) k = Some v" using c6 by blast
  show "Iterate M w = (kvs, True) \<Longrightarrow> sel (view w) k \<noteq> None \<Longrightarrow> k \<in> fst ` set kvs" using c6 by blast
qed

lemma kernel_contractD:
  assumes "kernel_contract objs view"
  shows blacklist_contract:
      "map_contract canonicalKey (CidrBlacklist objs) view vBlacklist (\<lambda>f. vBlacklist_update (\<lambda>_. f))"
    and whitelist_contract:
      "map_contract canonicalKey (CidrWhitelist objs) view vWhitelist (\<lambda>f. vWhitelist_update (\<lambda>_. f))"
    and ip_stats_contract:
      "map_contract anyKey (IpStatsMap objs) view vIpStats (\<lambda>f. vIpStats_update (\<lambda>_. f))"
    and backend_contract:
      "map_contract anyKey (BackendMap objs) view vBackend (\<lambda>f. vBackend_update (\<lambda>_. f))"
    and config_contract:
      "map_contract anyKey (ConfigMap objs) view vConfig (\<lambda>f. vConfig_update (\<lambda>_. f))"
    and config_lookup: "lookup_contract (ConfigMap objs) view vConfig"
    and blacklist_bound: "lpm_prefix_bound (CidrBlacklist objs) view"
    and whitelist_bound: "lpm_prefix_bound (CidrWhitelist objs) view"
  using assms by (simp_all add: kernel_contract_def)

text \<open>With both contracts a delete always leaves the map without the key.\<close>

lemma delete_view:
  assumes c: "map_contract K M view sel upd" and d: "delete_contract K M view sel" and k: "K k"
    and upd: "upd (sel (view w)) (view w) = view w"
  shows "view (fst (Delete M k w)) = upd ((sel (view w))(k := None)) (view w)"
proof -
  obtain w' ok where del: "Delete M k w = (w', ok)" by fastforce
  show ?thesis
  proof (cases ok)
    case True
    with del Delete_ok[OF c k, of w w'] show ?thesis by simp
  next
    case False
    with del d k have none: "sel (view w) k = None" unfolding delete_contract_def by force
    from del False have "view w' = view w" using Delete_err[OF c k, of w w'] by simp
    moreover have "(sel (view w))(k := None) = sel (view w)" using none by (simp add: fun_upd_idem)
    ultimately show ?thesis using del upd by simp
  qed
qed

lemma delete_views:
  fixes k :: LpmTrieKey and a :: u32 and b :: BackendKey
  assumes "kernel_contract objs view" "kernel_deletes objs view"
  shows blacklist_delete: "canonicalKey k \<Longrightarrow> view (fst (Delete (CidrBlacklist objs) k w))
      = vBlacklist_update (\<lambda>_. (vBlacklist (view w))(k := None)) (view w)"
    and whitelist_delete: "canonicalKey k \<Longrightarrow> view (fst (Delete (CidrWhitelist objs) k w))
      = vWhitelist_update (\<lambda>_. (vWhitelist (view w))(k := None)) (view w)"
    and ip_stats_delete: "view (fst (Delete (IpStatsMap objs) a w))
      = vIpStats_update (\<lambda>_. (vIpStats (view w))(a := None)) (view w)"
    and backend_delete: "view (fst (Delete (BackendMap objs) b w))
      = vBackend_update (\<lambda>_. (vBackend (view w))(b := None)) (view w)"
  using assms(2)[unfolded kernel_deletes_def]
    delete_view[OF blacklist_contract[OF assms(1)], where k = k and w = w]
    delete_view[OF whitelist_contract[OF assms(1)], where k = k and w = w]
    delete_view[OF ip_stats_contract[OF assms(1)], where k = a and w = w]
    delete_view[OF backend_contract[OF assms(1)], where k = b and w = w]
  by simp_all

end
