(* ===== verification/RefKernel.thy ===== *)
theory RefKernel
  imports Kernel "HOL-Library.AList" "HOL-Library.Char_ord" "HOL-Library.List_Lexorder"
begin

text \<open>
  A kernel and an operating system the contracts hold of: maps as association lists with a capacity,
  a clock, a few files, a log of commands, the programs attached to the interfaces, and the user of the
  process with the files only their owner (the superuser) may read.  It models no
  code of the repository; the witnesses of the properties run the program on it.
\<close>

record world =
  wBlacklist :: "(LpmTrieKey \<times> u64) list"
  wWhitelist :: "(LpmTrieKey \<times> u64) list"
  wIpStats :: "(u32 \<times> statVal list) list"
  wBackend :: "(BackendKey \<times> BackendInfo) list"
  wConfig :: "(u32 \<times> u64) list"
  wStats :: "(u32 \<times> u64 list) list"
  wRing :: "(u32 \<times> RingStatsVal) list"
  wVip :: "(u32 \<times> VipStatsVal) list"
  wClock :: u64
  wFiles :: "(string \<times> string) list"
  wCommands :: "string list list"
  wXdp :: "(string \<times> int) list"
  wUser :: int
  wGroup :: int
  wSecret :: "string list"

subsection \<open>Maps\<close>

definition entries :: "('k \<Rightarrow> bool) \<Rightarrow> ('k \<times> 'v) list \<Rightarrow> ('k \<times> 'v) list" where
  "entries K l = AList.clearjunk (filter (\<lambda>e. K (fst e)) l)"

definition ref_map ::
  "('k \<Rightarrow> bool) \<Rightarrow> nat \<Rightarrow> ('w \<Rightarrow> ('k \<times> 'v) list) \<Rightarrow> (('k \<times> 'v) list \<Rightarrow> 'w \<Rightarrow> 'w)
   \<Rightarrow> ('k, 'v, 'w) ebpf_map" where
  "ref_map K cap get put =
     \<lparr>is_nil = False,
      Put = (\<lambda>k v w. let l = entries K (get w) in
        if K k \<and> (map_of l k \<noteq> None \<or> length l < cap) then (put (AList.update k v l) w, True)
        else (w, False)),
      Delete = (\<lambda>k w. let l = entries K (get w) in
        if K k \<and> map_of l k \<noteq> None then (put (AList.delete k l) w, True) else (w, False)),
      Lookup = (\<lambda>k w. map_of (entries K (get w)) k),
      Iterate = (\<lambda>w. (entries K (get w), True)),
      MaxEntries = (\<lambda>w. Some cap)\<rparr>"

lemma map_of_entries: "map_of (entries K l) k = (if K k then map_of l k else None)"
  unfolding entries_def map_of_clearjunk by (induction l) auto

lemma distinct_entries: "distinct (map fst (entries K l))"
  unfolding entries_def by (rule distinct_clearjunk)

lemma entries_key: "(k, v) \<in> set (entries K l) \<Longrightarrow> K k"
  using map_of_entries[of K l k] distinct_entries[of K l]
  by (metis option.distinct(1) map_of_eq_Some_iff)

lemma map_of_entries_update:
  "K k \<Longrightarrow> map_of (entries K (AList.update k v (entries K l))) = (map_of (entries K l))(k := Some v)"
  by (rule ext) (auto simp: map_of_entries update_conv')

lemma map_of_entries_delete:
  "map_of (entries K (AList.delete k (entries K l))) = (map_of (entries K l))(k := None)"
  by (rule ext) (auto simp: map_of_entries delete_conv')

lemma ref_map_contract:
  assumes put: "\<And>l w. view (put l w) = upd (map_of (entries K l)) (view w)"
    and get: "\<And>w. sel (view w) = map_of (entries K (get w))"
  shows "map_contract K (ref_map K cap get put) view sel upd"
proof -
  have "K k" if "sel (view w) k \<noteq> None" for w k
    using that by (simp add: get map_of_entries split: if_splits)
  moreover have "sel (view w) k = Some v" if "(k, v) \<in> set (entries K (get w))" for w k v
    using that distinct_entries[of K "get w"] by (simp add: get)
  moreover have "k \<in> fst ` set (entries K (get w))" if "sel (view w) k \<noteq> None" for w k
    using that by (simp add: get map_of_eq_None_iff)
  ultimately show ?thesis
    unfolding map_contract_def ref_map_def
    by (auto simp: Let_def put get map_of_entries_update map_of_entries_delete split: if_splits)
qed

lemma ref_map_lookup:
  "(\<And>w. sel (view w) = map_of (entries K (get w))) \<Longrightarrow>
   lookup_contract (ref_map K cap get put) view sel"
  by (simp add: lookup_contract_def ref_map_def)

lemma ref_map_prefix_bound: "lpm_prefix_bound (ref_map canonicalKey cap get put) view"
  by (auto simp: lpm_prefix_bound_def ref_map_def canonicalKey_def Let_def)

subsection \<open>The objects and the operating system\<close>

definition refObjs :: "world bpfObjects" where
  "refObjs =
     \<lparr>CidrBlacklist = ref_map canonicalKey 8 wBlacklist (\<lambda>l. wBlacklist_update (\<lambda>_. l)),
      CidrWhitelist = ref_map canonicalKey 8 wWhitelist (\<lambda>l. wWhitelist_update (\<lambda>_. l)),
      IpStatsMap = ref_map anyKey 8 wIpStats (\<lambda>l. wIpStats_update (\<lambda>_. l)),
      BackendMap = ref_map anyKey 8 wBackend (\<lambda>l. wBackend_update (\<lambda>_. l)),
      StatsMap = ref_map anyKey 8 wStats (\<lambda>l. wStats_update (\<lambda>_. l)),
      A2sInfo = ref_map anyKey 8 (\<lambda>_. []) (\<lambda>_ w. w),
      VipStats = ref_map anyKey 8 wVip (\<lambda>l. wVip_update (\<lambda>_. l)),
      ConfigMap = ref_map anyKey 8 wConfig (\<lambda>l. wConfig_update (\<lambda>_. l)),
      RingStatsMap = ref_map anyKey 8 wRing (\<lambda>l. wRing_update (\<lambda>_. l))\<rparr>"

definition refView :: "world \<Rightarrow> kernel_view" where
  "refView w =
     \<lparr>vBlacklist = map_of (entries canonicalKey (wBlacklist w)),
      vWhitelist = map_of (entries canonicalKey (wWhitelist w)),
      vIpStats = map_of (entries anyKey (wIpStats w)),
      vBackend = map_of (entries anyKey (wBackend w)),
      vConfig = map_of (entries anyKey (wConfig w))\<rparr>"

lemma refObjs_contract: "kernel_contract refObjs refView"
  unfolding kernel_contract_def refObjs_def bpfObjects.simps
  by (intro conjI ref_map_contract ref_map_lookup ref_map_prefix_bound) (simp_all add: refView_def)

lemma ref_map_delete_contract:
  "(\<And>w. sel (view w) = map_of (entries K (get w))) \<Longrightarrow>
   delete_contract K (ref_map K cap get put) view sel"
  by (simp add: delete_contract_def ref_map_def Let_def)

lemma refObjs_deletes: "kernel_deletes refObjs refView"
  unfolding kernel_deletes_def refObjs_def bpfObjects.simps
  by (intro conjI ref_map_delete_contract) (simp_all add: refView_def)

definition refOS :: "world goos" where
  "refOS =
     \<lparr>UnixNow = wClock,
      ReadFile = (\<lambda>f w. map_of (wFiles w) f),
      WriteFile = (\<lambda>f c w. (w\<lparr>wFiles := AList.update f c (wFiles w)\<rparr>, True)),
      AppendFile = (\<lambda>f c w. case map_of (wFiles w) f of
         None \<Rightarrow> (w, False)
       | Some old \<Rightarrow> (w\<lparr>wFiles := AList.update f (old @ c) (wFiles w)\<rparr>, True)),
      RunCommand = (\<lambda>c w. w\<lparr>wCommands := wCommands w @ [c]\<rparr>),
      Stat = (\<lambda>f w. map_of (wFiles w) f \<noteq> None),
      NotExist = (\<lambda>f w. map_of (wFiles w) f = None),
      FileSize = (\<lambda>f w. case map_of (wFiles w) f of None \<Rightarrow> 0 | Some c \<Rightarrow> int (length c)),
      MkdirAll = (\<lambda>d w. (w, True)),
      AppendCreateFile = (\<lambda>f c w.
        (w\<lparr>wFiles := AList.update f ((case map_of (wFiles w) f of None \<Rightarrow> [] | Some old \<Rightarrow> old) @ c) (wFiles w)\<rparr>, True)),
      TimeText = (\<lambda>w. ''2023-11-14T22:13:20Z''),
      NowNano = (\<lambda>w. uint (wClock w) * 1000000000),
      InterfaceIPs = (\<lambda>w. Some [''127.0.0.1'', ''10.0.0.1'']),
      Hostname = (\<lambda>w. Some ''shield''),
      RandomBytes = (\<lambda>n w. Some (replicate n 7)),
      MapOrder = (\<lambda>S w. sorted_list_of_fset S)\<rparr>"

lemma refOS_order: "map_order_contract refOS"
  by (simp add: map_order_contract_def refOS_def sorted_list_of_fset.rep_eq)

definition emptyWorld :: world where
  "emptyWorld =
     \<lparr>wBlacklist = [], wWhitelist = [], wIpStats = [], wBackend = [],
      wConfig = [(0, 0), (1, 0), (2, 0), (3, 0)],
      wStats = [], wRing = [], wVip = [], wClock = 1700000000, wFiles = [], wCommands = [], wXdp = [],
      wUser = 0, wGroup = 0, wSecret = []\<rparr>"

end
