(* ===== verification/GoFloat.thy ===== *)
theory GoFloat
  imports Prelude Complex_Main "HOL-Library.Log_Nat"
begin

text \<open>
  Go's \<open>float64\<close> as the control plane computes with it: percentages and ratios of unsigned
  integers.  A finite double is the rational number it denotes, and each operation is the exact
  result rounded to 53 significant bits, ties to even, as IEEE 754 prescribes.  The values that
  occur are 0 or lie between \<open>2 powi -64\<close> and \<open>2 powi 71\<close>, far inside the exponent range of a
  double, so subnormal numbers and infinities are not modelled; every division of the source
  is guarded against a zero divisor.
\<close>

type_synonym float64 = rat

subsection \<open>Rounding\<close>

definition rne :: "rat \<Rightarrow> int" where
  "rne x = (let f = \<lfloor>x\<rfloor>; r = x - of_int f in
     if r < 1 / 2 then f else if r > 1 / 2 then f + 1 else if even f then f else f + 1)"

definition ilog2 :: "rat \<Rightarrow> int" where
  "ilog2 x = (let nd = quotient_of x; k = bitlen (fst nd) - bitlen (snd nd) in
     if 2 powi k \<le> x then k else k - 1)"

definition fl :: "rat \<Rightarrow> float64" where
  "fl x = (if x \<le> 0 then 0
     else let e = ilog2 x - 52 in of_int (rne (x / 2 powi e)) * 2 powi e)"

definition float64_of :: "u64 \<Rightarrow> float64" where
  "float64_of w = fl (of_nat (unat w))"

definition fdiv :: "float64 \<Rightarrow> float64 \<Rightarrow> float64" where
  "fdiv x y = fl (x / y)"

definition fmul :: "float64 \<Rightarrow> float64 \<Rightarrow> float64" where
  "fmul x y = fl (x * y)"

text \<open>\<open>float64(a) / float64(b) * 100.0\<close>\<close>

definition percent_of :: "u64 \<Rightarrow> u64 \<Rightarrow> float64" where
  "percent_of a b = fmul (fdiv (float64_of a) (float64_of b)) 100"

subsection \<open>Rounding is monotone\<close>

lemma rne_of_int [simp]: "rne (of_int i) = i"
  by (simp add: rne_def)

lemma rne_mono:
  assumes "x \<le> y"
  shows "rne x \<le> rne y"
proof (cases "\<lfloor>x\<rfloor> = \<lfloor>y\<rfloor>")
  case True
  with assms show ?thesis by (auto simp: rne_def Let_def)
next
  case False
  with floor_mono[OF assms] have "\<lfloor>x\<rfloor> + 1 \<le> \<lfloor>y\<rfloor>" by simp
  moreover have "rne x \<le> \<lfloor>x\<rfloor> + 1" "\<lfloor>y\<rfloor> \<le> rne y" by (auto simp: rne_def Let_def)
  ultimately show ?thesis by linarith
qed

lemma ilog2_bounds:
  assumes "0 < x"
  shows "2 powi ilog2 x \<le> x" "x < 2 powi (ilog2 x + 1)"
proof -
  obtain n d where nd: "quotient_of x = (n, d)" by (cases "quotient_of x")
  then have x: "x = of_int n / of_int d" and d: "0 < d"
    by (simp_all add: quotient_of_div quotient_of_denom_pos)
  with assms have n: "0 < n" by (simp add: zero_less_divide_iff)
  let ?k = "bitlen n - bitlen d"
  have pw: "2 powi (bitlen m - 1) \<le> (of_int m :: rat) \<and> of_int m < (2 :: rat) powi bitlen m"
    if "0 < m" for m
  proof -
    have b: "2 ^ nat (bitlen m - 1) \<le> m" "m < 2 ^ nat (bitlen m)" "0 < bitlen m"
      using bitlen_bounds[OF that] that by (auto intro: ccontr)
    have "(of_int (2 ^ nat (bitlen m - 1)) :: rat) \<le> of_int m" "(of_int m :: rat) < of_int (2 ^ nat (bitlen m))"
      using b by (simp_all only: of_int_le_iff of_int_less_iff)
    with b(3) show ?thesis by (simp add: power_int_def)
  qed
  have lo: "2 powi (?k - 1) < x"
  proof -
    have "2 powi (?k - 1) * of_int d < 2 powi (?k - 1) * (2 powi bitlen d :: rat)"
      using pw[OF d] by (intro mult_strict_left_mono) auto
    also have "\<dots> = 2 powi (bitlen n - 1)"
      by (simp add: power_int_add[symmetric])
    also have "\<dots> \<le> of_int n" using pw[OF n] by simp
    finally show ?thesis using d by (simp add: x pos_less_divide_eq)
  qed
  have hi: "x < 2 powi (?k + 1)"
  proof -
    have "of_int n < (2 powi bitlen n :: rat)" using pw[OF n] by simp
    also have "\<dots> = 2 powi (?k + 1) * 2 powi (bitlen d - 1)"
      by (simp add: power_int_add[symmetric])
    also have "\<dots> \<le> 2 powi (?k + 1) * of_int d"
      using pw[OF d] by (intro mult_left_mono) auto
    finally show ?thesis using d by (simp add: x pos_divide_less_eq)
  qed
  show "2 powi ilog2 x \<le> x" "x < 2 powi (ilog2 x + 1)"
    using lo hi nd by (auto simp: ilog2_def Let_def)
qed

lemma powi_less_imp: "(2 :: rat) powi a < 2 powi b \<Longrightarrow> a < b"
  by (metis not_less power_int_increasing one_le_numeral)

lemma ilog2_mono: "0 < x \<Longrightarrow> x \<le> y \<Longrightarrow> ilog2 x \<le> ilog2 y"
  using ilog2_bounds[of x] ilog2_bounds[of y] powi_less_imp[of "ilog2 x" "ilog2 y + 1"] by linarith

lemma powi_split: "(2 :: rat) powi e = of_int (2 ^ 52) * 2 powi (e - 52)"
  using power_int_add[of "2 :: rat" 52 "e - 52"] by simp

lemma fl_pos_bounds:
  assumes "0 < x"
  shows "2 powi ilog2 x \<le> fl x" "fl x \<le> 2 powi (ilog2 x + 1)"
proof -
  let ?e = "ilog2 x - 52"
  have p: "(0 :: rat) < 2 powi ?e" by simp
  have "of_int (2 ^ 52) \<le> x / 2 powi ?e"
    using ilog2_bounds(1)[OF assms] p by (simp add: pos_le_divide_eq powi_split[of "ilog2 x"])
  then have lo: "2 ^ 52 \<le> rne (x / 2 powi ?e)"
    using rne_mono rne_of_int by metis
  have "x / 2 powi ?e \<le> of_int (2 ^ 53)"
    using ilog2_bounds(2)[OF assms] p power_int_add[of "2 :: rat" 53 ?e]
    by (simp add: pos_divide_le_eq add.commute)
  then have hi: "rne (x / 2 powi ?e) \<le> 2 ^ 53"
    using rne_mono rne_of_int by metis
  have "(of_int (2 ^ 52) :: rat) \<le> of_int (rne (x / 2 powi ?e))"
    using lo by (simp only: of_int_le_iff)
  with p assms show "2 powi ilog2 x \<le> fl x"
    unfolding powi_split[of "ilog2 x"] by (simp add: fl_def Let_def)
  have "(of_int (rne (x / 2 powi ?e)) :: rat) \<le> of_int (2 ^ 53)"
    using hi by (simp only: of_int_le_iff)
  with p assms show "fl x \<le> 2 powi (ilog2 x + 1)"
    using power_int_add[of "2 :: rat" 53 ?e] by (simp add: fl_def Let_def add.commute)
qed

lemma fl_nonneg: "0 \<le> fl x"
  using fl_pos_bounds(1)[of x] by (cases "0 < x") (auto simp: fl_def intro: order_trans[rotated])

lemma fl_mono:
  assumes "x \<le> y"
  shows "fl x \<le> fl y"
proof (cases "0 < x")
  case True
  then have y: "0 < y" using assms by simp
  show ?thesis
  proof (cases "ilog2 x = ilog2 y")
    case True
    have "x / 2 powi (ilog2 y - 52) \<le> y / 2 powi (ilog2 y - 52)"
      using assms by (intro divide_right_mono) auto
    then have "(of_int (rne (x / 2 powi (ilog2 y - 52))) :: rat) \<le> of_int (rne (y / 2 powi (ilog2 y - 52)))"
      using rne_mono by (simp only: of_int_le_iff)
    with True \<open>0 < x\<close> y show ?thesis by (simp add: fl_def Let_def)
  next
    case False
    with ilog2_mono[OF \<open>0 < x\<close> assms] have "ilog2 x + 1 \<le> ilog2 y" by simp
    then have "(2 :: rat) powi (ilog2 x + 1) \<le> 2 powi ilog2 y" by (intro power_int_increasing) auto
    with fl_pos_bounds(2)[OF \<open>0 < x\<close>] fl_pos_bounds(1)[OF y] show ?thesis by linarith
  qed
next
  case False
  then show ?thesis using fl_nonneg[of y] by (simp add: fl_def)
qed

subsection \<open>Integers of up to 53 bits are exact\<close>

lemma fl_0 [simp]: "fl 0 = 0"
  by (simp add: fl_def)

lemma fl_of_nat:
  assumes "n < 2 ^ 53"
  shows "fl (of_nat n) = of_nat n"
proof (cases "n = 0")
  case False
  let ?x = "of_nat n :: rat"
  have x: "0 < ?x" using False by simp
  have "2 powi ilog2 ?x \<le> ?x" by (rule ilog2_bounds[OF x])
  also have "?x < of_nat (2 ^ 53)" using assms by (simp only: of_nat_less_iff)
  finally have "ilog2 ?x < 53" using powi_less_imp[of "ilog2 ?x" 53] by simp
  then obtain j where j: "ilog2 ?x - 52 = - int j" by (metis add.inverse_inverse
        diff_le_0_iff_le nonneg_int_cases neg_0_le_iff_le zle_add1_eq_le add_One numeral_plus_one
        semiring_norm(2) semiring_norm(5))
  have "?x / 2 powi (- int j) = of_int (int n * 2 ^ j)"
    by (simp add: power_int_minus divide_inverse)
  then have "of_int (rne (?x / 2 powi (- int j))) = (of_nat n :: rat) * 2 ^ j"
    by (simp only: rne_of_int) simp
  with x j show ?thesis by (simp add: fl_def Let_def power_int_minus)
qed simp

lemma fl_1 [simp]: "fl 1 = 1"
  using fl_of_nat[of 1] by simp

lemma fl_100 [simp]: "fl 100 = 100"
  using fl_of_nat[of 100] by simp

lemma float64_of_mono: "a \<le> b \<Longrightarrow> float64_of a \<le> float64_of b"
  unfolding float64_of_def by (intro fl_mono) (simp only: of_nat_le_iff word_le_nat_alt)

lemma float64_of_nonneg: "0 \<le> float64_of a"
  by (simp add: float64_of_def fl_nonneg)

lemma float64_of_pos: "a \<noteq> 0 \<Longrightarrow> 0 < float64_of a"
proof -
  assume "a \<noteq> 0"
  then have "1 \<le> a" by (simp add: word_le_nat_alt unat_gt_0 Suc_le_eq)
  then have "float64_of 1 \<le> float64_of a" by (rule float64_of_mono)
  then show ?thesis by (simp add: float64_of_def)
qed

text \<open>A ratio of a part to a whole is at most 1, a percentage at most 100, rounding included.\<close>

lemma fdiv_le_1: "0 \<le> x \<Longrightarrow> x \<le> y \<Longrightarrow> 0 \<le> fdiv x y \<and> fdiv x y \<le> 1"
  using fl_mono[of "x / y" 1] by (auto simp: fdiv_def fl_nonneg divide_le_eq)

lemma fdiv_mono: "0 \<le> y \<Longrightarrow> x \<le> x' \<Longrightarrow> fdiv x y \<le> fdiv x' y"
  by (auto simp: fdiv_def intro!: fl_mono divide_right_mono)

lemma fmul_mono: "0 \<le> c \<Longrightarrow> x \<le> x' \<Longrightarrow> fmul x c \<le> fmul x' c"
  by (auto simp: fmul_def intro!: fl_mono mult_right_mono)

lemma percent_of_range: "a \<le> b \<Longrightarrow> 0 \<le> percent_of a b \<and> percent_of a b \<le> 100"
  using fmul_mono[of 100 "fdiv (float64_of a) (float64_of b)" 1]
    fdiv_le_1[OF float64_of_nonneg float64_of_mono[of a b]]
  by (auto simp: percent_of_def fmul_def fl_nonneg)

lemma percent_of_mono: "a \<le> a' \<Longrightarrow> percent_of a b \<le> percent_of a' b"
  by (simp add: percent_of_def fmul_mono fdiv_mono float64_of_mono float64_of_nonneg)

end
