(* ===== verification/JsonDecode.thy ===== *)
theory JsonDecode
  imports GoJson GoNet
begin

text \<open>
  The part of \<open>encoding/json\<close> the control plane reads its files with: \<open>json.Unmarshal\<close>, as the lexer,
  the state machine with its stack of open arrays and objects that checks the syntax, and the
  assignment of a checked value to Go variables.
\<close>

subsection \<open>Strings\<close>

definition replacement :: string where
  "replacement = [CHR 0xEF, CHR 0xBF, CHR 0xBD]"

definition encodeRune :: "int \<Rightarrow> string" where
  "encodeRune r =
     (if r < 128 then [char_of r]
      else if r < 2048 then [char_of (192 + r div 64), char_of (128 + r mod 64)]
      else if r < 65536 then
        [char_of (224 + r div 4096), char_of (128 + r div 64 mod 64), char_of (128 + r mod 64)]
      else
        [char_of (240 + r div 262144), char_of (128 + r div 4096 mod 64),
         char_of (128 + r div 64 mod 64), char_of (128 + r mod 64)])"

fun hex4 :: "string \<Rightarrow> (int \<times> string) option" where
  "hex4 (a # b # c # d # rest) =
     (case (hexVal a, hexVal b, hexVal c, hexVal d) of
        (Some x, Some y, Some z, Some v) \<Rightarrow> Some (x * 4096 + y * 256 + z * 16 + v, rest)
      | _ \<Rightarrow> None)"
| "hex4 _ = None"

text \<open>
  What follows \<open>\u\<close>: a code point, a surrogate pair written as two escapes, or half a pair, which
  denotes the replacement character.
\<close>

definition unicodeEscape :: "string \<Rightarrow> (string \<times> string) option" where
  "unicodeEscape s =
     (case hex4 s of
        None \<Rightarrow> None
      | Some (u, rest) \<Rightarrow>
          (if u < 0xD800 \<or> 0xE000 \<le> u then Some (encodeRune u, rest)
           else case (if u < 0xDC00 \<and> take 2 rest = [backslash, CHR ''u''] then hex4 (drop 2 rest) else None) of
             None \<Rightarrow> Some (replacement, rest)
           | Some (u2, rest2) \<Rightarrow>
               (if 0xDC00 \<le> u2 \<and> u2 < 0xE000 then
                  Some (encodeRune (65536 + (u - 0xD800) * 1024 + (u2 - 0xDC00)), rest2)
                else Some (replacement, rest))))"

definition simpleEscape :: "char \<Rightarrow> char option" where
  "simpleEscape e =
     (if e = quote \<or> e = backslash \<or> e = CHR ''/'' then Some e
      else if e = CHR ''b'' then Some (CHR 0x08) else if e = CHR ''f'' then Some (CHR 0x0C)
      else if e = CHR ''n'' then Some (CHR 0x0A) else if e = CHR ''r'' then Some (CHR 0x0D)
      else if e = CHR ''t'' then Some (CHR 0x09) else None)"

text \<open>One character of a literal: its bytes and what follows it.\<close>

definition litChar :: "string \<Rightarrow> (string \<times> string) option" where
  "litChar s =
     (case s of
        [] \<Rightarrow> None
      | c # cs \<Rightarrow>
          (if c = backslash then
             (case cs of
                [] \<Rightarrow> None
              | e # rest \<Rightarrow>
                  if e = CHR ''u'' then unicodeEscape rest
                  else map_option (\<lambda>d. ([d], rest)) (simpleEscape e))
           else if byteVal c < 32 then None
           else if byteVal c < 128 then Some ([c], cs)
           else let k = runeLen (c # cs) in
             if k = 0 then Some (replacement, cs) else Some (take k (c # cs), drop k (c # cs))))"

lemma hex4_length: "hex4 s = Some (u, r) \<Longrightarrow> length r < length s"
  by (induction s rule: hex4.induct) (auto split: option.splits)

lemma unicodeEscape_length: "unicodeEscape s = Some (b, r) \<Longrightarrow> length r < length s"
  by (auto simp: unicodeEscape_def dest!: hex4_length split: option.splits if_splits)

lemma litChar_length: "litChar s = Some (b, r) \<Longrightarrow> length r < length s"
  by (auto simp: litChar_def Let_def dest!: unicodeEscape_length split: list.splits if_splits option.splits)

text \<open>The rest of a literal, after its opening quote.\<close>

function lexString :: "string \<Rightarrow> (string \<times> string) option" where
  "lexString s =
     (case s of
        [] \<Rightarrow> None
      | c # cs \<Rightarrow>
          (if c = quote then Some ([], cs)
           else case litChar s of
             None \<Rightarrow> None
           | Some (b, rest) \<Rightarrow> map_option (\<lambda>(t, r). (b @ t, r)) (lexString rest)))"
  by pat_completeness auto
termination
  by (relation "measure length") (auto dest: litChar_length)

declare lexString.simps [simp del]

lemma lexString_length: "lexString s = Some (t, r) \<Longrightarrow> length r < length s"
proof (induction s arbitrary: t rule: lexString.induct)
  case (1 s)
  note step = 1(2)[unfolded lexString.simps[of s]]
  show ?case
  proof (cases s)
    case (Cons c cs)
    show ?thesis
    proof (cases "c = quote")
      case False
      with step Cons obtain b rest where l: "litChar s = Some (b, rest)"
        by (auto split: option.splits)
      with step Cons False obtain t' where "lexString rest = Some (t', r)" by auto
      with 1(1)[OF Cons False l refl this] litChar_length[OF l] show ?thesis by simp
    qed (use step Cons in auto)
  qed (use step in simp)
qed

subsection \<open>Numbers\<close>

definition isDigit :: "char \<Rightarrow> bool" where
  "isDigit c \<longleftrightarrow> digitVal c \<noteq> None"

definition digitsOf :: "string \<Rightarrow> string" where
  "digitsOf s = takeWhile isDigit s"

text \<open>The parts of a number: each is \<open>None\<close> when it is malformed, else its length.\<close>

definition intPart :: "string \<Rightarrow> nat option" where
  "intPart s =
     (case s of
        [] \<Rightarrow> None
      | c # cs \<Rightarrow> if c = CHR ''0'' then Some 1 else if isDigit c then Some (length (digitsOf s)) else None)"

definition fracPart :: "string \<Rightarrow> nat option" where
  "fracPart s =
     (case s of
        c # cs \<Rightarrow>
          (if c = CHR ''.'' then (if digitsOf cs = [] then None else Some (1 + length (digitsOf cs)))
           else Some 0)
      | [] \<Rightarrow> Some 0)"

definition expPart :: "string \<Rightarrow> nat option" where
  "expPart s =
     (case s of
        c # cs \<Rightarrow>
          (if c = CHR ''e'' \<or> c = CHR ''E'' then
             (let sign = (if cs \<noteq> [] \<and> (hd cs = CHR ''+'' \<or> hd cs = CHR ''-'') then 1 else 0 :: nat);
                  ds = digitsOf (drop sign cs)
              in if ds = [] then None else Some (1 + sign + length ds))
           else Some 0)
      | [] \<Rightarrow> Some 0)"

definition lexNumber :: "string \<Rightarrow> (string \<times> string) option" where
  "lexNumber s =
     (let sign = (if HasPrefix s ''-'' then 1 else 0) in
      case intPart (drop sign s) of
        None \<Rightarrow> None
      | Some i \<Rightarrow>
          (case fracPart (drop (sign + i) s) of
             None \<Rightarrow> None
           | Some f \<Rightarrow>
               (case expPart (drop (sign + i + f) s) of
                  None \<Rightarrow> None
                | Some e \<Rightarrow> let n = sign + i + f + e in Some (take n s, drop n s))))"

lemma intPart_pos: "intPart s = Some n \<Longrightarrow> 0 < n \<and> s \<noteq> []"
  by (auto simp: intPart_def digitsOf_def split: list.splits if_splits)

lemma lexNumber_length: "lexNumber s = Some (t, r) \<Longrightarrow> length r < length s"
  by (auto simp: lexNumber_def Let_def dest!: intPart_pos split: option.splits if_splits)

subsection \<open>Tokens\<close>

datatype token =
    TLBrace | TRBrace | TLBracket | TRBracket | TColon | TComma
  | TNull | TBool bool | TNum string | TStr string

definition isBlank :: "char \<Rightarrow> bool" where
  "isBlank c \<longleftrightarrow> c \<in> {CHR 0x20, CHR 0x09, CHR 0x0A, CHR 0x0D}"

definition punct :: "char \<Rightarrow> token option" where
  "punct c =
     (if c = CHR ''{'' then Some TLBrace else if c = CHR ''}'' then Some TRBrace
      else if c = CHR ''['' then Some TLBracket else if c = CHR '']'' then Some TRBracket
      else if c = CHR '':'' then Some TColon else if c = CHR '','' then Some TComma else None)"

text \<open>The first token of a text that starts with no blank.\<close>

definition lexToken :: "string \<Rightarrow> (token \<times> string) option" where
  "lexToken s =
     (case s of
        [] \<Rightarrow> None
      | c # cs \<Rightarrow>
          (case punct c of
             Some t \<Rightarrow> Some (t, cs)
           | None \<Rightarrow>
               (if c = quote then map_option (\<lambda>(x, r). (TStr x, r)) (lexString cs)
                else if HasPrefix s ''true'' then Some (TBool True, drop 4 s)
                else if HasPrefix s ''false'' then Some (TBool False, drop 5 s)
                else if HasPrefix s ''null'' then Some (TNull, drop 4 s)
                else map_option (\<lambda>(x, r). (TNum x, r)) (lexNumber s))))"

lemma lexToken_length: "lexToken s = Some (t, r) \<Longrightarrow> length r < length s"
  by (auto simp: lexToken_def dest!: lexString_length lexNumber_length
      split: list.splits option.splits if_splits)

function lexTokens :: "string \<Rightarrow> token list option" where
  "lexTokens s =
     (case s of
        [] \<Rightarrow> Some []
      | c # cs \<Rightarrow>
          (if isBlank c then lexTokens cs
           else case lexToken s of
             None \<Rightarrow> None
           | Some (t, rest) \<Rightarrow> map_option (\<lambda>ts. t # ts) (lexTokens rest)))"
  by pat_completeness auto
termination
  by (relation "measure length") (auto dest: lexToken_length)

declare lexTokens.simps [simp del]

subsection \<open>Syntax\<close>

datatype json = JNull | JBool bool | JNum string | JStr string | JArr "json list" | JObj "(string \<times> json) list"

text \<open>An open array, an open object between members, and an open object with the key of a member.\<close>

datatype frame = InArray "json list" | InObject "(string \<times> json) list" | InMember "(string \<times> json) list" string

datatype expect = Value | ValueOrEnd | Key | KeyOrEnd | Colon | After | Finished json

definition maxNestingDepth :: nat where
  "maxNestingDepth = 10000"

fun gotValue :: "json \<Rightarrow> frame list \<Rightarrow> (expect \<times> frame list) option" where
  "gotValue v [] = Some (Finished v, [])"
| "gotValue v (InArray vs # st) = Some (After, InArray (vs @ [v]) # st)"
| "gotValue v (InMember ms k # st) = Some (After, InObject (ms @ [(k, v)]) # st)"
| "gotValue v (InObject ms # st) = None"

definition openFrame :: "expect \<Rightarrow> frame \<Rightarrow> frame list \<Rightarrow> (expect \<times> frame list) option" where
  "openFrame e f st = (if length st < maxNestingDepth then Some (e, f # st) else None)"

definition beginValue :: "token \<Rightarrow> frame list \<Rightarrow> (expect \<times> frame list) option" where
  "beginValue t st =
     (case t of
        TNull \<Rightarrow> gotValue JNull st | TBool b \<Rightarrow> gotValue (JBool b) st | TNum n \<Rightarrow> gotValue (JNum n) st
      | TStr s \<Rightarrow> gotValue (JStr s) st
      | TLBracket \<Rightarrow> openFrame ValueOrEnd (InArray []) st
      | TLBrace \<Rightarrow> openFrame KeyOrEnd (InObject []) st
      | _ \<Rightarrow> None)"

fun closeFrame :: "token \<Rightarrow> frame list \<Rightarrow> (expect \<times> frame list) option" where
  "closeFrame TRBracket (InArray vs # st) = gotValue (JArr vs) st"
| "closeFrame TRBrace (InObject ms # st) = gotValue (JObj ms) st"
| "closeFrame _ _ = None"

fun jsonStep :: "token \<Rightarrow> expect \<times> frame list \<Rightarrow> (expect \<times> frame list) option" where
  "jsonStep t (Value, st) = beginValue t st"
| "jsonStep t (ValueOrEnd, st) = (if t = TRBracket then closeFrame t st else beginValue t st)"
| "jsonStep (TStr k) (Key, InObject ms # st) = Some (Colon, InMember ms k # st)"
| "jsonStep t (KeyOrEnd, InObject ms # st) =
     (case t of
        TStr k \<Rightarrow> Some (Colon, InMember ms k # st)
      | TRBrace \<Rightarrow> closeFrame t (InObject ms # st)
      | _ \<Rightarrow> None)"
| "jsonStep TColon (Colon, st) = Some (Value, st)"
| "jsonStep TComma (After, InArray vs # st) = Some (Value, InArray vs # st)"
| "jsonStep TComma (After, InObject ms # st) = Some (Key, InObject ms # st)"
| "jsonStep t (After, st) = closeFrame t st"
| "jsonStep _ _ = None"

fun jsonRun :: "token list \<Rightarrow> expect \<times> frame list \<Rightarrow> (expect \<times> frame list) option" where
  "jsonRun [] c = Some c"
| "jsonRun (t # ts) c = (case jsonStep t c of None \<Rightarrow> None | Some c' \<Rightarrow> jsonRun ts c')"

definition parseJson :: "string \<Rightarrow> json option" where
  "parseJson text =
     (case lexTokens text of
        None \<Rightarrow> None
      | Some ts \<Rightarrow> (case jsonRun ts (Value, []) of Some (Finished v, []) \<Rightarrow> Some v | _ \<Rightarrow> None))"

subsection \<open>Assigning to Go variables\<close>

text \<open>
  Each function takes the old value and returns the new one and whether there was no type error; a
  type error leaves the variable as it was and decoding goes on.  The name of a member is compared
  under case folding, for which the long s and the Kelvin sign are S and K.
\<close>

fun foldName :: "string \<Rightarrow> string" where
  "foldName [] = []"
| "foldName (c # cs) =
     (if c = CHR 0xC5 \<and> take 1 cs = [CHR 0xBF] then CHR ''S'' # foldName (drop 1 cs)
      else if c = CHR 0xE2 \<and> take 2 cs = [CHR 0x84, CHR 0xAA] then CHR ''K'' # foldName (drop 2 cs)
      else upperChar c # foldName cs)"

definition decodeUint64 :: "json \<Rightarrow> u64 \<Rightarrow> u64 \<times> bool" where
  "decodeUint64 v old =
     (case v of
        JNull \<Rightarrow> (old, True)
      | JNum s \<Rightarrow> (case ParseUint s 64 of None \<Rightarrow> (old, False) | Some n \<Rightarrow> (of_int n, True))
      | _ \<Rightarrow> (old, False))"

definition decodeInt :: "json \<Rightarrow> int \<Rightarrow> int \<times> bool" where
  "decodeInt v old =
     (case v of
        JNull \<Rightarrow> (old, True)
      | JNum s \<Rightarrow>
          (let neg = HasPrefix s ''-'' in
           case ParseUint (if neg then drop 1 s else s) 64 of
             None \<Rightarrow> (old, False)
           | Some n \<Rightarrow> if (if neg then n \<le> 2 ^ 63 else n < 2 ^ 63) then (if neg then - n else n, True) else (old, False))
      | _ \<Rightarrow> (old, False))"

definition decodeString :: "json \<Rightarrow> string \<Rightarrow> string \<times> bool" where
  "decodeString v old =
     (case v of JNull \<Rightarrow> (old, True) | JStr s \<Rightarrow> (s, True) | _ \<Rightarrow> (old, False))"

text \<open>
  A slice, with what its backing array holds behind its end: an element is decoded into the place it
  gets, which keeps an earlier value when the element is \<open>null\<close> or of the wrong type.
\<close>

type_synonym 'a slice = "'a list \<times> 'a list"

fun decodeElems :: "(json \<Rightarrow> 'a \<Rightarrow> 'a \<times> bool) \<Rightarrow> 'a \<Rightarrow> json list \<Rightarrow> 'a list \<Rightarrow> 'a list \<times> bool" where
  "decodeElems dec zero [] back = ([], True)"
| "decodeElems dec zero (v # vs) back =
     (case dec v (if back = [] then zero else hd back) of
        (x, ok) \<Rightarrow> (case decodeElems dec zero vs (drop 1 back) of (xs, oks) \<Rightarrow> (x # xs, ok \<and> oks)))"

definition decodeSlice ::
  "(json \<Rightarrow> 'a \<Rightarrow> 'a \<times> bool) \<Rightarrow> 'a \<Rightarrow> json \<Rightarrow> 'a slice \<Rightarrow> 'a slice \<times> bool" where
  "decodeSlice dec zero v old =
     (case v of
        JNull \<Rightarrow> (([], []), True)
      | JArr vs \<Rightarrow>
          (if vs = [] then (([], []), True)
           else let back = fst old @ snd old in
             case decodeElems dec zero vs back of (xs, ok) \<Rightarrow> ((xs, drop (length vs) back), ok))
      | _ \<Rightarrow> (old, False))"

text \<open>A struct: the members in their order, each given to the field of its name, if there is one.\<close>

fun decodeMembers :: "(string \<Rightarrow> json \<Rightarrow> 's \<Rightarrow> 's \<times> bool) \<Rightarrow> (string \<times> json) list \<Rightarrow> 's \<Rightarrow> 's \<times> bool" where
  "decodeMembers field [] st = (st, True)"
| "decodeMembers field ((k, v) # ms) st =
     (case field (foldName k) v st of
        (st1, ok) \<Rightarrow> (case decodeMembers field ms st1 of (st2, oks) \<Rightarrow> (st2, ok \<and> oks)))"

definition decodeStruct :: "(string \<Rightarrow> json \<Rightarrow> 's \<Rightarrow> 's \<times> bool) \<Rightarrow> json \<Rightarrow> 's \<Rightarrow> 's \<times> bool" where
  "decodeStruct field v st =
     (case v of JNull \<Rightarrow> (st, True) | JObj ms \<Rightarrow> decodeMembers field ms st | _ \<Rightarrow> (st, False))"

text \<open>\<open>json.Unmarshal\<close>: a syntax error changes nothing.\<close>

definition Unmarshal :: "(json \<Rightarrow> 's \<Rightarrow> 's \<times> bool) \<Rightarrow> string \<Rightarrow> 's \<Rightarrow> 's \<times> bool" where
  "Unmarshal dec text old = (case parseJson text of None \<Rightarrow> (old, False) | Some v \<Rightarrow> dec v old)"

lemma parseJson_examples:
  "parseJson ''{} '' = Some (JObj [])" "parseJson ''[1, -2.5e3,null,[true]]''
     = Some (JArr [JNum ''1'', JNum ''-2.5e3'', JNull, JArr [JBool True]])"
  "parseJson ''[1,]'' = None" "parseJson ''01'' = None" "parseJson ''1 2'' = None" "parseJson [] = None"
  "parseJson (''{'' @ quote # ''a'' @ quote # '':'' @ quote # backslash # ''u00e9'' @ backslash # ''ud83d'' @ quote # ''}'')
     = Some (JObj [(''a'', JStr ([CHR 0xC3, CHR 0xA9] @ replacement))])"
  by code_simp+

end
