(* ===== verification/JsonRoundtrip.thy ===== *)
theory JsonRoundtrip
  imports JsonDecode
begin

text \<open>
  Reading what was written: string literals, numbers and arrays of strings, as the control plane
  writes them, are read back.  A text that is not valid UTF-8 is read back with its invalid bytes
  replaced.
\<close>

function utf8Clean :: "string \<Rightarrow> string" where
  "utf8Clean [] = []"
| "utf8Clean (c # cs) =
     (if byteVal c < 128 then c # utf8Clean cs
      else let k = runeLen (c # cs) in
        if k = 0 then replacement @ utf8Clean cs
        else take k (c # cs) @ utf8Clean (drop k (c # cs)))"
  by pat_completeness auto
termination
  by (relation "measure length") (auto simp: Let_def)

lemma utf8Clean_ascii: "\<forall>c \<in> set s. byteVal c < 128 \<Longrightarrow> utf8Clean s = s"
  by (induction s) simp_all

subsection \<open>Characters\<close>

lemma byteVal_mod: "byteVal c mod 256 = byteVal c"
  by (simp add: byteVal_def)

lemma byteVal_bounds: "0 \<le> byteVal c" "byteVal c < 256"
  by (metis byteVal_mod pos_mod_sign zero_less_numeral) (metis byteVal_mod pos_mod_bound zero_less_numeral)

lemma byteVal_inj: "byteVal c = byteVal d \<longleftrightarrow> c = d"
  by (simp add: byteVal_def)

lemma hexVal_hexDigit: "0 \<le> d \<Longrightarrow> d < 16 \<Longrightarrow> hexVal (hexDigit d) = Some d"
proof -
  have "list_all (\<lambda>d. hexVal (hexDigit d) = Some d) [0..15]" by code_simp
  moreover assume "0 \<le> d" "d < 16"
  ultimately show ?thesis by (simp only: list_all_iff set_upto atLeastAtMost_iff) auto
qed

lemma unicodeEscape_byte:
  assumes "byteVal c < 128"
  shows "unicodeEscape (CHR ''0'' # CHR ''0'' # hexDigit (byteVal c div 16) # hexDigit (byteVal c mod 16) # rest)
    = Some ([c], rest)"
proof -
  have "hexVal (hexDigit (byteVal c div 16)) = Some (byteVal c div 16)"
    "hexVal (hexDigit (byteVal c mod 16)) = Some (byteVal c mod 16)" "hexVal (CHR ''0'') = Some 0"
    using assms byteVal_bounds(1)[of c] by (simp_all add: hexVal_hexDigit) code_simp
  moreover have "byteVal c div 16 * 16 + byteVal c mod 16 = byteVal c" by simp
  ultimately show ?thesis
    using assms by (simp add: unicodeEscape_def encodeRune_def char_of_byteVal)
qed

lemma litChar_backslash:
  "litChar (backslash # e # rest) =
     (if e = CHR ''u'' then unicodeEscape rest else map_option (\<lambda>d. ([d], rest)) (simpleEscape e))"
  by (simp add: litChar_def)

definition named :: "(char \<times> char) list" where
  "named =
     [(backslash, backslash), (quote, quote), (CHR 0x08, CHR ''b''), (CHR 0x0C, CHR ''f''),
      (CHR 0x0A, CHR ''n''), (CHR 0x0D, CHR ''r''), (CHR 0x09, CHR ''t'')]"

lemma named_escapes:
  "(c, e) \<in> set named \<Longrightarrow> escapeByte c = [backslash, e] \<and> simpleEscape e = Some c \<and> e \<noteq> CHR ''u''"
proof -
  have "list_all (\<lambda>(c, e). escapeByte c = [backslash, e] \<and> simpleEscape e = Some c \<and> e \<noteq> CHR ''u'') named"
    by code_simp
  then show "(c, e) \<in> set named \<Longrightarrow> ?thesis" unfolding list_all_iff by fast
qed

lemma backslash_not_quote [simp]: "backslash \<noteq> quote"
  by (simp add: backslash_def quote_def)

lemma escapeByte_other:
  assumes "c \<notin> fst ` set named"
  shows "escapeByte c =
    (if byteVal c < 32 \<or> c = CHR ''<'' \<or> c = CHR ''>'' \<or> c = CHR ''&''
     then backslash # CHR ''u'' # CHR ''0'' # CHR ''0'' # [hexDigit (byteVal c div 16), hexDigit (byteVal c mod 16)]
     else [c])"
proof -
  have "byteVal (CHR 0x08) = 8" "byteVal (CHR 0x0C) = 12" "byteVal (CHR 0x0A) = 10"
    "byteVal (CHR 0x0D) = 13" "byteVal (CHR 0x09) = 9" by code_simp+
  with assms have "byteVal c \<noteq> 8" "byteVal c \<noteq> 12" "byteVal c \<noteq> 10" "byteVal c \<noteq> 13" "byteVal c \<noteq> 9"
    by (auto simp: named_def byteVal_inj[symmetric])
  with assms show ?thesis by (simp add: escapeByte_def Let_def named_def)
qed

lemma litChar_escapeByte:
  assumes "byteVal c < 128"
  shows "litChar (escapeByte c @ rest) = Some ([c], rest) \<and> hd (escapeByte c) \<noteq> quote \<and> escapeByte c \<noteq> []"
proof (cases "c \<in> fst ` set named")
  case True
  then obtain e where "(c, e) \<in> set named" by auto
  from named_escapes[OF this] show ?thesis by (simp add: litChar_backslash)
next
  case False
  then have c: "c \<noteq> backslash" "c \<noteq> quote" by (auto simp: named_def)
  show ?thesis
    unfolding escapeByte_other[OF False]
    using c assms unicodeEscape_byte[OF assms] by (simp add: litChar_backslash) (simp add: litChar_def)
qed

lemma runeLen_take:
  assumes "runeLen s = k" "k \<noteq> 0"
  shows "runeLen (take k s @ rest) = k" "k \<le> length s"
  using assms by (cases s rule: runeLen.cases; force simp: Let_def split: if_splits list.splits)+

lemma litChar_take:
  assumes "128 \<le> byteVal c" "runeLen (c # cs) = k" "k \<noteq> 0"
  shows "litChar (take k (c # cs) @ rest) = Some (take k (c # cs), rest)"
proof -
  obtain j where k: "k = Suc j" using assms(3) by (cases k) auto
  have r: "runeLen (c # take j cs @ rest) = Suc j" "Suc j \<le> length (c # cs)"
    using runeLen_take(1)[OF assms(2,3), of rest] runeLen_take(2)[OF assms(2,3)] k by simp_all
  have "c \<noteq> backslash" using assms(1) by (auto simp: backslash_def byteVal_def)
  with assms(1) r k show ?thesis by (simp add: litChar_def Let_def)
qed

lemma lexString_step: "litChar s = Some (b, rest) \<Longrightarrow> s \<noteq> [] \<Longrightarrow> hd s \<noteq> quote \<Longrightarrow>
   lexString s = map_option (\<lambda>(t, r). (b @ t, r)) (lexString rest)"
  by (subst lexString.simps) (cases s; simp)

lemma litChar_escapes:
  "litChar (backslash # ''ufffd'' @ X) = Some (replacement, X)"
  "litChar (backslash # ''u2028'' @ X) = Some ([CHR 0xE2, CHR 0x80, CHR 0xA8], X)"
  "litChar (backslash # ''u2029'' @ X) = Some ([CHR 0xE2, CHR 0x80, CHR 0xA9], X)"
proof -
  have enc: "encodeRune 65533 = replacement" "encodeRune 8232 = [CHR 0xE2, CHR 0x80, CHR 0xA8]"
    "encodeRune 8233 = [CHR 0xE2, CHR 0x80, CHR 0xA9]" by code_simp+
  show "litChar (backslash # ''ufffd'' @ X) = Some (replacement, X)"
    and "litChar (backslash # ''u2028'' @ X) = Some ([CHR 0xE2, CHR 0x80, CHR 0xA8], X)"
    and "litChar (backslash # ''u2029'' @ X) = Some ([CHR 0xE2, CHR 0x80, CHR 0xA9], X)"
    by (simp_all add: litChar_backslash unicodeEscape_def hexVal_def enc Let_def)
qed

lemma runeLen_e2: "take 3 s = [CHR 0xE2, CHR 0x80, d] \<Longrightarrow> runeLen s \<noteq> 0 \<Longrightarrow> runeLen s = 3"
  by (cases s rule: runeLen.cases) (auto simp: Let_def byteVal_def split: if_splits list.splits)

subsection \<open>String literals\<close>

lemma lexString_jsonChars: "lexString (jsonChars s @ quote # rest) = Some (utf8Clean s, rest)"
proof (induction s rule: jsonChars.induct)
  case 1
  then show ?case by (simp add: lexString.simps)
next
  case (2 c cs)
  show ?case
  proof (cases "byteVal c < 128")
    case True
    let ?X = "jsonChars cs @ quote # rest"
    from litChar_escapeByte[OF True, of ?X]
    have "lexString (escapeByte c @ ?X) = map_option (\<lambda>(t, r). ([c] @ t, r)) (lexString ?X)"
      by (intro lexString_step) (auto simp: hd_append)
    with True 2(1) show ?thesis by simp
  next
    case False
    let ?k = "runeLen (c # cs)" and ?X = "\<lambda>u. jsonChars u @ quote # rest"
    have esc: "lexString (backslash # e @ X) = map_option (\<lambda>(t, r). (b @ t, r)) (lexString X)"
      if "litChar (backslash # e @ X) = Some (b, X)" for e b X
      using lexString_step[OF that] by simp
    consider "?k = 0" | "?k \<noteq> 0" "take 3 (c # cs) = [CHR 0xE2, CHR 0x80, CHR 0xA8]"
      | "?k \<noteq> 0" "take 3 (c # cs) = [CHR 0xE2, CHR 0x80, CHR 0xA9]"
      | "?k \<noteq> 0" "take 3 (c # cs) \<noteq> [CHR 0xE2, CHR 0x80, CHR 0xA8]"
        "take 3 (c # cs) \<noteq> [CHR 0xE2, CHR 0x80, CHR 0xA9]" by blast
    then show ?thesis
    proof cases
      case 1
      have ih: "lexString (?X cs) = Some (utf8Clean cs, rest)" by (rule 2(2)[OF False refl 1])
      from esc[OF litChar_escapes(1)] ih show ?thesis using False 1 by (simp add: Let_def)
    next
      case 2
      have ih: "lexString (?X (drop ?k (c # cs))) = Some (utf8Clean (drop ?k (c # cs)), rest)"
        by (rule "2.IH"(3)[OF False refl 2])
      have "?k = 3" using runeLen_e2[of "c # cs"] 2 by auto
      then show ?thesis using False 2 ih esc[OF litChar_escapes(2)] by (simp add: Let_def)
    next
      case 3
      then have n2: "take 3 (c # cs) \<noteq> [CHR 0xE2, CHR 0x80, CHR 0xA8]" by simp
      have ih: "lexString (?X (drop ?k (c # cs))) = Some (utf8Clean (drop ?k (c # cs)), rest)"
        by (rule "2.IH"(4)[OF False refl 3(1) n2 3(2)])
      have "?k = 3" using runeLen_e2[of "c # cs"] 3 by auto
      then show ?thesis using False 3 ih esc[OF litChar_escapes(3)] by (simp add: Let_def)
    next
      case 4
      have ih: "lexString (?X (drop ?k (c # cs))) = Some (utf8Clean (drop ?k (c # cs)), rest)"
        by (rule "2.IH"(5)[OF False refl 4])
      have c: "128 \<le> byteVal c" using False by simp
      have lit: "litChar (take ?k (c # cs) @ ?X (drop ?k (c # cs)))
          = Some (take ?k (c # cs), ?X (drop ?k (c # cs)))"
        by (rule litChar_take[OF c refl 4(1)])
      have "c \<noteq> quote" using False by (auto simp: quote_def byteVal_def)
      with lexString_step[OF lit] ih 4(1)
      have "lexString (take ?k (c # cs) @ ?X (drop ?k (c # cs)))
          = Some (take ?k (c # cs) @ utf8Clean (drop ?k (c # cs)), rest)" by simp
      then show ?thesis using False 4 by (auto simp: Let_def)
    qed
  qed
qed

subsection \<open>Tokens\<close>

definition following :: "token list \<Rightarrow> token list option \<Rightarrow> token list option" where
  "following ts us = map_option (\<lambda>us. ts @ us) us"

abbreviation lexed :: "token list \<Rightarrow> string \<Rightarrow> token list option" where
  "lexed ts rest \<equiv> following ts (lexTokens rest)"

lemma following_simps [simp]:
  "following [] us = us" "following ts (following ts' us) = following (ts @ ts') us"
  "following ts (Some vs) = Some (ts @ vs)" "map_option ((#) t) us = following [t] us"
  by (cases us; simp add: following_def)+

lemma lexTokens_Nil [simp]: "lexTokens [] = Some []"
  by (simp add: lexTokens.simps)

lemma lexTokens_blank: "isBlank c \<Longrightarrow> lexTokens (c # rest) = lexTokens rest"
  by (subst lexTokens.simps) simp

lemma lexTokens_token:
  "lexToken s = Some (t, rest) \<Longrightarrow> s \<noteq> [] \<Longrightarrow> \<not> isBlank (hd s) \<Longrightarrow> lexTokens s = lexed [t] rest"
  by (subst lexTokens.simps) (cases s; simp)

lemma punct_not_blank: "punct c = Some t \<Longrightarrow> \<not> isBlank c"
  by (auto simp: punct_def isBlank_def split: if_splits)

lemma lexTokens_punct: "punct c = Some t \<Longrightarrow> lexTokens (c # rest) = lexed [t] rest"
  using lexTokens_token[of "c # rest" t rest] punct_not_blank by (simp add: lexToken_def)

lemma punct_values:
  "punct (CHR ''{'') = Some TLBrace" "punct (CHR ''}'') = Some TRBrace" "punct (CHR ''['') = Some TLBracket"
  "punct (CHR '']'') = Some TRBracket" "punct (CHR '':'') = Some TColon" "punct (CHR '','') = Some TComma"
  by (simp_all add: punct_def)

lemma lexTokens_blanks:
  "lexTokens (newline # rest) = lexTokens rest" "lexTokens (CHR '' '' # rest) = lexTokens rest"
  by (simp_all add: lexTokens_blank isBlank_def newline_def)

lemma quote_plain: "punct quote = None" "\<not> isBlank quote"
  by (simp_all add: punct_def isBlank_def quote_def)

lemma lexTokens_jsonString: "lexTokens (jsonString s @ rest) = lexed [TStr (utf8Clean s)] rest"
proof -
  have "lexToken (jsonString s @ rest) = Some (TStr (utf8Clean s), rest)"
    by (simp add: jsonString_def lexToken_def quote_plain lexString_jsonChars)
  from lexTokens_token[OF this] show ?thesis by (simp add: jsonString_def quote_plain)
qed

lemma isDigit_itoa: "0 \<le> n \<Longrightarrow> c \<in> set (itoa n) \<Longrightarrow> isDigit c"
proof (induction n rule: itoa.induct)
  case (1 n)
  then show ?case
    by (subst (asm) itoa.simps) (auto simp: isDigit_def split: if_splits)
qed

lemma itoa_leading_zero: "0 \<le> n \<Longrightarrow> hd (itoa n) = CHR ''0'' \<Longrightarrow> itoa n = ''0''"
proof (induction n rule: itoa.induct)
  case (1 n)
  have d: "digitChar d = CHR ''0'' \<Longrightarrow> 0 \<le> d \<Longrightarrow> d < 10 \<Longrightarrow> d = 0" for d
    using digitVal_digitChar[of d] by (simp add: digitVal_def)
  show ?case
  proof (cases "n < 10")
    case True
    with 1 d show ?thesis by (simp add: itoa.simps[of n])
  next
    case False
    with 1 have "itoa (n div 10) = ''0''" by (simp add: itoa.simps[of n])
    then have "parseDigits (itoa (n div 10)) 0 = Some 0" by (simp add: digitVal_def)
    with False 1(2) itoa_parse_Some[of "n div 10"] have "n div 10 = 0" by simp
    with False 1(2) show ?thesis by presburger
  qed
qed

lemma lexNumber_itoa:
  assumes "0 \<le> n" "rest \<noteq> []" "\<not> isDigit (hd rest)" "hd rest \<notin> {CHR ''.'', CHR ''e'', CHR ''E''}"
  shows "lexNumber (itoa n @ rest) = Some (itoa n, rest)"
proof -
  obtain r rs where rest: "rest = r # rs" using assms(2) by (cases rest) auto
  obtain c cs where i: "itoa n = c # cs" by (cases "itoa n") auto
  have c: "isDigit c" using isDigit_itoa[OF assms(1), of c] i by simp
  then have "c \<noteq> CHR ''-''" by (auto simp: isDigit_def digitVal_def)
  then have sign: "\<not> HasPrefix (itoa n @ rest) ''-''" using i by (simp add: HasPrefix_def)
  have "digitsOf (itoa n @ rest) = itoa n"
    using isDigit_itoa[OF assms(1)] assms(3) rest by (simp add: digitsOf_def takeWhile_append)
  then have int: "intPart (itoa n @ rest) = Some (length (itoa n))"
    using c i itoa_leading_zero[OF assms(1)] by (auto simp: intPart_def)
  have "fracPart rest = Some 0" "expPart rest = Some 0"
    using assms(4) rest by (auto simp: fracPart_def expPart_def)
  with sign int show ?thesis by (simp add: lexNumber_def)
qed

lemma lexTokens_itoa:
  assumes "0 \<le> n"
  shows "lexTokens (itoa n @ CHR '','' # rest) = lexed [TNum (itoa n)] (CHR '','' # rest)"
proof -
  obtain c cs where i: "itoa n = c # cs" by (cases "itoa n") auto
  have c: "isDigit c" using isDigit_itoa[OF assms, of c] i by simp
  then have d: "punct c = None" "c \<noteq> quote" "\<not> isBlank c" "c \<noteq> CHR ''t''" "c \<noteq> CHR ''f''" "c \<noteq> CHR ''n''"
    by (auto simp: isDigit_def digitVal_def punct_def quote_def isBlank_def)
  have "lexNumber (itoa n @ CHR '','' # rest) = Some (itoa n, CHR '','' # rest)"
    using assms by (intro lexNumber_itoa) (simp_all add: isDigit_def digitVal_def)
  with d i have "lexToken (itoa n @ CHR '','' # rest) = Some (TNum (itoa n), CHR '','' # rest)"
    by (simp add: lexToken_def HasPrefix_def)
  from lexTokens_token[OF this] d i show ?thesis by simp
qed

text \<open>An array of strings.\<close>

fun arrayTail :: "string list \<Rightarrow> token list" where
  "arrayTail [] = []"
| "arrayTail (x # xs) = TComma # TStr (utf8Clean x) # arrayTail xs"

definition arrayTokens :: "string list \<Rightarrow> token list" where
  "arrayTokens xs =
     (case xs of [] \<Rightarrow> [TLBracket, TRBracket]
      | y # ys \<Rightarrow> TLBracket # TStr (utf8Clean y) # arrayTail ys @ [TRBracket])"

lemmas lex_simps =
  punct_values[THEN lexTokens_punct] lexTokens_blanks lexTokens_jsonString

lemma lexTokens_elements:
  "0 < i \<Longrightarrow> lexTokens (concat (map (\<lambda>(i, x). (if i = 0 then [] else '','')
      @ newline # ''    '' @ jsonString x) (enumerate i xs)) @ rest) = lexed (arrayTail xs) rest"
  by (induction xs arbitrary: i) (simp_all add: lex_simps)

lemma lexTokens_jsonArray: "lexTokens (jsonArray xs @ rest) = lexed (arrayTokens xs) rest"
proof (cases xs)
  case Nil
  then show ?thesis by (simp add: jsonArray_def arrayTokens_def lex_simps)
next
  case (Cons y ys)
  then show ?thesis
    by (simp add: jsonArray_def arrayTokens_def lexTokens_elements[where rest = "newline # ''  ]'' @ rest", simplified] lex_simps)
qed

subsection \<open>Syntax\<close>

lemma jsonRun_append:
  "jsonRun (ts @ us) c = (case jsonRun ts c of None \<Rightarrow> None | Some c' \<Rightarrow> jsonRun us c')"
  by (induction ts arbitrary: c) (simp_all split: option.splits)

lemma jsonRun_arrayTail:
  "jsonRun (arrayTail xs) (After, InArray vs # st) = Some (After, InArray (vs @ map (JStr \<circ> utf8Clean) xs) # st)"
  by (induction xs arbitrary: vs) (simp_all add: beginValue_def)

lemma jsonRun_arrayTokens:
  "length st < maxNestingDepth \<Longrightarrow>
   jsonRun (arrayTokens xs) (Value, st) = gotValue (JArr (map (JStr \<circ> utf8Clean) xs)) st"
  by (cases xs)
     (simp_all add: arrayTokens_def beginValue_def openFrame_def jsonRun_append jsonRun_arrayTail
       split: option.splits)

lemma decodeElems_strings:
  "decodeElems decodeString [] (map (JStr \<circ> f) xs) buf = (map f xs, True)"
  by (induction xs arbitrary: buf) (simp_all add: decodeString_def)

lemma decodeSlice_strings:
  "decodeSlice decodeString [] (JArr (map (JStr \<circ> f) xs)) ([], []) = ((map f xs, []), True)"
  by (simp add: decodeSlice_def decodeElems_strings)

lemma decodeUint64_itoa: "decodeUint64 (JNum (itoa (uint n))) old = (n, True)"
proof -
  have "uint n < 2 ^ 64" using uint_lt2p[of n] by simp
  then have "ParseUint (itoa (uint n)) 64 = Some (uint n)" by (intro ParseUint_itoa) simp_all
  then show ?thesis by (simp add: decodeUint64_def)
qed

end
