(* ===== verification/MapManager.thy ===== *)
theory MapManager
  imports RefKernel
begin

text \<open>
  The map manager (\<open>map_manager.go\<close>): its record, the policy and the whitelist counter in
  \<open>config_map\<close>, the sets of configured targets, and the writes to the two CIDR tries.  A mutex
  guards each operation on the sets, so an operation is one atomic step; the state is threaded
  explicitly, as the manager record and the world of the kernel maps.
\<close>

record 'w MapManager =
  objs :: "'w bpfObjects"
  activeCountries :: "string fset"
  activeASNs :: "string fset"
  WhitelistTargets :: "string fset"
  BlacklistTargets :: "string fset"

definition NewMapManager :: "'w bpfObjects \<Rightarrow> 'w MapManager" where
  "NewMapManager prog =
     \<lparr>objs = prog, activeCountries = {||}, activeASNs = {||},
      WhitelistTargets = {||}, BlacklistTargets = {||}\<rparr>"

subsection \<open>GeoIP policy and whitelist counter\<close>

definition SetGeoIPPolicy :: "'w MapManager \<Rightarrow> u64 \<Rightarrow> 'w \<Rightarrow> 'w \<times> go_error option" where
  "SetGeoIPPolicy m policy w =
     (if is_nil (ConfigMap (objs m)) then (w, Some ErrConfigMapNil)
      else case Put (ConfigMap (objs m)) 2 policy w of
             (w', ok) \<Rightarrow> (w', if ok then None else Some ErrMapPut))"

definition GetGeoIPPolicy :: "'w MapManager \<Rightarrow> 'w \<Rightarrow> u64 \<times> go_error option" where
  "GetGeoIPPolicy m w =
     (if is_nil (ConfigMap (objs m)) then (0, Some ErrConfigMapNil)
      else case Lookup (ConfigMap (objs m)) 2 w of
             None \<Rightarrow> (0, None)
           | Some val \<Rightarrow> (val, None))"

definition updateWhitelistCount :: "'w MapManager \<Rightarrow> 'w \<Rightarrow> 'w" where
  "updateWhitelistCount m w =
     (let count = fcard (activeCountries m) + fcard (activeASNs m) in
      if \<not> is_nil (ConfigMap (objs m)) then fst (Put (ConfigMap (objs m)) 3 (of_nat count) w)
      else w)"

definition AddActiveCountry :: "string \<Rightarrow> 'w MapManager \<times> 'w \<Rightarrow> 'w MapManager \<times> 'w" where
  "AddActiveCountry countryCode = (\<lambda>(m, w).
     let m' = m\<lparr>activeCountries := finsert countryCode (activeCountries m)\<rparr>
     in (m', updateWhitelistCount m' w))"

definition RemoveActiveCountry :: "string \<Rightarrow> 'w MapManager \<times> 'w \<Rightarrow> 'w MapManager \<times> 'w" where
  "RemoveActiveCountry countryCode = (\<lambda>(m, w).
     let m' = m\<lparr>activeCountries := activeCountries m |-| {|countryCode|}\<rparr>
     in (m', updateWhitelistCount m' w))"

definition GetActiveCountries :: "'w goos \<Rightarrow> 'w MapManager \<times> 'w \<Rightarrow> string list" where
  "GetActiveCountries os = (\<lambda>(m, w). MapOrder os (activeCountries m) w)"

definition AddActiveASN :: "string \<Rightarrow> 'w MapManager \<times> 'w \<Rightarrow> 'w MapManager \<times> 'w" where
  "AddActiveASN asn = (\<lambda>(m, w).
     let m' = m\<lparr>activeASNs := finsert asn (activeASNs m)\<rparr>
     in (m', updateWhitelistCount m' w))"

definition RemoveActiveASN :: "string \<Rightarrow> 'w MapManager \<times> 'w \<Rightarrow> 'w MapManager \<times> 'w" where
  "RemoveActiveASN asn = (\<lambda>(m, w).
     let m' = m\<lparr>activeASNs := activeASNs m |-| {|asn|}\<rparr>
     in (m', updateWhitelistCount m' w))"

definition GetActiveASNs :: "'w goos \<Rightarrow> 'w MapManager \<times> 'w \<Rightarrow> string list" where
  "GetActiveASNs os = (\<lambda>(m, w). MapOrder os (activeASNs m) w)"

subsection \<open>Configured targets\<close>

definition AddWhitelistTarget :: "string \<Rightarrow> 'w MapManager \<times> 'w \<Rightarrow> 'w MapManager \<times> 'w" where
  "AddWhitelistTarget target = (\<lambda>(m, w).
     (m\<lparr>WhitelistTargets := finsert target (WhitelistTargets m)\<rparr>, w))"

definition RemoveWhitelistTarget :: "string \<Rightarrow> 'w MapManager \<times> 'w \<Rightarrow> 'w MapManager \<times> 'w" where
  "RemoveWhitelistTarget target = (\<lambda>(m, w).
     (m\<lparr>WhitelistTargets := WhitelistTargets m |-| {|target|}\<rparr>, w))"

definition GetWhitelistTargets :: "'w goos \<Rightarrow> 'w MapManager \<times> 'w \<Rightarrow> string list" where
  "GetWhitelistTargets os = (\<lambda>(m, w). MapOrder os (WhitelistTargets m) w)"

definition AddBlacklistTarget :: "string \<Rightarrow> 'w MapManager \<times> 'w \<Rightarrow> 'w MapManager \<times> 'w" where
  "AddBlacklistTarget target = (\<lambda>(m, w).
     (m\<lparr>BlacklistTargets := finsert target (BlacklistTargets m)\<rparr>, w))"

definition RemoveBlacklistTarget :: "string \<Rightarrow> 'w MapManager \<times> 'w \<Rightarrow> 'w MapManager \<times> 'w" where
  "RemoveBlacklistTarget target = (\<lambda>(m, w).
     (m\<lparr>BlacklistTargets := BlacklistTargets m |-| {|target|}\<rparr>, w))"

definition GetBlacklistTargets :: "'w goos \<Rightarrow> 'w MapManager \<times> 'w \<Rightarrow> string list" where
  "GetBlacklistTargets os = (\<lambda>(m, w). MapOrder os (BlacklistTargets m) w)"

subsection \<open>Blocking and allowing CIDR blocks\<close>

text \<open>The block time is the Unix clock, the whitelist value the constant 1.\<close>

definition BlockCIDR ::
  "'w goos \<Rightarrow> 'w MapManager \<Rightarrow> string \<Rightarrow> 'w \<Rightarrow> 'w \<times> go_error option" where
  "BlockCIDR os m cidrStr w =
     (case parseCIDR cidrStr of
        Inl err \<Rightarrow> (w, Some err)
      | Inr (ipVal, prefixLen) \<Rightarrow>
          let key = \<lparr>PrefixLen = prefixLen, Data = ipVal\<rparr>; val = UnixNow os w in
          (case Put (CidrBlacklist (objs m)) key val w of
             (w', ok) \<Rightarrow> (w', if ok then None else Some ErrBlacklistPut)))"

definition AllowCIDR :: "'w MapManager \<Rightarrow> string \<Rightarrow> 'w \<Rightarrow> 'w \<times> go_error option" where
  "AllowCIDR m cidrStr w =
     (case parseCIDR cidrStr of
        Inl err \<Rightarrow> (w, Some err)
      | Inr (ipVal, prefixLen) \<Rightarrow>
          let key = \<lparr>PrefixLen = prefixLen, Data = ipVal\<rparr> in
          (case Delete (CidrBlacklist (objs m)) key w of
             (w', ok) \<Rightarrow> (w', if ok then None else Some ErrBlacklistDelete)))"

definition AddWhitelistCIDR :: "'w MapManager \<Rightarrow> string \<Rightarrow> 'w \<Rightarrow> 'w \<times> go_error option" where
  "AddWhitelistCIDR m cidrStr w =
     (case parseCIDR cidrStr of
        Inl err \<Rightarrow> (w, Some err)
      | Inr (ipVal, prefixLen) \<Rightarrow>
          let key = \<lparr>PrefixLen = prefixLen, Data = ipVal\<rparr>; val = 1 in
          (case Put (CidrWhitelist (objs m)) key val w of
             (w', ok) \<Rightarrow> (w', if ok then None else Some ErrWhitelistPut)))"

definition RemoveWhitelistCIDR :: "'w MapManager \<Rightarrow> string \<Rightarrow> 'w \<Rightarrow> 'w \<times> go_error option" where
  "RemoveWhitelistCIDR m cidrStr w =
     (case parseCIDR cidrStr of
        Inl err \<Rightarrow> (w, Some err)
      | Inr (ipVal, prefixLen) \<Rightarrow>
          let key = \<lparr>PrefixLen = prefixLen, Data = ipVal\<rparr> in
          (case Delete (CidrWhitelist (objs m)) key w of
             (w', ok) \<Rightarrow> (w', if ok then None else Some ErrWhitelistDelete)))"

definition GetWhitelistCIDRs :: "'w MapManager \<Rightarrow> 'w \<Rightarrow> string list \<times> go_error option" where
  "GetWhitelistCIDRs m w =
     (case Iterate (CidrWhitelist (objs m)) w of
        (kvs, ok) \<Rightarrow> (map (formatLpmKey \<circ> fst) kvs, if ok then None else Some ErrMapIterate))"

definition GetBlacklistCIDRs :: "'w MapManager \<Rightarrow> 'w \<Rightarrow> string list \<times> go_error option" where
  "GetBlacklistCIDRs m w =
     (case Iterate (CidrBlacklist (objs m)) w of
        (kvs, ok) \<Rightarrow> (map (formatLpmKey \<circ> fst) kvs, if ok then None else Some ErrMapIterate))"

definition GetBlacklistCount :: "'w MapManager \<Rightarrow> 'w \<Rightarrow> nat" where
  "GetBlacklistCount m w = length (fst (Iterate (CidrBlacklist (objs m)) w))"

subsection \<open>Rate limits and counters\<close>

definition UpdateRateLimits :: "'w MapManager \<Rightarrow> u64 \<Rightarrow> u64 \<Rightarrow> 'w \<Rightarrow> 'w \<times> go_error option" where
  "UpdateRateLimits m pps bps w =
     (if is_nil (ConfigMap (objs m)) then (w, Some ErrConfigMapNil)
      else case Put (ConfigMap (objs m)) 0 pps w of
        (w1, ok1) \<Rightarrow>
          (if \<not> ok1 then (w1, Some ErrMapPut)
           else case Put (ConfigMap (objs m)) 1 bps w1 of
             (w2, ok2) \<Rightarrow> (w2, if ok2 then None else Some ErrMapPut)))"

definition GetStats :: "'w MapManager \<Rightarrow> 'w \<Rightarrow> go_error + u64 \<times> u64" where
  "GetStats m w =
     (case Lookup (StatsMap (objs m)) 0 w of
        None \<Rightarrow> Inl ErrMapLookup
      | Some passValues \<Rightarrow>
          (case Lookup (StatsMap (objs m)) 1 w of
             None \<Rightarrow> Inl ErrMapLookup
           | Some dropValues \<Rightarrow>
               Inr (foldl (\<lambda>total v. total + v) 0 passValues,
                    foldl (\<lambda>total v. total + v) 0 dropValues)))"

definition GetRingStats :: "'w MapManager \<Rightarrow> 'w \<Rightarrow> go_error + RingStatsVal" where
  "GetRingStats m w =
     (if is_nil (RingStatsMap (objs m)) then Inl ErrRingStatsMapNil
      else case Lookup (RingStatsMap (objs m)) 0 w of
             None \<Rightarrow> Inl ErrMapLookup
           | Some val \<Rightarrow> Inr val)"

definition GetVipStats ::
  "'w MapManager \<Rightarrow> 'w \<Rightarrow> (string \<Rightarrow> VipStatsVal option) \<times> go_error option" where
  "GetVipStats m w =
     (if is_nil (VipStats (objs m)) then (Map.empty, None)
      else case Iterate (VipStats (objs m)) w of
        (kvs, ok) \<Rightarrow>
          (foldl (\<lambda>res (key, val). res(IPv4String (PutUint32 key) \<mapsto> val)) Map.empty kvs,
           if ok then None else Some ErrMapIterate))"

subsection \<open>The four writes to the tries\<close>

text \<open>
  Blocking, allowing and the two whitelist operations share one shape: parse the text, then write or
  delete the key it denotes.  What follows from the shape is proved once.
\<close>

locale cidr_op =
  fixes op :: "'w MapManager \<Rightarrow> string \<Rightarrow> 'w \<Rightarrow> 'w \<times> go_error option"
    and raw :: "'w MapManager \<Rightarrow> LpmTrieKey \<Rightarrow> 'w \<Rightarrow> 'w \<times> bool"
    and err :: go_error
  assumes op_reject: "parseCIDR c = Inl e \<Longrightarrow> op m c w = (w, Some e)"
    and op_write: "parseCIDR c = Inr (d, p) \<Longrightarrow>
      op m c w = (case raw m \<lparr>PrefixLen = p, Data = d\<rparr> w of (w', ok) \<Rightarrow> (w', if ok then None else Some err))"
begin

text \<open>
  If the map writes only canonical keys, with the effect \<open>eff\<close>, then the operation either fails and
  changes nothing or applies \<open>eff\<close> to the canonical key its text denotes.
\<close>

lemma op_effect:
  assumes ok: "\<And>k w w'. canonicalKey k \<Longrightarrow> raw m k w = (w', True) \<Longrightarrow> eff k w w'"
    and fail: "\<And>k w w'. canonicalKey k \<or> PrefixLen k > 32 \<Longrightarrow> raw m k w = (w', False) \<Longrightarrow> view w' = view w"
    and bound: "\<And>k w. PrefixLen k > 32 \<Longrightarrow> \<not> snd (raw m k w)"
    and run: "op m c w = (w', e)"
  shows "(case e of
      None \<Rightarrow> (\<exists>k. parseCIDR c = Inr (Data k, PrefixLen k) \<and> canonicalKey k \<and> eff k w w')
    | Some _ \<Rightarrow> view w' = view w)"
proof (cases "parseCIDR c")
  case (Inl a)
  with run op_reject show ?thesis by auto
next
  case (Inr b)
  then obtain d p where c: "parseCIDR c = Inr (d, p)" by (cases b) auto
  let ?k = "\<lparr>PrefixLen = p, Data = d\<rparr>"
  obtain w1 b where r: "raw m ?k w = (w1, b)" by (cases "raw m ?k w")
  from c have key: "canonicalKey ?k \<or> PrefixLen ?k > 32" using parseCIDR_canonical by simp
  show ?thesis
  proof (cases b)
    case True
    with r bound[of ?k w] key have can: "canonicalKey ?k" by auto
    have "eff ?k w w1" using can r True by (intro ok) simp_all
    with can c run r True op_write[OF c] show ?thesis by (auto intro!: exI[of _ ?k])
  next
    case False
    have "view w1 = view w" using key r False by (intro fail[of ?k w w1]) simp_all
    with False r run op_write[OF c] show ?thesis by auto
  qed
qed

end

interpretation blk: cidr_op "BlockCIDR os" "\<lambda>m k w. Put (CidrBlacklist (objs m)) k (UnixNow os w) w"
    ErrBlacklistPut for os
  by unfold_locales (simp_all add: BlockCIDR_def Let_def)

interpretation alw: cidr_op AllowCIDR "\<lambda>m k w. Delete (CidrBlacklist (objs m)) k w" ErrBlacklistDelete
  by unfold_locales (simp_all add: AllowCIDR_def Let_def)

interpretation wla: cidr_op AddWhitelistCIDR "\<lambda>m k w. Put (CidrWhitelist (objs m)) k 1 w" ErrWhitelistPut
  by unfold_locales (simp_all add: AddWhitelistCIDR_def Let_def)

interpretation wlr: cidr_op RemoveWhitelistCIDR "\<lambda>m k w. Delete (CidrWhitelist (objs m)) k w"
    ErrWhitelistDelete
  by unfold_locales (simp_all add: RemoveWhitelistCIDR_def Let_def)

text \<open>The effect of each of the four on the kernel.\<close>

lemma block_run:
  assumes kc: "kernel_contract (objs m) view" and run: "BlockCIDR os m c w = (w', e)"
  shows "(case e of
      None \<Rightarrow> (\<exists>k. parseCIDR c = Inr (Data k, PrefixLen k) \<and> canonicalKey k \<and>
        view w' = vBlacklist_update (\<lambda>_. (vBlacklist (view w))(k \<mapsto> UnixNow os w)) (view w))
    | Some _ \<Rightarrow> view w' = view w)"
proof (rule blk.op_effect[OF _ _ _ run])
  fix k :: LpmTrieKey and w w'
  assume "canonicalKey k" "Put (CidrBlacklist (objs m)) k (UnixNow os w) w = (w', True)"
  then show "view w' = vBlacklist_update (\<lambda>_. (vBlacklist (view w))(k \<mapsto> UnixNow os w)) (view w)"
    by (rule Put_ok[OF blacklist_contract[OF kc]])
next
  fix k :: LpmTrieKey and w w'
  assume "Put (CidrBlacklist (objs m)) k (UnixNow os w) w = (w', False)"
  then show "view w' = view w" by (rule Put_err[OF blacklist_contract[OF kc]])
next
  fix k :: LpmTrieKey and w
  assume "32 < PrefixLen k"
  then show "\<not> snd (Put (CidrBlacklist (objs m)) k (UnixNow os w) w)"
    using blacklist_bound[OF kc] by (simp add: lpm_prefix_bound_def)
qed

lemma allow_run:
  assumes kc: "kernel_contract (objs m) view" and run: "AllowCIDR m c w = (w', e)"
  shows "(case e of
      None \<Rightarrow> (\<exists>k. parseCIDR c = Inr (Data k, PrefixLen k) \<and> canonicalKey k \<and>
        vBlacklist (view w) k \<noteq> None \<and>
        view w' = vBlacklist_update (\<lambda>_. (vBlacklist (view w))(k := None)) (view w))
    | Some _ \<Rightarrow> view w' = view w)"
proof (rule alw.op_effect[OF _ _ _ run])
  fix k :: LpmTrieKey and w w'
  assume "canonicalKey k" "Delete (CidrBlacklist (objs m)) k w = (w', True)"
  then show "vBlacklist (view w) k \<noteq> None \<and>
      view w' = vBlacklist_update (\<lambda>_. (vBlacklist (view w))(k := None)) (view w)"
    using Delete_ok[OF blacklist_contract[OF kc]] Delete_ok_dom[OF blacklist_contract[OF kc]] by (intro conjI)
next
  fix k :: LpmTrieKey and w w'
  assume "canonicalKey k \<or> 32 < PrefixLen k" "Delete (CidrBlacklist (objs m)) k w = (w', False)"
  then show "view w' = view w"
    using blacklist_bound[OF kc] Delete_err[OF blacklist_contract[OF kc]] unfolding lpm_prefix_bound_def
    by (metis fst_conv)
next
  fix k :: LpmTrieKey and w
  assume "32 < PrefixLen k"
  then show "\<not> snd (Delete (CidrBlacklist (objs m)) k w)"
    using blacklist_bound[OF kc] by (simp add: lpm_prefix_bound_def)
qed

lemma whitelist_add_run:
  assumes kc: "kernel_contract (objs m) view" and run: "AddWhitelistCIDR m c w = (w', e)"
  shows "(case e of
      None \<Rightarrow> (\<exists>k. parseCIDR c = Inr (Data k, PrefixLen k) \<and> canonicalKey k \<and>
        view w' = vWhitelist_update (\<lambda>_. (vWhitelist (view w))(k \<mapsto> 1)) (view w))
    | Some _ \<Rightarrow> view w' = view w)"
proof (rule wla.op_effect[OF _ _ _ run])
  fix k :: LpmTrieKey and w w'
  assume "canonicalKey k" "Put (CidrWhitelist (objs m)) k (1) w = (w', True)"
  then show "view w' = vWhitelist_update (\<lambda>_. (vWhitelist (view w))(k \<mapsto> 1)) (view w)"
    by (rule Put_ok[OF whitelist_contract[OF kc]])
next
  fix k :: LpmTrieKey and w w'
  assume "Put (CidrWhitelist (objs m)) k (1) w = (w', False)"
  then show "view w' = view w" by (rule Put_err[OF whitelist_contract[OF kc]])
next
  fix k :: LpmTrieKey and w
  assume "32 < PrefixLen k"
  then show "\<not> snd (Put (CidrWhitelist (objs m)) k (1) w)"
    using whitelist_bound[OF kc] by (simp add: lpm_prefix_bound_def)
qed

lemma whitelist_remove_run:
  assumes kc: "kernel_contract (objs m) view" and run: "RemoveWhitelistCIDR m c w = (w', e)"
  shows "(case e of
      None \<Rightarrow> (\<exists>k. parseCIDR c = Inr (Data k, PrefixLen k) \<and> canonicalKey k \<and>
        vWhitelist (view w) k \<noteq> None \<and>
        view w' = vWhitelist_update (\<lambda>_. (vWhitelist (view w))(k := None)) (view w))
    | Some _ \<Rightarrow> view w' = view w)"
proof (rule wlr.op_effect[OF _ _ _ run])
  fix k :: LpmTrieKey and w w'
  assume "canonicalKey k" "Delete (CidrWhitelist (objs m)) k w = (w', True)"
  then show "vWhitelist (view w) k \<noteq> None \<and>
      view w' = vWhitelist_update (\<lambda>_. (vWhitelist (view w))(k := None)) (view w)"
    using Delete_ok[OF whitelist_contract[OF kc]] Delete_ok_dom[OF whitelist_contract[OF kc]] by (intro conjI)
next
  fix k :: LpmTrieKey and w w'
  assume "canonicalKey k \<or> 32 < PrefixLen k" "Delete (CidrWhitelist (objs m)) k w = (w', False)"
  then show "view w' = view w"
    using whitelist_bound[OF kc] Delete_err[OF whitelist_contract[OF kc]] unfolding lpm_prefix_bound_def
    by (metis fst_conv)
next
  fix k :: LpmTrieKey and w
  assume "32 < PrefixLen k"
  then show "\<not> snd (Delete (CidrWhitelist (objs m)) k w)"
    using whitelist_bound[OF kc] by (simp add: lpm_prefix_bound_def)
qed

subsection \<open>Listing the tries\<close>

lemma iterate_keys:
  assumes "map_contract K M view sel upd" "Iterate M w = (kvs, True)"
  shows "fst ` set kvs = {k. sel (view w) k \<noteq> None}"
  using Iterate_sound[OF assms(1,2)] Iterate_complete[OF assms] by fastforce

lemma parse_formatted:
  assumes "map_contract canonicalKey M view sel upd" "Iterate M w = (kvs, ok)" "k \<in> fst ` set kvs"
  shows "canonicalKey k"
  using assms Iterate_sound[OF assms(1,2)] stored_key[OF assms(1)] by fastforce

subsection \<open>The sets of targets\<close>

text \<open>What the API relies on of a set of targets it adds to, removes from and lists.\<close>

locale target_set =
  fixes sel :: "'w MapManager \<Rightarrow> string fset"
    and add rem :: "string \<Rightarrow> 'w MapManager \<times> 'w \<Rightarrow> 'w MapManager \<times> 'w"
    and list :: "'w goos \<Rightarrow> 'w MapManager \<times> 'w \<Rightarrow> string list"
  assumes sel_add: "sel (fst (add t s)) = finsert t (sel (fst s))"
    and sel_rem: "sel (fst (rem t s)) = sel (fst s) |-| {|t|}"
    and objs_add: "objs (fst (add t s)) = objs (fst s)"
    and objs_rem: "objs (fst (rem t s)) = objs (fst s)"
    and list_order: "list os s = MapOrder os (sel (fst s)) (snd s)"
begin

lemma set_list: "map_order_contract os \<Longrightarrow> set (list os s) = fset (sel (fst s))"
  by (simp add: list_order map_order_contract_def)

lemma distinct_list: "map_order_contract os \<Longrightarrow> distinct (list os s)"
  by (simp add: list_order map_order_contract_def)

lemma set_list_add: "map_order_contract os \<Longrightarrow> set (list os (add t s)) = insert t (set (list os s))"
  by (simp add: set_list sel_add)

lemma set_list_rem: "map_order_contract os \<Longrightarrow> set (list os (rem t s)) = set (list os s) - {t}"
  by (simp add: set_list sel_rem)

lemma empty_list: "map_order_contract os \<Longrightarrow> length (list os s) = 0 \<longleftrightarrow> sel (fst s) = {||}"
  using set_list[of os s] by (auto simp: fset_eq_iff)

end

interpretation bt: target_set BlacklistTargets AddBlacklistTarget RemoveBlacklistTarget GetBlacklistTargets
  by unfold_locales (auto simp: AddBlacklistTarget_def RemoveBlacklistTarget_def
      GetBlacklistTargets_def split: prod.splits)

interpretation wt: target_set WhitelistTargets AddWhitelistTarget RemoveWhitelistTarget GetWhitelistTargets
  by unfold_locales (auto simp: AddWhitelistTarget_def RemoveWhitelistTarget_def
      GetWhitelistTargets_def split: prod.splits)

interpretation ac: target_set activeCountries AddActiveCountry RemoveActiveCountry GetActiveCountries
  by unfold_locales (auto simp: AddActiveCountry_def RemoveActiveCountry_def
      GetActiveCountries_def Let_def split: prod.splits)

interpretation aa: target_set activeASNs AddActiveASN RemoveActiveASN GetActiveASNs
  by unfold_locales (auto simp: AddActiveASN_def RemoveActiveASN_def
      GetActiveASNs_def Let_def split: prod.splits)

subsection \<open>The configuration map\<close>

lemma config_put:
  assumes kc: "kernel_contract (objs m) view" and put: "Put (ConfigMap (objs m)) k v w = (w', ok)"
  shows "view w' = (if ok then vConfig_update (\<lambda>_. (vConfig (view w))(k \<mapsto> v)) (view w) else view w)"
proof (cases ok)
  case True
  with put have "view w' = vConfig_update (\<lambda>_. (vConfig (view w))(k \<mapsto> v)) (view w)"
    by (intro Put_ok[OF config_contract[OF kc]]) simp_all
  with True show ?thesis by simp
next
  case False
  with put have "view w' = view w" by (intro Put_err[OF config_contract[OF kc]]) simp_all
  with False show ?thesis by simp
qed

lemma config_read:
  "kernel_contract (objs m) view \<Longrightarrow> Lookup (ConfigMap (objs m)) k w = vConfig (view w) k"
  using config_lookup[of "objs m" view] by (simp add: lookup_contract_def)

subsection \<open>Active countries and networks\<close>

datatype active_op = AddCountry string | RemoveCountry string | AddASN string | RemoveASN string

fun activeStep :: "active_op \<Rightarrow> 'w MapManager \<times> 'w \<Rightarrow> 'w MapManager \<times> 'w" where
  "activeStep (AddCountry c) = AddActiveCountry c"
| "activeStep (RemoveCountry c) = RemoveActiveCountry c"
| "activeStep (AddASN a) = AddActiveASN a"
| "activeStep (RemoveASN a) = RemoveActiveASN a"

definition count_stored :: "('w \<Rightarrow> kernel_view) \<Rightarrow> 'w MapManager \<times> 'w \<Rightarrow> bool" where
  "count_stored view s \<longleftrightarrow>
     vConfig (view (snd s)) 3 = Some (of_nat (fcard (activeCountries (fst s)) + fcard (activeASNs (fst s))))"

text \<open>Slots of an array map exist from the start and can always be written.\<close>

definition slot_writable :: "(u32, u64, 'w) ebpf_map \<Rightarrow> ('w \<Rightarrow> kernel_view) \<Rightarrow> u32 \<Rightarrow> bool" where
  "slot_writable M view k \<longleftrightarrow> (\<forall>v w. vConfig (view w) k \<noteq> None \<longrightarrow> snd (Put M k v w))"

lemma updateWhitelistCount_stored:
  assumes kc: "kernel_contract (objs m) view" and "\<not> is_nil (ConfigMap (objs m))"
    and "slot_writable (ConfigMap (objs m)) view 3" "vConfig (view w) 3 \<noteq> None"
  shows "count_stored view (m, updateWhitelistCount m w)"
proof -
  let ?n = "of_nat (fcard (activeCountries m) + fcard (activeASNs m)) :: u64"
  obtain w' where put: "Put (ConfigMap (objs m)) 3 ?n w = (w', True)"
    using assms(3,4) unfolding slot_writable_def by (metis prod.collapse)
  with config_put[OF kc put] assms(2) show ?thesis
    by (simp add: count_stored_def updateWhitelistCount_def)
qed

lemma activeStep_objs: "objs (fst (activeStep x s)) = objs (fst s)"
  by (cases x) (simp_all add: ac.objs_add ac.objs_rem aa.objs_add aa.objs_rem)

lemma activeStep_count:
  assumes "kernel_contract (objs (fst s)) view" "\<not> is_nil (ConfigMap (objs (fst s)))"
    "slot_writable (ConfigMap (objs (fst s))) view 3" "vConfig (view (snd s)) 3 \<noteq> None"
  shows "count_stored view (activeStep x s)"
  using assms
  by (cases s; cases x)
     (auto simp: AddActiveCountry_def RemoveActiveCountry_def AddActiveASN_def RemoveActiveASN_def Let_def
       intro!: updateWhitelistCount_stored)

lemma activeRun_count:
  assumes "kernel_contract (objs (fst s)) view" "\<not> is_nil (ConfigMap (objs (fst s)))"
    "slot_writable (ConfigMap (objs (fst s))) view 3" "vConfig (view (snd s)) 3 \<noteq> None" "ops \<noteq> []"
  shows "count_stored view (fold activeStep ops s)"
  using assms
proof (induction ops arbitrary: s)
  case (Cons x ops)
  have stored: "count_stored view (activeStep x s)" using Cons.prems by (intro activeStep_count)
  then show ?case
    using Cons.prems Cons.IH[of "activeStep x s"]
    by (cases "ops = []") (simp_all add: activeStep_objs count_stored_def)
qed simp

lemma rate_limits_run:
  assumes kc: "kernel_contract (objs m) view"
  shows "case UpdateRateLimits m pps bps w of
      (w', None) \<Rightarrow> view w' = vConfig_update (\<lambda>_. (vConfig (view w))(0 \<mapsto> pps, 1 \<mapsto> bps)) (view w)
    | (w', Some _) \<Rightarrow> view w' = view w \<or>
        view w' = vConfig_update (\<lambda>_. (vConfig (view w))(0 \<mapsto> pps)) (view w)"
proof -
  obtain w1 ok1 where p1: "Put (ConfigMap (objs m)) 0 pps w = (w1, ok1)" by fastforce
  obtain w2 ok2 where p2: "Put (ConfigMap (objs m)) 1 bps w1 = (w2, ok2)" by fastforce
  show ?thesis
    using config_put[OF kc p1] config_put[OF kc p2] p1 p2
    by (auto simp: UpdateRateLimits_def split: if_splits)
qed

subsection \<open>Properties\<close>

definition refManager :: "world MapManager" where
  "refManager = NewMapManager refObjs"

lemma objs_refManager [simp]: "objs refManager = refObjs"
  by (simp add: refManager_def NewMapManager_def)

text \<open>
  Blocking a text either succeeds, and then exactly the canonical entry the text denotes is
  written with the current time, or fails and changes nothing; allowing a text either succeeds, and
  then exactly the entry it denotes was present and is removed, or fails and changes nothing.
\<close>

theorem blacklist_effect:
  assumes "kernel_contract (objs m) view"
  shows "(case BlockCIDR os m c w of
      (w', None) \<Rightarrow> \<exists>k. parseCIDR c = Inr (Data k, PrefixLen k) \<and> canonicalKey k \<and>
        view w' = vBlacklist_update (\<lambda>_. (vBlacklist (view w))(k \<mapsto> UnixNow os w)) (view w)
    | (w', Some _) \<Rightarrow> view w' = view w) \<and>
    (case AllowCIDR m c w of
      (w', None) \<Rightarrow> \<exists>k. parseCIDR c = Inr (Data k, PrefixLen k) \<and> canonicalKey k \<and>
        vBlacklist (view w) k \<noteq> None \<and>
        view w' = vBlacklist_update (\<lambda>_. (vBlacklist (view w))(k := None)) (view w)
    | (w', Some _) \<Rightarrow> view w' = view w)"
proof -
  obtain w1 e1 where b: "BlockCIDR os m c w = (w1, e1)" by fastforce
  obtain w2 e2 where a: "AllowCIDR m c w = (w2, e2)" by fastforce
  show ?thesis
    using block_run[OF assms b] allow_run[OF assms a] a b by (auto split: option.splits)
qed

theorem blacklist_effect_witness:
  "(\<exists>k. parseCIDR ''198.51.100.0/24'' = Inr (Data k, PrefixLen k) \<and> canonicalKey k \<and>
     refView (fst (BlockCIDR refOS refManager ''198.51.100.0/24'' emptyWorld))
     = vBlacklist_update (\<lambda>_. (vBlacklist (refView emptyWorld))(k \<mapsto> UnixNow refOS emptyWorld))
         (refView emptyWorld)) \<and>
   refView (fst (AllowCIDR refManager ''198.51.100.0/24'' emptyWorld)) = refView emptyWorld"
proof -
  have "snd (BlockCIDR refOS refManager ''198.51.100.0/24'' emptyWorld) = None"
    "snd (AllowCIDR refManager ''198.51.100.0/24'' emptyWorld) \<noteq> None" by code_simp+
  with blacklist_effect[where m = refManager and view = refView and os = refOS and c = "''198.51.100.0/24''"
      and w = emptyWorld] refObjs_contract
  show ?thesis by (auto split: prod.splits)
qed

text \<open>
  Adding to and removing from the whitelist change exactly the whitelist entry the text denotes
  when they succeed, and nothing when they fail; the blacklist is never touched.
\<close>

theorem whitelist_effect:
  assumes "kernel_contract (objs m) view"
  shows "(case AddWhitelistCIDR m c w of
      (w', None) \<Rightarrow> \<exists>k. parseCIDR c = Inr (Data k, PrefixLen k) \<and> canonicalKey k \<and>
        view w' = vWhitelist_update (\<lambda>_. (vWhitelist (view w))(k \<mapsto> 1)) (view w)
    | (w', Some _) \<Rightarrow> view w' = view w) \<and>
    (case RemoveWhitelistCIDR m c w of
      (w', None) \<Rightarrow> \<exists>k. parseCIDR c = Inr (Data k, PrefixLen k) \<and> canonicalKey k \<and>
        vWhitelist (view w) k \<noteq> None \<and>
        view w' = vWhitelist_update (\<lambda>_. (vWhitelist (view w))(k := None)) (view w)
    | (w', Some _) \<Rightarrow> view w' = view w)"
proof -
  obtain w1 e1 where a: "AddWhitelistCIDR m c w = (w1, e1)" by fastforce
  obtain w2 e2 where r: "RemoveWhitelistCIDR m c w = (w2, e2)" by fastforce
  show ?thesis
    using whitelist_add_run[OF assms a] whitelist_remove_run[OF assms r] a r
    by (auto split: option.splits)
qed

theorem whitelist_effect_witness:
  "\<exists>k. parseCIDR ''203.0.113.9'' = Inr (Data k, PrefixLen k) \<and> canonicalKey k \<and>
     refView (fst (AddWhitelistCIDR refManager ''203.0.113.9'' emptyWorld))
     = vWhitelist_update (\<lambda>_. (vWhitelist (refView emptyWorld))(k \<mapsto> 1)) (refView emptyWorld)"
proof -
  have "snd (AddWhitelistCIDR refManager ''203.0.113.9'' emptyWorld) = None" by code_simp
  with whitelist_effect[where m = refManager and view = refView and c = "''203.0.113.9''" and w = emptyWorld] refObjs_contract
  show ?thesis by (simp split: prod.splits)
qed

text \<open>
  A listing of the blacklist that ends without error is exact: every listed text parses to a
  stored entry, and every stored entry is the parse of a listed text.
\<close>

theorem blacklist_listing_exact:
  assumes kc: "kernel_contract (objs m) view" and list: "GetBlacklistCIDRs m w = (cidrs, None)"
  shows "parseCIDR ` set cidrs = {Inr (Data k, PrefixLen k) | k. vBlacklist (view w) k \<noteq> None}"
proof -
  note bc = blacklist_contract[OF kc]
  from list obtain kvs where it: "Iterate (CidrBlacklist (objs m)) w = (kvs, True)"
    and cidrs: "cidrs = map (formatLpmKey \<circ> fst) kvs"
    by (auto simp: GetBlacklistCIDRs_def split: prod.splits if_splits)
  have "parseCIDR (formatLpmKey k) = Inr (Data k, PrefixLen k)" if "k \<in> fst ` set kvs" for k
    using parse_formatted[OF bc it that] by (rule parseCIDR_formatLpmKey)
  then have "parseCIDR ` set cidrs = (\<lambda>k. Inr (Data k, PrefixLen k)) ` fst ` set kvs"
    unfolding cidrs by (force simp: image_iff)
  then show ?thesis unfolding iterate_keys[OF bc it] by auto
qed

theorem blacklist_listing_exact_witness:
  "parseCIDR ` {''1.2.3.4'', ''10.0.0.0/8''}
   = {Inr (Data k, PrefixLen k) | k. vBlacklist (refView
        (emptyWorld\<lparr>wBlacklist := [(\<lparr>PrefixLen = 32, Data = 0x04030201\<rparr>, 9), (\<lparr>PrefixLen = 8, Data = 10\<rparr>, 9)]\<rparr>)) k \<noteq> None}"
  (is "_ = {_ | k. vBlacklist (refView ?w) k \<noteq> None}")
proof -
  have "GetBlacklistCIDRs refManager ?w = ([''1.2.3.4'', ''10.0.0.0/8''], None)" by code_simp
  from blacklist_listing_exact[OF _ this] refObjs_contract show ?thesis by simp
qed

text \<open>
  A policy that was set without error is the policy that is read back, and setting it writes
  nothing else.
\<close>

theorem policy_set_get:
  assumes "kernel_contract (objs m) view" "SetGeoIPPolicy m policy w = (w', None)"
  shows "GetGeoIPPolicy m w' = (policy, None) \<and>
     view w' = vConfig_update (\<lambda>_. (vConfig (view w))(2 \<mapsto> policy)) (view w)"
proof -
  from assms(2) have nn: "\<not> is_nil (ConfigMap (objs m))" and "Put (ConfigMap (objs m)) 2 policy w = (w', True)"
    by (auto simp: SetGeoIPPolicy_def split: if_splits prod.splits)
  from config_put[OF assms(1) this(2)]
  have "view w' = vConfig_update (\<lambda>_. (vConfig (view w))(2 \<mapsto> policy)) (view w)" by simp
  then show ?thesis using nn config_read[OF assms(1), of 2 w'] by (simp add: GetGeoIPPolicy_def)
qed

theorem policy_set_get_witness:
  "GetGeoIPPolicy refManager (fst (SetGeoIPPolicy refManager 1 emptyWorld)) = (1, None)"
proof -
  have "SetGeoIPPolicy refManager 1 emptyWorld = (fst (SetGeoIPPolicy refManager 1 emptyWorld), None)"
    by code_simp
  from policy_set_get[OF _ this] refObjs_contract show ?thesis by simp
qed

text \<open>
  Updating the rate limits writes both limits when it succeeds; when it fails, either nothing
  has changed or only the packet limit has: the two writes are not one transaction.
\<close>

theorem rate_limits_effect:
  assumes kc: "kernel_contract (objs m) view"
  shows "case UpdateRateLimits m pps bps w of
      (w', None) \<Rightarrow> view w' = vConfig_update (\<lambda>_. (vConfig (view w))(0 \<mapsto> pps, 1 \<mapsto> bps)) (view w)
    | (w', Some _) \<Rightarrow> view w' = view w \<or>
        view w' = vConfig_update (\<lambda>_. (vConfig (view w))(0 \<mapsto> pps)) (view w)"
  using assms by (rule rate_limits_run)

theorem rate_limits_effect_witness:
  "vConfig (refView (fst (UpdateRateLimits refManager 300 512000 emptyWorld))) 1 = Some 512000"
proof -
  have "snd (UpdateRateLimits refManager 300 512000 emptyWorld) = None" by code_simp
  with rate_limits_effect[where m = refManager and view = refView and pps = 300 and bps = 512000 and w = emptyWorld] refObjs_contract
  show ?thesis by (simp split: prod.splits)
qed

text \<open>
  C35: Blocking a text stores one entry, under the key of the block the text denotes and with the time of
  the write, or it fails and stores nothing.  A text that is an IPv4 block is stored whenever the kernel
  takes its key.  So no entry of the blacklist stands for anything but the block that was written, an
  IPv4 block written in its IPv6 form included: its prefix does not fit and the kernel refuses it.
\<close>

theorem block_stores_its_block:
  assumes kc: "kernel_contract (objs m) view" and run: "BlockCIDR os m s w = (w', e)"
  shows "(case e of
      None \<Rightarrow> (\<exists>b n. (blockText s b n \<or> n = 32 \<and> addressText s b) \<and>
        view w' = vBlacklist_update (\<lambda>_. (vBlacklist (view w))(blockKey b n \<mapsto> UnixNow os w)) (view w))
    | Some _ \<Rightarrow> view w' = view w) \<and>
    (\<forall>b n. blockText s b n \<longrightarrow>
       (e = None \<longleftrightarrow> snd (Put (CidrBlacklist (objs m)) (blockKey b n) (UnixNow os w) w)))"
proof (intro conjI allI impI)
  show "case e of
      None \<Rightarrow> (\<exists>b n. (blockText s b n \<or> n = 32 \<and> addressText s b) \<and>
        view w' = vBlacklist_update (\<lambda>_. (vBlacklist (view w))(blockKey b n \<mapsto> UnixNow os w)) (view w))
    | Some _ \<Rightarrow> view w' = view w"
  proof (cases e)
    case None
    with block_run[OF kc run] obtain k where k: "parseCIDR s = Inr (Data k, PrefixLen k)" "canonicalKey k"
      "view w' = vBlacklist_update (\<lambda>_. (vBlacklist (view w))(k \<mapsto> UnixNow os w)) (view w)" by auto
    from k(2) have "PrefixLen k \<le> 32" by (simp add: canonicalKey_def)
    from parseCIDR_denotes[OF k(1) this] obtain b n where bn: "blockText s b n \<or> n = 32 \<and> addressText s b"
      and "\<lparr>PrefixLen = PrefixLen k, Data = Data k\<rparr> = blockKey b n" by blast
    then have "k = blockKey b n" by (cases k) simp
    with bn k(3) have "\<exists>b n. (blockText s b n \<or> n = 32 \<and> addressText s b) \<and>
        view w' = vBlacklist_update (\<lambda>_. (vBlacklist (view w))(blockKey b n \<mapsto> UnixNow os w)) (view w)" by blast
    with None show ?thesis by simp
  next
    case (Some x)
    with block_run[OF kc run] show ?thesis by simp
  qed
  fix b n assume "blockText s b n"
  from blockText_parses[OF this] run
  show "e = None \<longleftrightarrow> snd (Put (CidrBlacklist (objs m)) (blockKey b n) (UnixNow os w) w)"
    by (auto simp: BlockCIDR_def blockKey_def split: prod.splits if_splits)
qed

theorem block_stores_its_block_witness:
  "vBlacklist (refView (fst (BlockCIDR refOS refManager ''198.51.100.7/24'' emptyWorld)))
     \<lparr>PrefixLen = 24, Data = 0x006433C6\<rparr> = Some 1700000000"
proof -
  let ?run = "BlockCIDR refOS refManager ''198.51.100.7/24'' emptyWorld"
  have run: "?run = (fst ?run, snd ?run)" by simp
  have bt: "blockText ''198.51.100.7/24'' [198, 51, 100, 7] 24"
    unfolding blockText_def by (intro exI[of _ "''198.51.100.7''"] exI[of _ "''24''"]) code_simp
  note stored = block_stores_its_block[OF refObjs_contract[folded objs_refManager] run]
  have key: "blockKey [198, 51, 100, 7] 24 = \<lparr>PrefixLen = 24, Data = 0x006433C6\<rparr>" by code_simp
  have "snd (Put (CidrBlacklist (objs refManager)) \<lparr>PrefixLen = 24, Data = 0x006433C6\<rparr>
      (UnixNow refOS emptyWorld) emptyWorld)" by code_simp
  then have ok: "snd ?run = None" using conjunct2[OF stored, rule_format, OF bt] unfolding key by blast
  from stored ok obtain b n where "blockText ''198.51.100.7/24'' b n \<or> n = 32 \<and> addressText ''198.51.100.7/24'' b"
    and v: "refView (fst ?run) = vBlacklist_update
      (\<lambda>_. (vBlacklist (refView emptyWorld))(blockKey b n \<mapsto> UnixNow refOS emptyWorld)) (refView emptyWorld)"
    by auto
  moreover have "ParseIP ''198.51.100.7/24'' = None" by code_simp
  ultimately have "blockText ''198.51.100.7/24'' b n" by (auto simp: addressText_def)
  from blockText_parses[OF this] blockText_parses[OF bt] key have "blockKey b n = \<lparr>PrefixLen = 24, Data = 0x006433C6\<rparr>"
    by (cases "blockKey b n") simp
  with v show ?thesis by (simp add: refOS_def emptyWorld_def)
qed

end
