(* ===== verification/Mitigation.thy ===== *)
theory Mitigation
  imports MapManager GoFloat
begin

text \<open>
  The three sweeps of \<open>map_manager.go\<close> that the mitigation engine runs every second: the scan of
  the per-source counters (\<open>ScanAndMitigate\<close>), the expiry of the blacklist
  (\<open>CleanExpiredBlacklist\<close>) and the health report of the maps (\<open>GetMapHealth\<close>).  The loops run over
  the entries the map iterator yields.
\<close>

subsection \<open>ScanAndMitigate\<close>

definition totalPPS :: "statVal list \<Rightarrow> u64" where
  "totalPPS vals = foldl (\<lambda>total v. total + PPS v) 0 vals"

definition totalBPS :: "statVal list \<Rightarrow> u64" where
  "totalBPS vals = foldl (\<lambda>total v. total + BPS v) 0 vals"

text \<open>
  The loop body for the entries left, after \<open>count\<close> entries.  The third component tells whether
  the loop was left by \<open>break\<close>, with the iterator not at its end.
\<close>

fun scanLoop ::
  "'w goos \<Rightarrow> 'w MapManager \<Rightarrow> u64 \<Rightarrow> u64 \<Rightarrow> int \<Rightarrow> int \<Rightarrow> (u32 \<times> statVal list) list
   \<Rightarrow> string list \<Rightarrow> 'w \<Rightarrow> string list \<times> 'w \<times> bool" where
  "scanLoop os m ppsThreshold bpsThreshold scanLimit count [] blockedIPs w = (blockedIPs, w, False)"
| "scanLoop os m ppsThreshold bpsThreshold scanLimit count ((key, vals) # kvs) blockedIPs w =
     (let count' = count + 1 in
      if scanLimit > 0 \<and> count' > scanLimit then (blockedIPs, w, True)
      else if totalPPS vals > ppsThreshold \<or> totalBPS vals > bpsThreshold then
        (let ipStr = IPv4String (PutUint32 key) in
         case BlockCIDR os m ipStr w of
           (w1, None) \<Rightarrow>
             scanLoop os m ppsThreshold bpsThreshold scanLimit count' kvs (blockedIPs @ [ipStr])
               (fst (Delete (IpStatsMap (objs m)) key w1))
         | (w1, Some _) \<Rightarrow>
             scanLoop os m ppsThreshold bpsThreshold scanLimit count' kvs blockedIPs w1)
      else scanLoop os m ppsThreshold bpsThreshold scanLimit count' kvs blockedIPs w)"

definition ScanAndMitigate ::
  "'w goos \<Rightarrow> 'w MapManager \<Rightarrow> u64 \<Rightarrow> u64 \<Rightarrow> int \<Rightarrow> 'w
   \<Rightarrow> (string list \<times> go_error option) \<times> 'w" where
  "ScanAndMitigate os m ppsThreshold bpsThreshold scanLimit w =
     (case Iterate (IpStatsMap (objs m)) w of
        (kvs, ok) \<Rightarrow>
          (case scanLoop os m ppsThreshold bpsThreshold scanLimit 0 kvs [] w of
             (blockedIPs, w', broke) \<Rightarrow>
               ((blockedIPs, if broke \<or> ok then None else Some ErrMapIterate), w')))"

subsection \<open>CleanExpiredBlacklist\<close>

fun cleanLoop ::
  "'w MapManager \<Rightarrow> u64 \<Rightarrow> u64 \<Rightarrow> (LpmTrieKey \<times> u64) list \<Rightarrow> string list \<Rightarrow> 'w
   \<Rightarrow> string list \<times> 'w" where
  "cleanLoop m ttlSeconds nowUnix [] expiredCIDRs w = (expiredCIDRs, w)"
| "cleanLoop m ttlSeconds nowUnix ((key, val) # kvs) expiredCIDRs w =
     (if val \<le> 1 then cleanLoop m ttlSeconds nowUnix kvs expiredCIDRs w
      else if nowUnix - val > ttlSeconds then
        (let cidrStr = formatLpmKey key in
         cleanLoop m ttlSeconds nowUnix kvs (expiredCIDRs @ [cidrStr])
           (fst (Delete (CidrBlacklist (objs m)) key w)))
      else cleanLoop m ttlSeconds nowUnix kvs expiredCIDRs w)"

definition CleanExpiredBlacklist ::
  "'w goos \<Rightarrow> 'w MapManager \<Rightarrow> u64 \<Rightarrow> 'w \<Rightarrow> (string list \<times> go_error option) \<times> 'w" where
  "CleanExpiredBlacklist os m ttlSeconds w =
     (let nowUnix = UnixNow os w in
      case Iterate (CidrBlacklist (objs m)) w of
        (kvs, ok) \<Rightarrow>
          (case cleanLoop m ttlSeconds nowUnix kvs [] w of
             (expiredCIDRs, w') \<Rightarrow>
               ((expiredCIDRs, if ok then None else Some ErrMapIterate), w')))"

subsection \<open>GetMapHealth\<close>

record MapHealthInfo =
  Name :: string
  Entries :: int
  MaxEntriesOf :: int
  UsagePct :: float64

text \<open>
  The table of maps, each with what \<open>Info()\<close> reports.  (The test \<open>mp.m == nil\<close> compares an
  interface that holds a typed pointer with nil and is never true in Go, so it has no counterpart.)
\<close>

definition healthTable :: "'w MapManager \<Rightarrow> 'w \<Rightarrow> (string \<times> nat option) list" where
  "healthTable m w =
     [(''cidr_blacklist_map'', MaxEntries (CidrBlacklist (objs m)) w),
      (''cidr_whitelist_map'', MaxEntries (CidrWhitelist (objs m)) w),
      (''ip_stats_map'', MaxEntries (IpStatsMap (objs m)) w),
      (''backend_map'', MaxEntries (BackendMap (objs m)) w),
      (''stats_map'', MaxEntries (StatsMap (objs m)) w),
      (''a2s_info'', MaxEntries (A2sInfo (objs m)) w),
      (''vip_stats_map'', MaxEntries (VipStats (objs m)) w)]"

definition healthCount :: "'w MapManager \<Rightarrow> 'w \<Rightarrow> string \<Rightarrow> int" where
  "healthCount m w name =
     (if name = ''cidr_blacklist_map'' then int (length (fst (Iterate (CidrBlacklist (objs m)) w)))
      else if name = ''backend_map'' then int (length (fst (Iterate (BackendMap (objs m)) w)))
      else -1)"

text \<open>\<open>float64(count) / float64(maxEntries) * 100.0\<close> where the count is known, else 0.\<close>

definition usagePct :: "int \<Rightarrow> int \<Rightarrow> float64" where
  "usagePct count maxEntries =
     (if count \<ge> 0 \<and> maxEntries > 0
      then fmul (fdiv (fl (of_int count)) (fl (of_int maxEntries))) 100
      else 0)"

definition GetMapHealth :: "'w MapManager \<Rightarrow> 'w \<Rightarrow> MapHealthInfo list" where
  "GetMapHealth m w =
     concat (map (\<lambda>(name, info).
       case info of
         None \<Rightarrow> []
       | Some n \<Rightarrow>
           (let count = healthCount m w name in
            [\<lparr>Name = name, Entries = count, MaxEntriesOf = int n,
              UsagePct = usagePct count (int n)\<rparr>]))
       (healthTable m w))"

subsection \<open>What the scan is meant to do\<close>

definition offender :: "u64 \<Rightarrow> u64 \<Rightarrow> statVal list \<Rightarrow> bool" where
  "offender pps bps vals \<longleftrightarrow> totalPPS vals > pps \<or> totalBPS vals > bps"

definition hostKey :: "u32 \<Rightarrow> LpmTrieKey" where
  "hostKey a = \<lparr>PrefixLen = 32, Data = a\<rparr>"

definition ipText :: "u32 \<Rightarrow> string" where
  "ipText a = IPv4String (PutUint32 a)"

text \<open>The entries a scan looks at, after \<open>count\<close> of them.\<close>

definition scanned :: "int \<Rightarrow> int \<Rightarrow> 'a list \<Rightarrow> 'a list" where
  "scanned scanLimit count kvs = (if scanLimit > 0 then take (nat (scanLimit - count)) kvs else kvs)"

text \<open>Blocking a list of sources in turn and dropping the counters of those that were blocked.\<close>

fun blockAll ::
  "'w goos \<Rightarrow> 'w MapManager \<Rightarrow> u32 list \<Rightarrow> 'w \<Rightarrow> u32 list \<times> 'w" where
  "blockAll os m [] w = ([], w)"
| "blockAll os m (a # as) w =
     (case BlockCIDR os m (ipText a) w of
        (w1, None) \<Rightarrow>
          (case blockAll os m as (fst (Delete (IpStatsMap (objs m)) a w1)) of (bs, w') \<Rightarrow> (a # bs, w'))
      | (w1, Some _) \<Rightarrow> blockAll os m as w1)"

lemma scanned_Cons:
  "scanned l count (x # xs) = (if l > 0 \<and> count + 1 > l then [] else x # scanned l (count + 1) xs)"
proof (cases "l > 0 \<and> \<not> count + 1 > l")
  case True
  then have "nat (l - count) = Suc (nat (l - (count + 1)))" by arith
  with True show ?thesis by (simp add: scanned_def)
qed (auto simp: scanned_def)

text \<open>The loop is: select the offenders among the entries it looks at, then block them.\<close>

lemma scanLoop_blockAll:
  assumes "l > 0 \<Longrightarrow> count \<le> l"
  shows "scanLoop os m pps bps l count kvs ips w =
    (case blockAll os m (map fst (filter (offender pps bps \<circ> snd) (scanned l count kvs))) w of
       (bs, w') \<Rightarrow> (ips @ map ipText bs, w', l > 0 \<and> int (length kvs) + count > l))"
  using assms
proof (induction os m pps bps l count kvs ips w rule: scanLoop.induct)
  case (1 os m pps bps l count ips w)
  then show ?case by (auto simp: scanned_def)
next
  case (2 os m pps bps l count key vals kvs ips w)
  show ?case
  proof (cases "l > 0 \<and> count + 1 > l")
    case True
    with 2(4) show ?thesis by (simp add: scanned_Cons)
  next
    case False
    show ?thesis
    proof (cases "offender pps bps vals")
      case True
      with False 2(4) show ?thesis
        using 2(1)[OF refl False True[unfolded offender_def] refl] 2(2)[OF refl False True[unfolded offender_def] refl]
        by (auto simp: scanned_Cons offender_def Let_def ipText_def[symmetric] add.assoc
            split: prod.splits option.splits)
    next
      case no: False
      with False 2(4) show ?thesis
        using 2(3)[OF refl False no[unfolded offender_def]]
        by (auto simp: scanned_Cons offender_def Let_def split: prod.splits)
    qed
  qed
qed

text \<open>Blocking one source by the text of its address.\<close>

lemma block_host:
  assumes kc: "kernel_contract (objs m) view" and run: "BlockCIDR os m (ipText a) w = (w1, e)"
  shows "view w1 = (if e = None
    then vBlacklist_update (\<lambda>_. (vBlacklist (view w))(hostKey a \<mapsto> UnixNow os w)) (view w) else view w)"
proof (cases e)
  case None
  with block_run[OF kc run] obtain k where k: "parseCIDR (ipText a) = Inr (Data k, PrefixLen k)"
    and v: "view w1 = vBlacklist_update (\<lambda>_. (vBlacklist (view w))(k \<mapsto> UnixNow os w)) (view w)"
    by auto
  from k have "k = hostKey a" by (cases k) (simp add: ipText_def hostKey_def parseCIDR_address_text)
  with v None show ?thesis by simp
next
  case (Some x)
  with block_run[OF kc run] show ?thesis by simp
qed

text \<open>
  The kernel after the sources \<open>bs\<close> were blocked: their addresses are blacklisted, their counters
  gone, and nothing else has changed.
\<close>

definition blocked_view :: "u32 set \<Rightarrow> kernel_view \<Rightarrow> kernel_view \<Rightarrow> bool" where
  "blocked_view B v v' \<longleftrightarrow>
     vWhitelist v' = vWhitelist v \<and> vBackend v' = vBackend v \<and> vConfig v' = vConfig v \<and>
     (\<forall>a \<in> B. vBlacklist v' (hostKey a) \<noteq> None \<and> vIpStats v' a = None) \<and>
     (\<forall>k. k \<notin> hostKey ` B \<longrightarrow> vBlacklist v' k = vBlacklist v k) \<and>
     (\<forall>a. a \<notin> B \<longrightarrow> vIpStats v' a = vIpStats v a)"

lemma hostKey_inject [simp]: "hostKey a = hostKey b \<longleftrightarrow> a = b"
  by (simp add: hostKey_def)

lemma blocked_view_refl: "blocked_view {} v v"
  by (simp add: blocked_view_def)

lemma blocked_view_step:
  assumes b: "blocked_view B
      (vIpStats_update (\<lambda>_. (vIpStats v)(a := None)) (vBlacklist_update (\<lambda>_. (vBlacklist v)(hostKey a \<mapsto> t)) v)) v'"
  shows "blocked_view (insert a B) v v'"
proof -
  from b have out: "k \<notin> hostKey ` B \<Longrightarrow> vBlacklist v' k = ((vBlacklist v)(hostKey a \<mapsto> t)) k"
      "x \<notin> B \<Longrightarrow> vIpStats v' x = ((vIpStats v)(a := None)) x" for k x
    by (simp_all add: blocked_view_def)
  from b have ins: "x \<in> B \<Longrightarrow> vBlacklist v' (hostKey x) \<noteq> None \<and> vIpStats v' x = None" for x
    by (simp add: blocked_view_def)
  have "vBlacklist v' (hostKey a) \<noteq> None \<and> vIpStats v' a = None"
  proof (cases "a \<in> B")
    case False
    then have "hostKey a \<notin> hostKey ` B" by auto
    with False out(1)[of "hostKey a"] out(2)[of a] show ?thesis by simp
  qed (rule ins)
  moreover from b have "vWhitelist v' = vWhitelist v \<and> vBackend v' = vBackend v \<and> vConfig v' = vConfig v"
    by (simp add: blocked_view_def)
  ultimately show ?thesis using ins out unfolding blocked_view_def by simp
qed

text \<open>Whether the blacklist takes the block of a source in a world.\<close>

definition block_accepted :: "'w goos \<Rightarrow> 'w MapManager \<Rightarrow> u32 \<Rightarrow> 'w \<Rightarrow> bool" where
  "block_accepted os m a w \<longleftrightarrow> snd (Put (CidrBlacklist (objs m)) (hostKey a) (UnixNow os w) w)"

lemma block_host_accepted: "snd (BlockCIDR os m (ipText a) w) = None \<longleftrightarrow> block_accepted os m a w"
  by (auto simp: block_accepted_def ipText_def BlockCIDR_def parseCIDR_address_text hostKey_def split: prod.splits)

lemma blockAll_view:
  assumes kc: "kernel_contract (objs m) view" and kd: "kernel_deletes (objs m) view"
  shows "blockAll os m as w = (bs, w') \<Longrightarrow>
    blocked_view (set bs) (view w) (view w') \<and> set bs \<subseteq> set as \<and> length bs \<le> length as"
proof (induction as arbitrary: w bs)
  case (Cons a as)
  obtain w1 e where b: "BlockCIDR os m (ipText a) w = (w1, e)" by fastforce
  show ?case
  proof (cases e)
    case None
    let ?w2 = "fst (Delete (IpStatsMap (objs m)) a w1)"
    obtain cs where cs: "blockAll os m as ?w2 = (cs, w')" and bs: "bs = a # cs"
      using Cons.prems b None by (auto split: prod.splits)
    have "view ?w2 = vIpStats_update (\<lambda>_. (vIpStats (view w))(a := None))
        (vBlacklist_update (\<lambda>_. (vBlacklist (view w))(hostKey a \<mapsto> UnixNow os w)) (view w))"
      using block_host[OF kc b] None by (simp add: ip_stats_delete[OF kc kd])
    with Cons.IH[OF cs] bs show ?thesis by (auto intro: blocked_view_step)
  next
    case (Some x)
    with Cons.prems b have "blockAll os m as w1 = (bs, w')" by simp
    from Cons.IH[OF this] block_host[OF kc b] Some show ?thesis by auto
  qed
qed (simp add: blocked_view_refl)

text \<open>Blocking a list is blocking a part of it and then the rest.\<close>

lemma blockAll_append:
  "blockAll os m (as @ as') w =
     (case blockAll os m as w of (bs, w1) \<Rightarrow>
      case blockAll os m as' w1 of (bs', w2) \<Rightarrow> (bs @ bs', w2))"
  by (induction as arbitrary: w) (simp_all split: prod.splits option.splits)

lemma blockAll_subset: "set (fst (blockAll os m as w)) \<subseteq> set as"
proof (induction as arbitrary: w)
  case (Cons a as)
  obtain w1 e where b: "BlockCIDR os m (ipText a) w = (w1, e)" by fastforce
  have "fst (blockAll os m (a # as) w) =
      (case e of None \<Rightarrow> a # fst (blockAll os m as (fst (Delete (IpStatsMap (objs m)) a w1)))
       | Some _ \<Rightarrow> fst (blockAll os m as w1))"
    using b by (simp add: case_prod_beta split: option.split)
  with Cons.IH show ?case by (cases e) auto
qed simp

text \<open>The first time the loop comes to a source, it is reported if and only if the blacklist takes it then.\<close>

lemma blockAll_at:
  assumes split: "as = xs @ a # ys" and u: "u = snd (blockAll os m xs w)" and new: "a \<notin> set xs"
  shows "block_accepted os m a u \<longrightarrow> a \<in> set (fst (blockAll os m as w))"
    and "\<not> block_accepted os m a u \<and> a \<notin> set ys \<longrightarrow> a \<notin> set (fst (blockAll os m as w))"
proof -
  have at: "fst (blockAll os m as w) = fst (blockAll os m xs w) @ fst (blockAll os m (a # ys) u)"
    by (simp add: split u blockAll_append case_prod_beta)
  obtain w1 e where b: "BlockCIDR os m (ipText a) u = (w1, e)" by fastforce
  show "block_accepted os m a u \<longrightarrow> a \<in> set (fst (blockAll os m as w))"
    using b block_host_accepted[of os m a u] by (auto simp: at split: prod.splits)
  have "a \<notin> set (fst (blockAll os m xs w))" using new blockAll_subset[of os m xs w] by blast
  moreover have "a \<notin> set (fst (blockAll os m (a # ys) u))"
    if "\<not> block_accepted os m a u" "a \<notin> set ys"
    using b block_host_accepted[of os m a u] that blockAll_subset[of os m ys w1]
    by (cases e) auto
  ultimately show "\<not> block_accepted os m a u \<and> a \<notin> set ys \<longrightarrow> a \<notin> set (fst (blockAll os m as w))"
    by (auto simp: at)
qed

subsection \<open>What the expiry is meant to do\<close>

definition expiredEntry :: "u64 \<Rightarrow> u64 \<Rightarrow> u64 \<Rightarrow> bool" where
  "expiredEntry ttl now val \<longleftrightarrow> \<not> val \<le> 1 \<and> now - val > ttl"

definition expire_view :: "LpmTrieKey set \<Rightarrow> kernel_view \<Rightarrow> kernel_view" where
  "expire_view E v = vBlacklist_update (\<lambda>_ k. if k \<in> E then None else vBlacklist v k) v"

lemma expire_view_empty: "expire_view {} v = v"
  by (simp add: expire_view_def)

lemma expire_view_insert:
  "expire_view E (vBlacklist_update (\<lambda>_. (vBlacklist v)(k := None)) v) = expire_view (insert k E) v"
  by (auto simp: expire_view_def fun_eq_iff intro!: arg_cong[where f = "\<lambda>f. vBlacklist_update (\<lambda>_. f) v"])

lemma cleanLoop_view:
  assumes kc: "kernel_contract (objs m) view" and kd: "kernel_deletes (objs m) view"
  shows "\<forall>k \<in> fst ` set kvs. canonicalKey k \<Longrightarrow> cleanLoop m ttl now kvs ex w = (cs, w') \<Longrightarrow>
    cs = ex @ map (formatLpmKey \<circ> fst) (filter (expiredEntry ttl now \<circ> snd) kvs) \<and>
    view w' = expire_view (fst ` set (filter (expiredEntry ttl now \<circ> snd) kvs)) (view w)"
proof (induction kvs arbitrary: ex w)
  case (Cons e kvs)
  obtain k v where e: "e = (k, v)" by fastforce
  show ?case
  proof (cases "expiredEntry ttl now v")
    case True
    with Cons.prems e
    have "cleanLoop m ttl now kvs (ex @ [formatLpmKey k]) (fst (Delete (CidrBlacklist (objs m)) k w)) = (cs, w')"
      and k: "canonicalKey k" by (simp_all add: expiredEntry_def)
    with Cons.IH[OF _ this(1)] Cons.prems(1) True e blacklist_delete[OF kc kd k, of w] show ?thesis
      by (simp add: expire_view_insert)
  next
    case False
    with Cons.prems e have "cleanLoop m ttl now kvs ex w = (cs, w')"
      by (auto simp: expiredEntry_def split: if_splits)
    with Cons.IH[OF _ this] Cons.prems(1) False e show ?thesis by simp
  qed
qed (simp add: expire_view_empty)

lemma iterate_entries:
  assumes c: "map_contract K M view sel upd" and it: "Iterate M w = (kvs, True)"
  shows "fst ` set (filter (P \<circ> snd) kvs) = {k. \<exists>v. sel (view w) k = Some v \<and> P v}" (is "?L = ?R")
proof
  show "?L \<subseteq> ?R" using Iterate_sound[OF c it] by fastforce
  show "?R \<subseteq> ?L"
  proof
    fix k
    assume "k \<in> ?R"
    then obtain v where v: "sel (view w) k = Some v" "P v" by auto
    then obtain v' where "(k, v') \<in> set kvs" using Iterate_complete[OF c it, of k] by auto
    moreover from this have "v' = v" using Iterate_sound[OF c it, of k v'] v by simp
    ultimately show "k \<in> ?L" using v by force
  qed
qed

lemma scan_run:
  assumes kc: "kernel_contract (objs m) view" and kd: "kernel_deletes (objs m) view"
    and run: "ScanAndMitigate os m pps bps limit w = ((ips, e), w')"
  shows "\<exists>bs. ips = map ipText bs \<and> blocked_view (set bs) (view w) (view w') \<and>
    (\<forall>a \<in> set bs. \<exists>vals. vIpStats (view w) a = Some vals \<and> offender pps bps vals)"
proof -
  obtain kvs ok where it: "Iterate (IpStatsMap (objs m)) w = (kvs, ok)" by fastforce
  let ?as = "map fst (filter (offender pps bps \<circ> snd) (scanned limit 0 kvs))"
  obtain bs w1 where b: "blockAll os m ?as w = (bs, w1)" by fastforce
  have "ips = map ipText bs" "w' = w1"
    using run it b by (simp_all add: ScanAndMitigate_def scanLoop_blockAll)
  moreover have "set (scanned limit 0 kvs) \<subseteq> set kvs" by (auto simp: scanned_def dest: in_set_takeD)
  then have "\<exists>vals. vIpStats (view w) a = Some vals \<and> offender pps bps vals" if "a \<in> set ?as" for a
    using that Iterate_sound[OF ip_stats_contract[OF kc] it, of a] by fastforce
  ultimately show ?thesis using blockAll_view[OF kc kd b] by blast
qed

text \<open>Whatever the iteration did, the sweep only removes entries, and reports the texts of keys.\<close>

lemma clean_run:
  assumes kc: "kernel_contract (objs m) view" and kd: "kernel_deletes (objs m) view"
    and run: "CleanExpiredBlacklist os m ttl w = ((cs, e), w')"
  shows "\<exists>ks. cs = map formatLpmKey ks \<and> view w' = expire_view (set ks) (view w) \<and>
    (\<forall>k \<in> set ks. canonicalKey k \<and> (\<exists>v. vBlacklist (view w) k = Some v \<and> expiredEntry ttl (UnixNow os w) v))"
proof -
  note bc = blacklist_contract[OF kc]
  let ?P = "expiredEntry ttl (UnixNow os w)"
  obtain kvs ok where it: "Iterate (CidrBlacklist (objs m)) w = (kvs, ok)" by fastforce
  with run have loop: "cleanLoop m ttl (UnixNow os w) kvs [] w = (cs, w')"
    by (auto simp: CleanExpiredBlacklist_def Let_def split: prod.splits)
  have can: "canonicalKey k" if "k \<in> fst ` set kvs" for k using parse_formatted[OF bc it that] .
  let ?ks = "map fst (filter (?P \<circ> snd) kvs)"
  have "canonicalKey k \<and> (\<exists>v. vBlacklist (view w) k = Some v \<and> ?P v)" if "k \<in> set ?ks" for k
    using that can Iterate_sound[OF bc it, of k] by force
  moreover have "cs = map formatLpmKey ?ks \<and> view w' = expire_view (set ?ks) (view w)"
    using cleanLoop_view[OF kc kd _ loop, unfolded append_Nil] can by simp
  ultimately show ?thesis by blast
qed

subsection \<open>Properties of the sweeps\<close>

text \<open>
  C16: A scan blocks only sources whose summed counters are above a threshold, reports exactly the
  sources it blocked, blacklists each as a single address, drops its counters, and changes nothing
  else in the kernel.
\<close>

theorem scan_blocks_only_offenders:
  assumes kc: "kernel_contract (objs m) view" and kd: "kernel_deletes (objs m) view"
    and run: "ScanAndMitigate os m pps bps limit w = ((ips, e), w')"
  shows "\<exists>bs. ips = map ipText bs \<and> blocked_view (set bs) (view w) (view w') \<and>
    (\<forall>a \<in> set bs. \<exists>vals. vIpStats (view w) a = Some vals \<and> offender pps bps vals)"
  using assms by (rule scan_run)

definition floodWorld :: world where
  "floodWorld = emptyWorld\<lparr>wIpStats :=
     [(0x04030201, [\<lparr>PPS = 4000, BPS = 10, NextUpdate = 0\<rparr>, \<lparr>PPS = 2000, BPS = 10, NextUpdate = 0\<rparr>]),
      (0x08070605, [\<lparr>PPS = 10, BPS = 10, NextUpdate = 0\<rparr>]),
      (0x09090909, [\<lparr>PPS = 9000, BPS = 10, NextUpdate = 0\<rparr>])]\<rparr>"

lemma floodWorld_scan:
  "fst (ScanAndMitigate refOS refManager 5000 10000 0 floodWorld) = ([''1.2.3.4'', ''9.9.9.9''], None)"
  by code_simp

theorem scan_blocks_only_offenders_witness:
  "\<exists>bs. [''1.2.3.4'', ''9.9.9.9''] = map ipText bs \<and>
     (\<forall>a \<in> set bs. \<exists>vals. vIpStats (refView floodWorld) a = Some vals \<and> offender 5000 10000 vals)"
proof -
  have "ScanAndMitigate refOS refManager 5000 10000 0 floodWorld
      = (([''1.2.3.4'', ''9.9.9.9''], None), snd (ScanAndMitigate refOS refManager 5000 10000 0 floodWorld))"
    using floodWorld_scan by (simp add: prod_eq_iff)
  from scan_blocks_only_offenders[OF _ _ this] refObjs_contract refObjs_deletes show ?thesis by force
qed

text \<open>
  The world the loop of a scan is in when it first comes to the source \<open>a\<close>: after it has run over the
  entries before.
\<close>

definition scanReaches ::
  "'w goos \<Rightarrow> 'w MapManager \<Rightarrow> u64 \<Rightarrow> u64 \<Rightarrow> (u32 \<times> statVal list) list \<Rightarrow> u32 \<Rightarrow> 'w \<Rightarrow> 'w" where
  "scanReaches os m pps bps kvs a w =
     fst (snd (scanLoop os m pps bps 0 0 (takeWhile (\<lambda>e. fst e \<noteq> a) kvs) [] w))"

lemma scanReaches_blockAll:
  "scanReaches os m pps bps kvs a w =
     snd (blockAll os m (map fst (filter (offender pps bps \<circ> snd) (takeWhile (\<lambda>e. fst e \<noteq> a) kvs))) w)"
  by (simp add: scanReaches_def scanLoop_blockAll scanned_def split: prod.split)

lemma scanned_prefix: "\<exists>rest. kvs = scanned l 0 kvs @ rest"
  using append_take_drop_id[of "nat l" kvs] by (auto simp: scanned_def intro: exI[of _ "drop (nat l) kvs"])

lemma offenders_split:
  assumes "(a, vals) \<in> set (scanned l 0 kvs)" "P vals" "\<And>v. (a, v) \<in> set kvs \<Longrightarrow> v = vals"
  shows "\<exists>ys. map fst (filter (P \<circ> snd) (scanned l 0 kvs)) =
      map fst (filter (P \<circ> snd) (takeWhile (\<lambda>e. fst e \<noteq> a) kvs)) @ a # map fst (filter (P \<circ> snd) ys) \<and>
    (\<exists>zs. kvs = takeWhile (\<lambda>e. fst e \<noteq> a) kvs @ (a, vals) # ys @ zs)"
proof -
  let ?S = "scanned l 0 kvs" and ?ne = "\<lambda>e :: 'a \<times> 'b. fst e \<noteq> a"
  obtain zs where zs: "kvs = ?S @ zs" using scanned_prefix by blast
  have tw: "takeWhile ?ne kvs = takeWhile ?ne ?S"
    by (subst zs) (rule takeWhile_append1[OF assms(1)], simp)
  obtain e ys where d: "dropWhile ?ne ?S = e # ys"
    using assms(1) by (cases "dropWhile ?ne ?S") (auto simp: dropWhile_eq_Nil_conv)
  have "e \<in> set ?S" using d by (metis list.set_intros(1) set_dropWhileD)
  moreover have "fst e = a" using hd_dropWhile[of ?ne ?S] d by simp
  ultimately have e: "e = (a, vals)" using assms(3) zs by (metis Un_iff prod.collapse set_append)
  have S: "?S = takeWhile ?ne kvs @ (a, vals) # ys" using takeWhile_dropWhile_id[of ?ne ?S] d e tw by simp
  then have "map fst (filter (P \<circ> snd) ?S) =
      map fst (filter (P \<circ> snd) (takeWhile ?ne kvs @ (a, vals) # ys))" by simp
  then have "map fst (filter (P \<circ> snd) ?S) =
      map fst (filter (P \<circ> snd) (takeWhile ?ne kvs)) @ a # map fst (filter (P \<circ> snd) ys)"
    using assms(2) by simp
  moreover have "kvs = takeWhile ?ne kvs @ (a, vals) # ys @ zs" using S zs by (metis append.assoc append_Cons)
  ultimately show ?thesis by blast
qed

lemma ipText_inject [simp]: "ipText a = ipText b \<longleftrightarrow> a = b"
  unfolding ipText_def by (metis parseCIDR_address_text prod.inject sum.inject(2))

text \<open>
  C17: No offender among the entries the scan budget lets it visit is missed: if the blacklist takes
  its block in the world the loop is in when it comes to that source, the source is reported and is
  on the blacklist after the scan; and when the iterator yields no source twice, it is reported only
  then.  Without a limit every entry the iterator yields is visited.
\<close>

theorem scan_misses_no_offender:
  assumes kc: "kernel_contract (objs m) view" and kd: "kernel_deletes (objs m) view"
    and it: "Iterate (IpStatsMap (objs m)) w = (kvs, ok)"
    and run: "ScanAndMitigate os m pps bps limit w = ((ips, e), w')"
    and visited: "(a, vals) \<in> set (scanned limit 0 kvs)" and bad: "offender pps bps vals"
  shows "(block_accepted os m a (scanReaches os m pps bps kvs a w) \<longrightarrow>
      ipText a \<in> set ips \<and> vBlacklist (view w') (hostKey a) \<noteq> None) \<and>
    (distinct (map fst kvs) \<and> ipText a \<in> set ips \<longrightarrow>
      block_accepted os m a (scanReaches os m pps bps kvs a w))"
proof -
  let ?as = "map fst (filter (offender pps bps \<circ> snd) (scanned limit 0 kvs))"
    and ?xs = "map fst (filter (offender pps bps \<circ> snd) (takeWhile (\<lambda>e. fst e \<noteq> a) kvs))"
  obtain bs w1 where b: "blockAll os m ?as w = (bs, w1)" by fastforce
  have ips: "ips = map ipText bs" "w' = w1" using run it b by (simp_all add: ScanAndMitigate_def scanLoop_blockAll)
  have "v = vals" if "(a, v) \<in> set kvs" for v
  proof -
    have "(a, vals) \<in> set kvs" using visited scanned_prefix[of kvs limit] by (metis Un_iff set_append)
    with Iterate_sound[OF ip_stats_contract[OF kc] it, of a vals]
      Iterate_sound[OF ip_stats_contract[OF kc] it that] show ?thesis by simp
  qed
  from offenders_split[OF visited, of "offender pps bps", OF bad this] obtain ys zs where
    as: "?as = ?xs @ a # map fst (filter (offender pps bps \<circ> snd) ys)"
    and kvs: "kvs = takeWhile (\<lambda>e. fst e \<noteq> a) kvs @ (a, vals) # ys @ zs" by blast
  have new: "a \<notin> set ?xs" by (auto dest: set_takeWhileD)
  note at = blockAll_at[where os = os and m = m and w = w, OF as scanReaches_blockAll new, unfolded b fst_conv]
  have on: "vBlacklist (view w1) (hostKey x) \<noteq> None" if "x \<in> set bs" for x
    using blockAll_view[OF kc kd b] that by (simp add: blocked_view_def)
  have "a \<notin> set (map fst (filter (offender pps bps \<circ> snd) ys))" if "distinct (map fst kvs)"
    using that by (subst (asm) kvs) auto
  with at on ips show ?thesis by auto
qed

theorem scan_misses_no_offender_witness:
  "ipText 0x09090909 \<in> set (fst (fst (ScanAndMitigate refOS refManager 5000 10000 0 floodWorld))) \<and>
   vBlacklist (refView (snd (ScanAndMitigate refOS refManager 5000 10000 0 floodWorld))) (hostKey 0x09090909) \<noteq> None"
proof -
  let ?run = "ScanAndMitigate refOS refManager 5000 10000 0 floodWorld"
  have run: "?run = ((fst (fst ?run), snd (fst ?run)), snd ?run)" by simp
  have it: "Iterate (IpStatsMap (objs refManager)) floodWorld = (wIpStats floodWorld, True)" by code_simp
  have "(0x09090909, [\<lparr>PPS = 9000, BPS = 10, NextUpdate = 0\<rparr>]) \<in> set (scanned 0 0 (wIpStats floodWorld))"
    "offender 5000 10000 [\<lparr>PPS = 9000, BPS = 10, NextUpdate = 0\<rparr>]"
    by (simp_all add: scanned_def floodWorld_def offender_def totalPPS_def word_less_nat_alt)
  moreover have "block_accepted refOS refManager 0x09090909
      (scanReaches refOS refManager 5000 10000 (wIpStats floodWorld) 0x09090909 floodWorld)" by code_simp
  ultimately show ?thesis
    using scan_misses_no_offender[where view = refView, OF _ _ it run] refObjs_contract refObjs_deletes by simp
qed

text \<open>
  A scan with a positive limit blocks at most that many sources, and it reports an iteration
  error only if the iteration failed and the limit did not stop it first.
\<close>

theorem scan_respects_limit:
  assumes kc: "kernel_contract (objs m) view" and kd: "kernel_deletes (objs m) view"
    and it: "Iterate (IpStatsMap (objs m)) w = (kvs, ok)"
    and run: "ScanAndMitigate os m pps bps limit w = ((ips, e), w')"
  shows "(0 < limit \<longrightarrow> int (length ips) \<le> limit) \<and> (e = None \<longleftrightarrow> ok \<or> 0 < limit \<and> limit < int (length kvs))"
proof -
  let ?as = "map fst (filter (offender pps bps \<circ> snd) (scanned limit 0 kvs))"
  obtain bs w1 where b: "blockAll os m ?as w = (bs, w1)" by fastforce
  have ips: "ips = map ipText bs" and e: "e = None \<longleftrightarrow> (0 < limit \<and> limit < int (length kvs)) \<or> ok"
    using run it b by (auto simp: ScanAndMitigate_def scanLoop_blockAll split: if_splits)
  have "length bs \<le> length ?as" using blockAll_view[OF kc kd b] by blast
  also have "\<dots> \<le> length (scanned limit 0 kvs)" by simp
  also have "0 < limit \<Longrightarrow> \<dots> \<le> nat limit" by (simp add: scanned_def)
  finally show ?thesis using ips e by auto
qed

theorem scan_respects_limit_witness:
  "int (length (fst (fst (ScanAndMitigate refOS refManager 5000 10000 1 floodWorld)))) \<le> 1"
proof -
  have it: "Iterate (IpStatsMap (objs refManager)) floodWorld = (wIpStats floodWorld, True)" by code_simp
  show ?thesis
    using scan_respects_limit[OF _ _ it, where limit = 1 and os = refOS and pps = 5000 and bps = 10000]
      refObjs_contract refObjs_deletes by (metis objs_refManager prod.collapse zero_less_one)
qed

text \<open>
  While the summed per-CPU counters of a source fit 64 bits, comparing their wrapping sums with
  the thresholds is comparing the true sums.
\<close>

theorem offender_exact:
  assumes "sum_list (map (unat \<circ> PPS) vals) < 2 ^ 64" "sum_list (map (unat \<circ> BPS) vals) < 2 ^ 64"
  shows "totalPPS vals > pps \<or> totalBPS vals > bps \<longleftrightarrow>
    unat pps < sum_list (map (unat \<circ> PPS) vals) \<or> unat bps < sum_list (map (unat \<circ> BPS) vals)"
  using assms unat_sum_list_no_overflow[of "map PPS vals"] unat_sum_list_no_overflow[of "map BPS vals"]
  by (simp add: totalPPS_def totalBPS_def foldl_plus_sum_list word_less_nat_alt)

theorem offender_exact_witness:
  "totalPPS [\<lparr>PPS = 4000, BPS = 10, NextUpdate = 0\<rparr>, \<lparr>PPS = 2000, BPS = 10, NextUpdate = 0\<rparr>] > 5000 \<or>
   totalBPS [\<lparr>PPS = 4000, BPS = 10, NextUpdate = 0\<rparr>, \<lparr>PPS = 2000, BPS = 10, NextUpdate = 0\<rparr>] > 10000"
  by (subst offender_exact) simp_all

text \<open>
  C18: An expiry sweep that ends without error removes from the blacklist exactly the entries older
  than the time to live, keeps the legacy entries (values 0 and 1) and everything else, and reports
  exactly the entries it removed.
\<close>

theorem expiry_sweep_exact:
  assumes kc: "kernel_contract (objs m) view" and kd: "kernel_deletes (objs m) view"
    and run: "CleanExpiredBlacklist os m ttl w = ((cs, None), w')"
  shows "view w' = expire_view {k. \<exists>v. vBlacklist (view w) k = Some v \<and> expiredEntry ttl (UnixNow os w) v} (view w) \<and>
    parseCIDR ` set cs = {Inr (Data k, PrefixLen k) | k.
      \<exists>v. vBlacklist (view w) k = Some v \<and> expiredEntry ttl (UnixNow os w) v}"
proof -
  note bc = blacklist_contract[OF kc]
  let ?P = "expiredEntry ttl (UnixNow os w)"
  from run obtain kvs where it: "Iterate (CidrBlacklist (objs m)) w = (kvs, True)"
    and loop: "cleanLoop m ttl (UnixNow os w) kvs [] w = (cs, w')"
    by (auto simp: CleanExpiredBlacklist_def Let_def split: prod.splits if_splits)
  have can: "canonicalKey k" if "k \<in> fst ` set kvs" for k using parse_formatted[OF bc it that] .
  note res = cleanLoop_view[OF kc kd _ loop, unfolded append_Nil]
  have E: "fst ` set (filter (?P \<circ> snd) kvs) = {k. \<exists>v. vBlacklist (view w) k = Some v \<and> ?P v}"
    by (rule iterate_entries[OF bc it])
  have "parseCIDR ` set cs = parseCIDR ` formatLpmKey ` fst ` set (filter (?P \<circ> snd) kvs)"
    using res can by (simp add: image_image image_comp)
  also have "\<dots> = (\<lambda>k. Inr (Data k, PrefixLen k)) ` fst ` set (filter (?P \<circ> snd) kvs)"
    unfolding image_image by (intro image_cong refl parseCIDR_formatLpmKey can) auto
  finally have "parseCIDR ` set cs = {Inr (Data k, PrefixLen k) | k. \<exists>v. vBlacklist (view w) k = Some v \<and> ?P v}"
    unfolding E by auto
  with res can E show ?thesis by simp
qed

theorem expiry_sweep_exact_witness:
  "vBlacklist (refView (snd (CleanExpiredBlacklist refOS refManager 300
     (emptyWorld\<lparr>wBlacklist := [(hostKey 1, 1), (hostKey 2, 1699990000), (hostKey 3, 1699999900)]\<rparr>)))) (hostKey 2) = None"
  (is "vBlacklist (refView (snd (CleanExpiredBlacklist _ _ _ ?w))) _ = _")
proof -
  have "snd (fst (CleanExpiredBlacklist refOS refManager 300 ?w)) = None" by code_simp
  then have "CleanExpiredBlacklist refOS refManager 300 ?w
      = ((fst (fst (CleanExpiredBlacklist refOS refManager 300 ?w)), None),
         snd (CleanExpiredBlacklist refOS refManager 300 ?w))"
    by (simp add: prod_eq_iff)
  from expiry_sweep_exact[OF _ _ this] refObjs_contract refObjs_deletes
  have "refView (snd (CleanExpiredBlacklist refOS refManager 300 ?w)) = expire_view
      {k. \<exists>v. vBlacklist (refView ?w) k = Some v \<and> expiredEntry 300 (UnixNow refOS ?w) v} (refView ?w)"
    by simp
  moreover have "vBlacklist (refView ?w) (hostKey 2) = Some 1699990000" by code_simp
  moreover have "expiredEntry 300 (UnixNow refOS ?w) 1699990000" by code_simp
  ultimately show ?thesis by (simp add: expire_view_def)
qed

lemma expiredEntry_age:
  assumes "1 < val"
  shows "expiredEntry ttl now val \<longleftrightarrow>
    (if val \<le> now then unat val + unat ttl < unat now else unat val + unat ttl < unat now + 2 ^ 64)"
proof (cases "val \<le> now")
  case True
  then have "unat (now - val) = unat now - unat val" by (simp add: unat_sub)
  with True assms show ?thesis by (auto simp: expiredEntry_def word_less_nat_alt word_le_nat_alt)
next
  case False
  then have "unat (now - val) = 2 ^ 64 + unat now - unat val"
    by (simp add: unat_sub_if' word_le_nat_alt)
  with False assms unsigned_less[of val] show ?thesis
    by (auto simp: expiredEntry_def word_less_nat_alt word_le_nat_alt)
qed

text \<open>
  The sweep removes an entry exactly when more than the time to live has passed since it was
  written; an entry whose time stamp lies in the future (the clock was set back) is taken for one of
  an enormous age and, for every time to live the engine uses, is removed at once.
\<close>

theorem expiry_age:
  assumes "1 < val"
  shows "cleanLoop m ttl now [(k, val)] [] w =
    (if (if val \<le> now then unat val + unat ttl < unat now else unat val + unat ttl < unat now + 2 ^ 64)
     then ([formatLpmKey k], fst (Delete (CidrBlacklist (objs m)) k w)) else ([], w))"
proof -
  have nle: "\<not> val \<le> 1" using assms by simp
  have "(if val \<le> now then unat val + unat ttl < unat now else unat val + unat ttl < unat now + 2 ^ 64)
      \<longleftrightarrow> ttl < now - val"
    unfolding expiredEntry_age[OF assms, of ttl now, symmetric] expiredEntry_def using nle by blast
  then show ?thesis using nle by (simp only: cleanLoop.simps Let_def append_Nil if_False)
qed

theorem expiry_age_witness:
  "fst (cleanLoop refManager 300 1700000000 [(hostKey 0x04030201, 1700000060)] [] emptyWorld) = [''1.2.3.4'']"
proof -
  have "formatLpmKey (hostKey 0x04030201) = ''1.2.3.4''" by code_simp
  then show ?thesis by (subst expiry_age) simp_all
qed

end
