(* ===== verification/Backend.thy ===== *)
theory Backend
  imports MapManager
begin

text \<open>
  The routing table of virtual addresses (\<open>AddBackendVIP\<close>, \<open>RemoveBackendVIP\<close>, \<open>GetRoutingMap\<close> of
  \<open>map_manager.go\<close>) and the WireGuard peer file it maintains (\<open>addWireGuardPeer\<close>,
  \<open>removeWireGuardPeer\<close>, \<open>blockContains\<close>).
\<close>

subsection \<open>WireGuard peers\<close>

definition confPath :: string where
  "confPath = ''/etc/wireguard/wg0.conf''"

definition nl :: string where
  "nl = [newline]"

definition peerConfig :: "string \<Rightarrow> string \<Rightarrow> string \<Rightarrow> string" where
  "peerConfig pubkey allowedIP endpoint =
     nl @ ''[Peer]'' @ nl @ ''PublicKey = '' @ pubkey @ nl
     @ ''AllowedIPs = '' @ allowedIP @ ''/32'' @ nl
     @ (if endpoint \<noteq> [] then ''Endpoint = '' @ endpoint @ nl else [])
     @ ''PersistentKeepalive = 25'' @ nl"

definition addWireGuardPeer :: "'w goos \<Rightarrow> string \<Rightarrow> string \<Rightarrow> string \<Rightarrow> 'w \<Rightarrow> 'w" where
  "addWireGuardPeer os pubkey allowedIP endpoint w =
     (if pubkey = [] \<or> allowedIP = [] then w
      else
        let args = [''set'', ''wg0'', ''peer'', pubkey, ''allowed-ips'', allowedIP @ ''/32'']
              @ (if endpoint \<noteq> [] then [''endpoint'', endpoint] else []);
            w1 = RunCommand os (''wg'' # args) w
        in case ReadFile os confPath w1 of
             None \<Rightarrow> w1
           | Some content \<Rightarrow>
               (if \<not> Contains content pubkey
                then fst (AppendFile os confPath (peerConfig pubkey allowedIP endpoint) w1)
                else w1))"

definition blockContains :: "string list \<Rightarrow> string \<Rightarrow> bool" where
  "blockContains block target = list_ex (\<lambda>l. Contains l target) block"

text \<open>
  The loop over the lines of the file.  \<open>blk\<close> is the peer block being collected (\<open>inPeerBlock\<close>
  with \<open>peerBlock\<close>), \<open>None\<close> outside of one.
\<close>

fun dropPeerLoop :: "string \<Rightarrow> string list \<Rightarrow> string list option \<Rightarrow> string list" where
  "dropPeerLoop pubkey [] blk =
     (case blk of None \<Rightarrow> [] | Some b \<Rightarrow> if \<not> blockContains b pubkey then b else [])"
| "dropPeerLoop pubkey (line # lines) blk =
     (if HasPrefix (TrimSpace line) ''[Peer]'' then
        (case blk of
           None \<Rightarrow> []
         | Some b \<Rightarrow> if \<not> blockContains b pubkey then b else [])
        @ dropPeerLoop pubkey lines (Some [line])
      else case blk of
        Some b \<Rightarrow>
          (if HasPrefix (TrimSpace line) ''[Interface]'' then
             (if \<not> blockContains b pubkey then b else []) @ [line] @ dropPeerLoop pubkey lines None
           else dropPeerLoop pubkey lines (Some (b @ [line])))
      | None \<Rightarrow> line # dropPeerLoop pubkey lines None)"

definition dropPeer :: "string \<Rightarrow> string \<Rightarrow> string" where
  "dropPeer pubkey content =
     joinWith newline (dropPeerLoop pubkey (splitOn newline content) None)"

definition removeWireGuardPeer :: "'w goos \<Rightarrow> string \<Rightarrow> 'w \<Rightarrow> 'w" where
  "removeWireGuardPeer os pubkey w =
     (if pubkey = [] then w
      else
        let w1 = RunCommand os [''wg'', ''set'', ''wg0'', ''peer'', pubkey, ''remove''] w
        in case ReadFile os confPath w1 of
             None \<Rightarrow> w1
           | Some content \<Rightarrow>
               (if Contains content pubkey
                then fst (WriteFile os confPath (dropPeer pubkey content) w1)
                else w1))"

subsection \<open>The routing table\<close>

definition splitBackend :: "string \<Rightarrow> string \<times> u16" where
  "splitBackend backendStr =
     (if Contains backendStr '':'' then
        (case splitOn (CHR '':'') backendStr of
           ip # port # _ \<Rightarrow>
             (ip, case ParseUint port 16 of None \<Rightarrow> 0 | Some p \<Rightarrow> of_int p)
         | _ \<Rightarrow> (backendStr, 0))
      else (backendStr, 0))"

definition dnatRules :: "string \<Rightarrow> string \<Rightarrow> string \<Rightarrow> string \<Rightarrow> string list list" where
  "dnatRules action vipStr backendStr backendIPStr =
     [[''iptables'', ''-t'', ''nat'', action, ''PREROUTING'', ''-d'', vipStr, ''-p'', ''tcp'',
       ''-m'', ''multiport'', ''!'', ''--dports'', ''22,9090'', ''-j'', ''DNAT'',
       ''--to-destination'', backendStr],
      [''iptables'', ''-t'', ''nat'', action, ''PREROUTING'', ''-d'', vipStr, ''-p'', ''udp'',
       ''-j'', ''DNAT'', ''--to-destination'', backendStr],
      [''iptables'', ''-t'', ''nat'', action, ''PREROUTING'', ''-d'', vipStr, ''-p'', ''icmp'',
       ''-j'', ''DNAT'', ''--to-destination'', backendIPStr]]"

definition runAll :: "'w goos \<Rightarrow> string list list \<Rightarrow> 'w \<Rightarrow> 'w" where
  "runAll os cmds w = foldl (\<lambda>w c. RunCommand os c w) w cmds"

definition AddBackendVIP ::
  "'w goos \<Rightarrow> 'w MapManager \<Rightarrow> string \<Rightarrow> u16 \<Rightarrow> u8 \<Rightarrow> string \<Rightarrow> string \<Rightarrow> string \<Rightarrow> string \<Rightarrow> 'w
   \<Rightarrow> 'w \<times> go_error option" where
  "AddBackendVIP os m vipStr vport protocol backendStr tunnelType pubkey endpoint w =
     (case ipToUint32 vipStr of
        Inl err \<Rightarrow> (w, Some err)
      | Inr vipKey \<Rightarrow>
          (case splitBackend backendStr of (backendIPStr, backendPort) \<Rightarrow>
           (case ipToUint32 backendIPStr of
              Inl err \<Rightarrow> (w, Some err)
            | Inr backendVal \<Rightarrow>
                let tType = (if tunnelType = ''wireguard'' then 1 else 0);
                    w1 = (if tunnelType = ''wireguard'' then
                            runAll os (dnatRules ''-A'' vipStr backendStr backendIPStr)
                              (if pubkey \<noteq> [] then addWireGuardPeer os pubkey backendIPStr endpoint w
                               else w)
                          else w);
                    key = \<lparr>Vip = vipKey, Vport = htons vport, Protocol = protocol, KeyPad = 0\<rparr>;
                    info = \<lparr>BackendIP = backendVal, BackendPort = htons backendPort,
                            TunnelType = tType, InfoPad = 0\<rparr>
                in (case Put (BackendMap (objs m)) key info w1 of
                      (w2, ok) \<Rightarrow> (w2, if ok then None else Some ErrBackendPut)))))"

definition deleteKeys :: "'w MapManager \<Rightarrow> BackendKey list \<Rightarrow> 'w \<Rightarrow> 'w" where
  "deleteKeys m ks w = foldl (\<lambda>w k. fst (Delete (BackendMap (objs m)) k w)) w ks"

text \<open>The second step of \<open>RemoveBackendVIP\<close>: delete every key of the virtual address.\<close>

definition removeAllOfVip :: "'w MapManager \<Rightarrow> u32 \<Rightarrow> 'w \<Rightarrow> 'w \<times> go_error option" where
  "removeAllOfVip m vipKey w =
     (case Iterate (BackendMap (objs m)) w of
        (kvs, ok) \<Rightarrow>
          let keysToDelete = filter (\<lambda>k. Vip k = vipKey) (map fst kvs) in
          (if \<not> ok then (w, Some ErrMapIterate) else (deleteKeys m keysToDelete w, None)))"

definition RemoveBackendVIP ::
  "'w goos \<Rightarrow> 'w MapManager \<Rightarrow> string \<Rightarrow> u16 \<Rightarrow> u8 \<Rightarrow> string \<Rightarrow> string \<Rightarrow> string \<Rightarrow> 'w
   \<Rightarrow> 'w \<times> go_error option" where
  "RemoveBackendVIP os m vipStr vport protocol backendStr tunnelType pubkey w =
     (case ipToUint32 vipStr of
        Inl err \<Rightarrow> (w, Some err)
      | Inr vipKey \<Rightarrow>
          let backendIPStr =
                (if Contains backendStr '':'' then hd (splitOn (CHR '':'') backendStr) else backendStr);
              w1 = (if tunnelType = ''wireguard'' then
                      (let wa = (if pubkey \<noteq> [] then removeWireGuardPeer os pubkey w else w) in
                       if backendIPStr \<noteq> []
                       then runAll os (dnatRules ''-D'' vipStr backendStr backendIPStr) wa else wa)
                    else w)
          in (if vport \<noteq> 0 then
                (let key = \<lparr>Vip = vipKey, Vport = htons vport, Protocol = protocol, KeyPad = 0\<rparr> in
                 case Delete (BackendMap (objs m)) key w1 of
                   (w2, ok) \<Rightarrow> if ok then (w2, None) else removeAllOfVip m vipKey w2)
              else removeAllOfVip m vipKey w1))"

record RoutingEntry =
  VIP :: string
  VPort :: u16
  ProtocolName :: string
  BackendIPText :: string
  BackendPortNo :: u16
  TunnelTypeName :: string

definition routingEntry :: "BackendKey \<Rightarrow> BackendInfo \<Rightarrow> RoutingEntry" where
  "routingEntry key val =
     \<lparr>VIP = IPv4String (PutUint32 (Vip key)),
      VPort = ntohs (Vport key),
      ProtocolName =
        (if Protocol key = 6 then ''tcp'' else if Protocol key = 17 then ''udp'' else ''any''),
      BackendIPText = IPv4String (PutUint32 (BackendIP val)),
      BackendPortNo = ntohs (BackendPort val),
      TunnelTypeName = (if TunnelType val = 1 then ''wireguard'' else ''ipip'')\<rparr>"

definition GetRoutingMap :: "'w MapManager \<Rightarrow> 'w \<Rightarrow> RoutingEntry list \<times> go_error option" where
  "GetRoutingMap m w =
     (case Iterate (BackendMap (objs m)) w of
        (kvs, ok) \<Rightarrow>
          (map (\<lambda>(key, val). routingEntry key val) kvs, if ok then None else Some ErrMapIterate))"

subsection \<open>What removing a peer is meant to do\<close>

text \<open>
  The structure of the file: a peer block runs from its header to the next header, every other line
  stands for itself.
\<close>

definition isPeerHeader :: "string \<Rightarrow> bool" where
  "isPeerHeader line = HasPrefix (TrimSpace line) ''[Peer]''"

definition isInterfaceHeader :: "string \<Rightarrow> bool" where
  "isInterfaceHeader line = HasPrefix (TrimSpace line) ''[Interface]''"

definition inBlock :: "string \<Rightarrow> bool" where
  "inBlock line \<longleftrightarrow> \<not> isPeerHeader line \<and> \<not> isInterfaceHeader line"

datatype segment = Plain string | Peer "string list"

function segments :: "string list \<Rightarrow> segment list" where
  "segments [] = []"
| "segments (l # ls) =
     (if isPeerHeader l then Peer (l # takeWhile inBlock ls) # segments (dropWhile inBlock ls)
      else Plain l # segments ls)"
  by pat_completeness auto
termination
  by (relation "measure length") (simp_all add: le_imp_less_Suc length_dropWhile_le)

fun segmentLines :: "segment \<Rightarrow> string list" where
  "segmentLines (Plain l) = [l]"
| "segmentLines (Peer b) = b"

fun keptLines :: "string \<Rightarrow> segment \<Rightarrow> string list" where
  "keptLines pubkey (Plain l) = [l]"
| "keptLines pubkey (Peer b) = (if blockContains b pubkey then [] else b)"

lemma segments_lines: "concat (map segmentLines (segments ls)) = ls"
  by (induction ls rule: segments.induct) simp_all

lemma dropPeerLoop_block:
  "dropPeerLoop pubkey ls (Some b) =
     keptLines pubkey (Peer (b @ takeWhile inBlock ls)) @ dropPeerLoop pubkey (dropWhile inBlock ls) None"
proof (induction ls arbitrary: b)
  case (Cons l ls)
  then show ?case by (auto simp: inBlock_def isPeerHeader_def isInterfaceHeader_def)
qed simp

lemma interface_not_peer: "isInterfaceHeader l \<Longrightarrow> \<not> isPeerHeader l"
  by (auto simp: isInterfaceHeader_def isPeerHeader_def HasPrefix_def prefix_def)

lemma dropPeerLoop_segments:
  "dropPeerLoop pubkey ls None = concat (map (keptLines pubkey) (segments ls))"
proof (induction ls rule: segments.induct)
  case (2 l ls)
  then show ?case
    by (cases "isPeerHeader l") (simp_all add: dropPeerLoop_block isPeerHeader_def)
qed simp

text \<open>A text without line breaks occurs in joined lines only within one of them.\<close>

lemma sublist_across: "sublist p (l @ sep # r) \<Longrightarrow> sep \<notin> set p \<Longrightarrow> sublist p l \<or> sublist p r"
proof (induction l)
  case (Cons c l)
  show ?case
  proof (cases "prefix p ((c # l) @ sep # r)")
    case True
    then have "prefix p (c # l)" using Cons.prems(2) by (auto simp: prefix_append prefix_Cons)
    then show ?thesis by (simp add: prefix_imp_sublist)
  next
    case False
    with Cons show ?thesis by (auto simp: sublist_Cons_right)
  qed
qed (auto simp: sublist_Cons_right prefix_Cons)

lemma Contains_joinWith:
  "Contains (joinWith sep ls) p \<Longrightarrow> sep \<notin> set p \<Longrightarrow> p \<noteq> [] \<Longrightarrow> \<exists>l \<in> set ls. Contains l p"
proof (induction sep ls rule: joinWith.induct)
  case (3 sep l l' ls)
  then show ?case unfolding Contains_eq_sublist by (auto dest!: sublist_across)
qed (simp_all add: Contains_eq_sublist)

lemma kept_not_containing:
  "l \<in> set (keptLines pubkey s) \<Longrightarrow> Contains l pubkey \<Longrightarrow> s = Plain l"
  by (cases s) (auto simp: blockContains_def list_ex_iff split: if_splits)

text \<open>The lines of a peer entry the manager writes.\<close>

definition peerLines :: "string \<Rightarrow> string \<Rightarrow> string \<Rightarrow> string list" where
  "peerLines pubkey allowedIP endpoint =
     [''[Peer]'', ''PublicKey = '' @ pubkey, ''AllowedIPs = '' @ allowedIP @ ''/32'']
     @ (if endpoint \<noteq> [] then [''Endpoint = '' @ endpoint] else [])
     @ [''PersistentKeepalive = 25'', []]"

lemma joinWith_append:
  "xs \<noteq> [] \<Longrightarrow> ys \<noteq> [] \<Longrightarrow> joinWith sep (xs @ ys) = joinWith sep xs @ sep # joinWith sep ys"
proof (induction xs)
  case (Cons x xs)
  then show ?case by (cases "xs = []") (simp_all add: joinWith_Cons)
qed simp

lemma splitOn_joinWith:
  "ls \<noteq> [] \<Longrightarrow> \<forall>l \<in> set ls. sep \<notin> set l \<Longrightarrow> splitOn sep (joinWith sep ls) = ls"
proof (induction ls)
  case (Cons l ls)
  then show ?case by (cases "ls = []") (simp_all add: joinWith_Cons splitOn_no_sep splitOn_append)
qed simp

lemma peerConfig_lines: "peerConfig pubkey allowedIP endpoint = newline # joinWith newline (peerLines pubkey allowedIP endpoint)"
  by (simp add: peerConfig_def peerLines_def nl_def)

lemma segments_append_header:
  "isPeerHeader h \<Longrightarrow> segments (ls @ h # hs) = segments ls @ segments (h # hs)"
proof (induction ls rule: segments.induct)
  case (2 l ls)
  have "takeWhile inBlock (ls @ h # hs) = takeWhile inBlock ls"
    "dropWhile inBlock (ls @ h # hs) = dropWhile inBlock ls @ h # hs"
    using 2(3) by (simp_all add: inBlock_def takeWhile_tail dropWhile_append3)
  with 2 show ?case by simp
qed simp

lemma segments_one_block:
  "isPeerHeader h \<Longrightarrow> \<forall>l \<in> set hs. inBlock l \<Longrightarrow> segments (h # hs) = [Peer (h # hs)]"
  by (simp add: takeWhile_eq_all_conv[THEN iffD2] dropWhile_eq_Nil_conv[THEN iffD2])

lemma trimRightSpace_prefix: "prefix (trimRightSpace s) s"
proof (induction s rule: trimRightSpace.induct)
  case (1 s)
  then show ?case
    by (subst trimRightSpace.simps)
       (auto split: option.splits intro: prefix_order.trans take_is_prefix)
qed

lemma plain_line_inBlock:
  assumes "leadingSpace (c # cs) = None" "c \<noteq> CHR ''[''"
  shows "inBlock (c # cs)"
proof -
  have "trimLeftSpace (c # cs) = c # cs" using assms(1) by (subst trimLeftSpace.simps) simp
  then have "TrimSpace (c # cs) = trimRightSpace (c # cs)" by (simp add: TrimSpace_def)
  with trimRightSpace_prefix[of "c # cs"] have "prefix (TrimSpace (c # cs)) (c # cs)" by simp
  with assms(2) show ?thesis
    by (auto simp: inBlock_def isPeerHeader_def isInterfaceHeader_def HasPrefix_def prefix_def)
qed

lemma peerLines_block:
  "\<exists>hs. peerLines pubkey allowedIP endpoint = ''[Peer]'' # hs \<and> (\<forall>l \<in> set hs. inBlock l)"
proof -
  have "inBlock []" "inBlock ''PersistentKeepalive = 25''" by code_simp+
  moreover have "inBlock (''PublicKey = '' @ x)" "inBlock (''AllowedIPs = '' @ x)" "inBlock (''Endpoint = '' @ x)"
    for x
    by (simp_all add: plain_line_inBlock leadingSpace_def go_spaces_def)
  ultimately show ?thesis by (auto simp: peerLines_def)
qed

subsection \<open>What the routing operations do to the kernel\<close>

text \<open>Commands and files are no maps.\<close>

definition os_frame :: "'w goos \<Rightarrow> ('w \<Rightarrow> kernel_view) \<Rightarrow> bool" where
  "os_frame os view \<longleftrightarrow>
     (\<forall>c w. view (RunCommand os c w) = view w) \<and>
     (\<forall>f c w. view (fst (WriteFile os f c w)) = view w) \<and>
     (\<forall>f c w. view (fst (AppendFile os f c w)) = view w) \<and>
     (\<forall>f c w. view (fst (AppendCreateFile os f c w)) = view w) \<and>
     (\<forall>d w. view (fst (MkdirAll os d w)) = view w)"

lemma refOS_frame: "os_frame refOS refView"
  by (auto simp: os_frame_def refOS_def refView_def split: option.splits)

lemma runAll_view: "os_frame os view \<Longrightarrow> view (runAll os cs w) = view w"
  unfolding runAll_def by (induction cs arbitrary: w) (simp_all add: os_frame_def)

lemma addWireGuardPeer_view: "os_frame os view \<Longrightarrow> view (addWireGuardPeer os pk ip ep w) = view w"
  by (auto simp: addWireGuardPeer_def os_frame_def Let_def split: option.splits)

lemma removeWireGuardPeer_view: "os_frame os view \<Longrightarrow> view (removeWireGuardPeer os pk w) = view w"
  by (auto simp: removeWireGuardPeer_def os_frame_def Let_def split: option.splits)

lemmas side_effects_view = runAll_view addWireGuardPeer_view removeWireGuardPeer_view

definition routeKey :: "u32 \<Rightarrow> u16 \<Rightarrow> u8 \<Rightarrow> BackendKey" where
  "routeKey v vport protocol = \<lparr>Vip = v, Vport = htons vport, Protocol = protocol, KeyPad = 0\<rparr>"

definition routeInfo :: "u32 \<Rightarrow> u16 \<Rightarrow> string \<Rightarrow> BackendInfo" where
  "routeInfo b port tunnelType =
     \<lparr>BackendIP = b, BackendPort = htons port,
      TunnelType = (if tunnelType = ''wireguard'' then 1 else 0), InfoPad = 0\<rparr>"

lemma backend_put:
  assumes kc: "kernel_contract (objs m) view" and put: "Put (BackendMap (objs m)) k v w = (w', ok)"
  shows "view w' = (if ok then vBackend_update (\<lambda>_. (vBackend (view w))(k \<mapsto> v)) (view w) else view w)"
proof (cases ok)
  case True
  with put have "view w' = vBackend_update (\<lambda>_. (vBackend (view w))(k \<mapsto> v)) (view w)"
    by (intro Put_ok[OF backend_contract[OF kc]]) simp_all
  with True show ?thesis by simp
next
  case False
  with put have "view w' = view w" by (intro Put_err[OF backend_contract[OF kc]]) simp_all
  with False show ?thesis by simp
qed

lemma add_backend_run:
  assumes kc: "kernel_contract (objs m) view" and fr: "os_frame os view"
    and run: "AddBackendVIP os m vip vport protocol backend tunnelType pubkey endpoint w = (w', e)"
  shows "(case e of
      None \<Rightarrow> (\<exists>v b. ipToUint32 vip = Inr v \<and> ipToUint32 (fst (splitBackend backend)) = Inr b \<and>
        view w' = vBackend_update (\<lambda>_. (vBackend (view w))(routeKey v vport protocol \<mapsto>
          routeInfo b (snd (splitBackend backend)) tunnelType)) (view w))
    | Some _ \<Rightarrow> view w' = view w)"
proof -
  obtain ip port where sb: "splitBackend backend = (ip, port)" by fastforce
  show ?thesis
  proof (cases "ipToUint32 vip")
    case (Inl a)
    with run show ?thesis by (auto simp: AddBackendVIP_def)
  next
    case v: (Inr v)
    show ?thesis
    proof (cases "ipToUint32 ip")
      case (Inl a)
      with run v sb show ?thesis by (auto simp: AddBackendVIP_def)
    next
      case b: (Inr b)
      let ?w1 = "if tunnelType = ''wireguard'' then
          runAll os (dnatRules ''-A'' vip backend ip)
            (if pubkey \<noteq> [] then addWireGuardPeer os pubkey ip endpoint w else w) else w"
      obtain w2 ok where put:
        "Put (BackendMap (objs m)) (routeKey v vport protocol) (routeInfo b port tunnelType) ?w1 = (w2, ok)"
        by fastforce
      have e: "e = (if ok then None else Some ErrBackendPut)" "w' = w2"
        using run v b sb put by (simp_all add: AddBackendVIP_def routeKey_def routeInfo_def Let_def)
      have "view ?w1 = view w" by (simp add: side_effects_view[OF fr])
      with backend_put[OF kc put] e v b sb show ?thesis by simp
    qed
  qed
qed

lemma deleteKeys_view:
  assumes kc: "kernel_contract (objs m) view" and kd: "kernel_deletes (objs m) view"
  shows "view (deleteKeys m ks w) =
    vBackend_update (\<lambda>_ k. if k \<in> set ks then None else vBackend (view w) k) (view w)"
proof (induction ks arbitrary: w)
  case (Cons k ks)
  let ?w1 = "fst (Delete (BackendMap (objs m)) k w)"
  have sel: "vBackend (view ?w1) = (vBackend (view w))(k := None)"
    by (simp add: backend_delete[OF kc kd])
  have "view (deleteKeys m (k # ks) w) = view (deleteKeys m ks ?w1)"
    by (simp add: deleteKeys_def)
  also have "\<dots> = vBackend_update (\<lambda>_ k'. if k' \<in> set ks then None else vBackend (view ?w1) k') (view ?w1)"
    by (rule Cons.IH)
  also have "\<dots> = vBackend_update
      (\<lambda>_ k'. if k' \<in> set ks then None else ((vBackend (view w))(k := None)) k') (view ?w1)"
    unfolding sel ..
  also have "\<dots> = vBackend_update
      (\<lambda>_ k'. if k' \<in> set ks then None else ((vBackend (view w))(k := None)) k') (view w)"
    by (simp add: backend_delete[OF kc kd])
  also have "(\<lambda>k'. if k' \<in> set ks then None else ((vBackend (view w))(k := None)) k')
      = (\<lambda>k'. if k' \<in> set (k # ks) then None else vBackend (view w) k')" by auto
  finally show ?case .
qed (simp add: deleteKeys_def)

definition forgetVip :: "u32 \<Rightarrow> kernel_view \<Rightarrow> kernel_view" where
  "forgetVip v kv = vBackend_update (\<lambda>_ k. if Vip k = v then None else vBackend kv k) kv"

lemma removeAllOfVip_view:
  assumes kc: "kernel_contract (objs m) view" and kd: "kernel_deletes (objs m) view"
    and run: "removeAllOfVip m v w = (w', e)"
  shows "view w' = (if e = None then forgetVip v (view w) else view w)"
proof -
  obtain kvs ok where it: "Iterate (BackendMap (objs m)) w = (kvs, ok)" by fastforce
  show ?thesis
  proof (cases ok)
    case True
    let ?ks = "filter (\<lambda>k. Vip k = v) (map fst kvs)"
    have keys: "fst ` set kvs = {k. vBackend (view w) k \<noteq> None}"
      using iterate_keys[OF backend_contract[OF kc], of w kvs] it True by simp
    have "(\<lambda>k. if k \<in> set ?ks then None else vBackend (view w) k)
        = (\<lambda>k. if Vip k = v then None else vBackend (view w) k)"
    proof
      fix k
      show "(if k \<in> set ?ks then None else vBackend (view w) k)
        = (if Vip k = v then None else vBackend (view w) k)"
        using keys by (cases "vBackend (view w) k = None") auto
    qed
    with run it True deleteKeys_view[OF kc kd, of ?ks w] show ?thesis
      by (auto simp: removeAllOfVip_def Let_def forgetVip_def)
  next
    case False
    with run it show ?thesis by (auto simp: removeAllOfVip_def Let_def)
  qed
qed

subsection \<open>Properties\<close>

text \<open>
  C36: Removing a peer rewrites the file to exactly its lines outside the peer blocks that mention
  the key, in their order: every other block and every line that belongs to no peer block is kept as
  it was.
\<close>

theorem drop_peer_exact:
  "dropPeer pubkey content =
     joinWith newline (concat (map (keptLines pubkey) (segments (splitOn newline content)))) \<and>
   concat (map segmentLines (segments (splitOn newline content))) = splitOn newline content"
  by (simp add: dropPeer_def dropPeerLoop_segments segments_lines)

text \<open>
  After a peer was removed its key no longer occurs in the file, unless it occurs in a line that
  belongs to no peer block.
\<close>

theorem drop_peer_forgets_key:
  assumes "pubkey \<noteq> []" "newline \<notin> set pubkey" "Contains (dropPeer pubkey content) pubkey"
  shows "\<exists>l. Plain l \<in> set (segments (splitOn newline content)) \<and> Contains l pubkey"
proof -
  from Contains_joinWith[OF assms(3)[unfolded dropPeer_def dropPeerLoop_segments] assms(2,1)]
  obtain s l where "s \<in> set (segments (splitOn newline content))" "l \<in> set (keptLines pubkey s)"
    "Contains l pubkey" by auto
  then show ?thesis by (auto dest: kept_not_containing)
qed

definition sampleConf :: string where
  "sampleConf = joinWith newline [''[Interface]'', ''Address = 10.8.0.1/24'', [], ''[Peer]'',
     ''PublicKey = AAA='', ''AllowedIPs = 10.8.0.2/32'', [], ''[Peer]'', ''PublicKey = BBB='',
     ''AllowedIPs = 10.8.0.3/32'', []]"

theorem drop_peer_forgets_key_witness: "\<not> Contains (dropPeer ''AAA='' sampleConf) ''AAA=''"
proof
  assume "Contains (dropPeer ''AAA='' sampleConf) ''AAA=''"
  from drop_peer_forgets_key[OF _ _ this]
  have "\<exists>l. Plain l \<in> set (segments (splitOn newline sampleConf)) \<and> Contains l ''AAA=''"
    by (simp add: newline_def)
  moreover have "\<forall>s \<in> set (segments (splitOn newline sampleConf)).
      case s of Plain l \<Rightarrow> \<not> Contains l ''AAA='' | Peer b \<Rightarrow> True" by code_simp
  ultimately show False by force
qed

text \<open>
  Removing a peer undoes adding it: if the key is new to the file, appending the entry the
  manager writes and then removing the peer gives back the file, byte for byte.
\<close>

theorem add_remove_peer_roundtrip:
  assumes "\<not> Contains content pubkey"
    "newline \<notin> set pubkey" "newline \<notin> set allowedIP" "newline \<notin> set endpoint"
  shows "dropPeer pubkey (content @ peerConfig pubkey allowedIP endpoint) = content"
proof -
  let ?ls = "splitOn newline content" and ?ps = "peerLines pubkey allowedIP endpoint"
  obtain hs where hs: "?ps = ''[Peer]'' # hs" "\<forall>l \<in> set hs. inBlock l"
    using peerLines_block by blast
  have "newline \<notin> set l" if "l \<in> set ?ps" for l
    using that assms(2-4) by (auto simp: peerLines_def newline_def split: if_splits)
  then have lines: "splitOn newline (content @ peerConfig pubkey allowedIP endpoint) = ?ls @ ?ps"
    using hs(1) by (simp add: peerConfig_lines splitOn_append splitOn_joinWith)
  have "isPeerHeader ''[Peer]''" by code_simp
  then have segs: "segments (?ls @ ?ps) = segments ?ls @ [Peer ?ps]"
    unfolding hs(1) using hs(2) by (simp only: segments_append_header segments_one_block)
  have "Contains (''PublicKey = '' @ pubkey) pubkey"
    using Contains_append_iff[of "''PublicKey = ''" pubkey "[]"] by simp
  then have gone: "keptLines pubkey (Peer ?ps) = []"
    by (simp add: blockContains_def peerLines_def)
  have "keptLines pubkey s = segmentLines s" if "s \<in> set (segments ?ls)" for s
  proof -
    from that have "set (segmentLines s) \<subseteq> set (concat (map segmentLines (segments ?ls)))" by auto
    then have "set (segmentLines s) \<subseteq> set ?ls" by (simp only: segments_lines)
    with assms(1) have "\<forall>l \<in> set (segmentLines s). \<not> Contains l pubkey"
      using split_line_sublist[of _ newline content] unfolding Contains_eq_sublist
      by (meson sublist_order.order.trans subsetD)
    then show ?thesis by (cases s) (auto simp: blockContains_def list_ex_iff)
  qed
  then have "concat (map (keptLines pubkey) (segments ?ls)) = ?ls"
    using segments_lines[of ?ls] by (simp cong: map_cong)
  with lines segs gone show ?thesis by (simp add: dropPeer_def dropPeerLoop_segments)
qed

theorem add_remove_peer_roundtrip_witness:
  "dropPeer ''CCC='' (sampleConf @ peerConfig ''CCC='' ''10.8.0.4'' ''203.0.113.5:51820'') = sampleConf"
proof (rule add_remove_peer_roundtrip)
  show "\<not> Contains sampleConf ''CCC=''" by code_simp
qed (simp_all add: newline_def)

text \<open>
  Mapping a virtual address either succeeds, and then exactly its routing entry is written, with
  both ports in network byte order, or fails and leaves every map unchanged.
\<close>

theorem add_backend_effect:
  assumes "kernel_contract (objs m) view" "os_frame os view"
  shows "case AddBackendVIP os m vip vport protocol backend tunnelType pubkey endpoint w of
      (w', None) \<Rightarrow> \<exists>v b. ipToUint32 vip = Inr v \<and> ipToUint32 (fst (splitBackend backend)) = Inr b \<and>
        view w' = vBackend_update (\<lambda>_. (vBackend (view w))(routeKey v vport protocol \<mapsto>
          routeInfo b (snd (splitBackend backend)) tunnelType)) (view w)
    | (w', Some _) \<Rightarrow> view w' = view w"
proof -
  obtain w' e where "AddBackendVIP os m vip vport protocol backend tunnelType pubkey endpoint w = (w', e)"
    by fastforce
  with add_backend_run[OF assms this] show ?thesis by (auto split: option.splits)
qed

theorem add_backend_effect_witness:
  "refView (fst (AddBackendVIP refOS refManager ''203.0.113.1'' 25565 6 ''not-an-ip:1'' ''ipip'' [] [] emptyWorld))
   = refView emptyWorld"
proof -
  have "snd (AddBackendVIP refOS refManager ''203.0.113.1'' 25565 6 ''not-an-ip:1'' ''ipip'' [] [] emptyWorld) \<noteq> None"
    by code_simp
  with add_backend_effect[where m = refManager and view = refView and os = refOS and vip = "''203.0.113.1''"
      and vport = 25565 and protocol = 6 and backend = "''not-an-ip:1''" and tunnelType = "''ipip''"
      and pubkey = "[]" and endpoint = "[]" and w = emptyWorld] refObjs_contract refOS_frame
  show ?thesis by (auto split: prod.splits)
qed

text \<open>
  C37: A route that was added is listed as it was given: with the virtual address, the port, the
  backend address and the backend port of the request.
\<close>

theorem added_route_is_listed:
  assumes kc: "kernel_contract (objs m) view" and fr: "os_frame os view"
    and add: "AddBackendVIP os m vip vport protocol backend tunnelType pubkey endpoint w = (w', None)"
    and list: "GetRoutingMap m w' = (routes, None)"
  shows "\<exists>r \<in> set routes. ipToUint32 (VIP r) = ipToUint32 vip \<and> VPort r = vport \<and>
    ipToUint32 (BackendIPText r) = ipToUint32 (fst (splitBackend backend)) \<and>
    BackendPortNo r = snd (splitBackend backend) \<and>
    (TunnelTypeName r = ''wireguard'' \<longleftrightarrow> tunnelType = ''wireguard'')"
proof -
  from add_backend_run[OF kc fr add] obtain v b where v: "ipToUint32 vip = Inr v"
    and b: "ipToUint32 (fst (splitBackend backend)) = Inr b"
    and stored: "vBackend (view w') (routeKey v vport protocol)
      = Some (routeInfo b (snd (splitBackend backend)) tunnelType)" by auto
  from list obtain kvs where it: "Iterate (BackendMap (objs m)) w' = (kvs, True)"
    and routes: "routes = map (\<lambda>(key, val). routingEntry key val) kvs"
    by (auto simp: GetRoutingMap_def split: prod.splits if_splits)
  from Iterate_complete[OF backend_contract[OF kc] it, of "routeKey v vport protocol"] stored
  obtain i where i: "(routeKey v vport protocol, i) \<in> set kvs" by auto
  with Iterate_sound[OF backend_contract[OF kc] it i] stored
  have "routingEntry (routeKey v vport protocol) (routeInfo b (snd (splitBackend backend)) tunnelType)
      \<in> set routes" (is "?r \<in> _") unfolding routes by force
  moreover have "ipToUint32 (VIP ?r) = ipToUint32 vip \<and> VPort ?r = vport \<and>
      ipToUint32 (BackendIPText ?r) = ipToUint32 (fst (splitBackend backend)) \<and>
      BackendPortNo ?r = snd (splitBackend backend) \<and>
      (TunnelTypeName ?r = ''wireguard'' \<longleftrightarrow> tunnelType = ''wireguard'')"
    by (simp add: routingEntry_def routeKey_def routeInfo_def v b ipToUint32_address_text)
  ultimately show ?thesis by blast
qed

theorem added_route_is_listed_witness:
  "\<exists>r \<in> set (fst (GetRoutingMap refManager (fst (AddBackendVIP refOS refManager ''203.0.113.1'' 25565 6
      ''10.8.0.2:25566'' ''wireguard'' ''CCC='' [] emptyWorld)))).
     VPort r = 25565 \<and> BackendPortNo r = snd (splitBackend ''10.8.0.2:25566'')"
proof -
  let ?a = "AddBackendVIP refOS refManager ''203.0.113.1'' 25565 6 ''10.8.0.2:25566'' ''wireguard'' ''CCC='' [] emptyWorld"
  have "snd ?a = None" by code_simp
  then have add: "?a = (fst ?a, None)" by (simp add: prod_eq_iff)
  have "snd (GetRoutingMap refManager (fst ?a)) = None" by code_simp
  then have list: "GetRoutingMap refManager (fst ?a) = (fst (GetRoutingMap refManager (fst ?a)), None)"
    by (simp add: prod_eq_iff)
  from added_route_is_listed[OF _ refOS_frame add list] refObjs_contract show ?thesis by auto
qed

text \<open>Removing a route: the effect on the kernel.\<close>

lemma remove_backend_run:
  assumes kc: "kernel_contract (objs m) view" and kd: "kernel_deletes (objs m) view"
    and fr: "os_frame os view"
  shows "case RemoveBackendVIP os m vip vport protocol backend tunnelType pubkey w of
      (w', None) \<Rightarrow> \<exists>v. ipToUint32 vip = Inr v \<and> view w' =
        (if vport \<noteq> 0 \<and> vBackend (view w) (routeKey v vport protocol) \<noteq> None
         then vBackend_update (\<lambda>_. (vBackend (view w))(routeKey v vport protocol := None)) (view w)
         else forgetVip v (view w))
    | (w', Some _) \<Rightarrow> view w' = view w"
proof (cases "ipToUint32 vip")
  case (Inl a)
  then show ?thesis by (simp add: RemoveBackendVIP_def)
next
  case v: (Inr v)
  let ?ip = "if Contains backend '':'' then hd (splitOn (CHR '':'') backend) else backend"
  let ?w1 = "if tunnelType = ''wireguard'' then
      (let wa = (if pubkey \<noteq> [] then removeWireGuardPeer os pubkey w else w) in
       if ?ip \<noteq> [] then runAll os (dnatRules ''-D'' vip backend ?ip) wa else wa) else w"
  obtain w1 where w1: "?w1 = w1" by simp
  have same: "view w1 = view w" unfolding w1[symmetric] by (simp add: side_effects_view[OF fr] Let_def)
  let ?k = "routeKey v vport protocol"
  obtain w2 ok where del: "Delete (BackendMap (objs m)) ?k w1 = (w2, ok)" by fastforce
  obtain w3 e3 where all2: "removeAllOfVip m v w2 = (w3, e3)" by fastforce
  obtain w4 e4 where all1: "removeAllOfVip m v w1 = (w4, e4)" by fastforce
  have run: "RemoveBackendVIP os m vip vport protocol backend tunnelType pubkey w =
      (if vport \<noteq> 0 then (if ok then (w2, None) else (w3, e3)) else (w4, e4))"
    using v del all1 all2 w1 unfolding routeKey_def by (simp add: RemoveBackendVIP_def Let_def)
  have d: "view w2 = vBackend_update (\<lambda>_. (vBackend (view w))(?k := None)) (view w)"
    using backend_delete[OF kc kd, of ?k w1] del same by simp
  have "delete_contract anyKey (BackendMap (objs m)) view vBackend"
    using kd by (simp add: kernel_deletes_def)
  then have "vBackend (view w) ?k \<noteq> None \<Longrightarrow> ok"
    using del same unfolding delete_contract_def by (metis snd_conv)
  moreover have "ok \<Longrightarrow> vBackend (view w) ?k \<noteq> None"
    using del same Delete_ok_dom[OF backend_contract[OF kc], of ?k w1 w2] by simp
  ultimately have present: "vBackend (view w) ?k \<noteq> None \<longleftrightarrow> ok" by blast
  have "\<not> ok \<Longrightarrow> view w2 = view w"
    using del same Delete_err[OF backend_contract[OF kc], of ?k w1 w2] by simp
  then have r3: "\<not> ok \<Longrightarrow> view w3 = (if e3 = None then forgetVip v (view w) else view w)"
    using removeAllOfVip_view[OF kc kd all2] by metis
  have r4: "view w4 = (if e4 = None then forgetVip v (view w) else view w)"
    using removeAllOfVip_view[OF kc kd all1] same by metis
  show ?thesis
  proof (cases "vport \<noteq> 0 \<and> ok")
    case True
    then have "RemoveBackendVIP os m vip vport protocol backend tunnelType pubkey w = (w2, None)"
      using run by simp
    with True v d present show ?thesis by auto
  next
    case False
    then obtain w5 e5 where r: "RemoveBackendVIP os m vip vport protocol backend tunnelType pubkey w = (w5, e5)"
      and v5: "view w5 = (if e5 = None then forgetVip v (view w) else view w)"
      using run r3 r4 by (cases "vport = 0") auto
    have "\<not> (vport \<noteq> 0 \<and> vBackend (view w) ?k \<noteq> None)" using False present by blast
    with r v5 v show ?thesis by (cases e5) auto
  qed
qed

text \<open>
  C38: Removing a route deletes exactly the entry of the given port and protocol if a port is given
  and the entry exists, and otherwise every entry of the virtual address; when it reports an error
  the maps are unchanged.
\<close>

theorem remove_backend_effect:
  assumes kc: "kernel_contract (objs m) view" and kd: "kernel_deletes (objs m) view"
    and fr: "os_frame os view"
  shows "case RemoveBackendVIP os m vip vport protocol backend tunnelType pubkey w of
      (w', None) \<Rightarrow> \<exists>v. ipToUint32 vip = Inr v \<and> view w' =
        (if vport \<noteq> 0 \<and> vBackend (view w) (routeKey v vport protocol) \<noteq> None
         then vBackend_update (\<lambda>_. (vBackend (view w))(routeKey v vport protocol := None)) (view w)
         else forgetVip v (view w))
    | (w', Some _) \<Rightarrow> view w' = view w"
  using assms by (rule remove_backend_run)

theorem remove_backend_effect_witness:
  "refView (fst (RemoveBackendVIP refOS refManager ''203.0.113.1'' 0 0 [] ''ipip'' [] emptyWorld))
   = forgetVip 0x017100CB (refView emptyWorld)"
proof -
  have "snd (RemoveBackendVIP refOS refManager ''203.0.113.1'' 0 0 [] ''ipip'' [] emptyWorld) = None"
    by code_simp
  moreover have "ipToUint32 ''203.0.113.1'' = Inr 0x017100CB" by code_simp
  ultimately show ?thesis
    using remove_backend_effect[where m = refManager and view = refView and os = refOS and vip = "''203.0.113.1''"
        and vport = 0 and protocol = 0 and backend = "[]" and tunnelType = "''ipip''" and pubkey = "[]"
        and w = emptyWorld] refObjs_contract refObjs_deletes refOS_frame
    by (auto split: prod.splits)
qed

end
