(* ===== verification/Fsm.thy ===== *)
theory Fsm
  imports GoFloat
begin

text \<open>
  The state machine of the mitigation engine (\<open>startAutoMitigation\<close> in \<open>main.go\<close>): the level each
  sensor calls for, the emergency trigger, the transition with its hold counter, and the policy a
  level stands for.  Level 0 is Normal, 1 to 4 are the defence levels (4 is Survival), 5 is
  Recovery.  Levels and the hold counter are Go \<open>int\<close>s that never become negative.
\<close>

record sensors =
  cpuPercent :: float64
  ramPercent :: float64
  queueDropRatio :: float64
  maxMapUsage :: float64
  maxRingPct :: u32

record fsm =
  currentLevel :: nat
  levelHoldTime :: nat

definition fsmInit :: fsm where
  "fsmInit = \<lparr>currentLevel = 0, levelHoldTime = 0\<rparr>"

subsection \<open>Levels of the sensors\<close>

definition levelCPU :: "float64 \<Rightarrow> nat" where
  "levelCPU x = (if x > 95 then 4 else if x > 90 then 3 else if x > 80 then 2
     else if x > 60 then 1 else 0)"

definition levelRAM :: "float64 \<Rightarrow> nat" where
  "levelRAM x = (if x > 95 then 4 else if x > 92 then 3 else if x > 85 then 2
     else if x > 70 then 1 else 0)"

definition levelQueue :: "float64 \<Rightarrow> nat" where
  "levelQueue x = (if x > fl (10 / 100) then 4 else if x > fl (5 / 100) then 3
     else if x > fl (3 / 100) then 2 else if x > fl (1 / 100) then 1 else 0)"

definition levelMap :: "float64 \<Rightarrow> nat" where
  "levelMap x = (if x > 95 then 4 else if x > 90 then 3 else if x > 80 then 2
     else if x > 60 then 1 else 0)"

definition levelRing :: "u32 \<Rightarrow> nat" where
  "levelRing x = (if x > 95 then 4 else if x > 90 then 3 else if x > 80 then 2
     else if x > 60 then 1 else 0)"

text \<open>The cascade of \<open>if level > targetLevel\<close> that computes the maximum.\<close>

definition raise_to :: "nat \<Rightarrow> nat \<Rightarrow> nat" where
  "raise_to target level = (if level > target then level else target)"

definition maxTarget :: "sensors \<Rightarrow> nat" where
  "maxTarget s =
     raise_to (raise_to (raise_to (raise_to (levelCPU (cpuPercent s)) (levelRAM (ramPercent s)))
       (levelQueue (queueDropRatio s))) (levelMap (maxMapUsage s))) (levelRing (maxRingPct s))"

definition emergency :: "sensors \<Rightarrow> bool" where
  "emergency s \<longleftrightarrow>
     cpuPercent s > 98 \<or> ramPercent s > 98 \<or> maxMapUsage s > 99 \<or> queueDropRatio s > fl (50 / 100)
     \<or> maxRingPct s > 98"

definition targetLevel :: "sensors \<Rightarrow> nat" where
  "targetLevel s = (if emergency s then 4 else maxTarget s)"

subsection \<open>The transition\<close>

definition fsmStep :: "sensors \<Rightarrow> fsm \<Rightarrow> fsm" where
  "fsmStep s f =
     (if emergency s \<and> currentLevel f \<noteq> 4 then \<lparr>currentLevel = 4, levelHoldTime = 30\<rparr>
      else if targetLevel s > currentLevel f then
        (if currentLevel f = 5 then \<lparr>currentLevel = targetLevel s, levelHoldTime = 5\<rparr>
         else if levelHoldTime f > 0 then f\<lparr>levelHoldTime := levelHoldTime f - 1\<rparr>
         else \<lparr>currentLevel = targetLevel s, levelHoldTime = 5\<rparr>)
      else if targetLevel s < currentLevel f then
        (if levelHoldTime f > 0 then f\<lparr>levelHoldTime := levelHoldTime f - 1\<rparr>
         else if currentLevel f > 0 \<and> currentLevel f \<le> 4 \<and> targetLevel s = 0 then
           \<lparr>currentLevel = 5, levelHoldTime = 60\<rparr>
         else if currentLevel f = 5 then \<lparr>currentLevel = 0, levelHoldTime = 0\<rparr>
         else \<lparr>currentLevel = targetLevel s, levelHoldTime = 30\<rparr>)
      else f)"

text \<open>\<open>metricSurvivalActivations.Inc()\<close> happens on the emergency branch only.\<close>

definition survivalActivated :: "sensors \<Rightarrow> fsm \<Rightarrow> bool" where
  "survivalActivated s f \<longleftrightarrow> emergency s \<and> currentLevel f \<noteq> 4"

fun fsmRun :: "sensors list \<Rightarrow> fsm \<Rightarrow> fsm" where
  "fsmRun [] f = f"
| "fsmRun (s # ss) f = fsmRun ss (fsmStep s f)"

subsection \<open>The policy of a level\<close>

definition ppsThreshold :: "nat \<Rightarrow> u64" where
  "ppsThreshold level = (if level = 1 then 3000 else if level = 2 then 1000 else if level = 3 then 500
     else if level = 4 then 300 else if level = 5 then 3000 else 5000)"

definition bpsThreshold :: "nat \<Rightarrow> u64" where
  "bpsThreshold level = (if level = 1 then 5 * 1024 * 1024 else if level = 2 then 2 * 1024 * 1024
     else if level = 3 then 1 * 1024 * 1024 else if level = 4 then 500 * 1024
     else if level = 5 then 5 * 1024 * 1024 else 10 * 1024 * 1024)"

text \<open>The TTL the switch statement assigns.\<close>

definition policyTTL :: "nat \<Rightarrow> u64" where
  "policyTTL level = (if level = 2 then 14400 else if level = 3 then 86400 else if level = 4 then 86400
     else if level = 5 then 3600 else 3600)"

text \<open>The TTL the sweep is called with, after the two later assignments.\<close>

definition effectiveTTL :: "nat \<Rightarrow> nat \<Rightarrow> u64" where
  "effectiveTTL level blacklistCount =
     (let ttl = policyTTL level;
          ttl1 = (if level \<ge> 3 then 300 else ttl)
      in if blacklistCount > 58982 then 300 else ttl1)"

definition levelScanBudget :: "nat \<Rightarrow> int" where
  "levelScanBudget level = (if level = 1 then 1000 else if level = 2 then 2500 else if level = 3 then 5000
     else if level = 4 then 10000 else if level = 5 then 2000 else 500)"

definition scanBudget :: "nat \<Rightarrow> float64 \<Rightarrow> int" where
  "scanBudget level cpu =
     (if cpu > 90 \<and> levelScanBudget level > 3000 then 3000 else levelScanBudget level)"

subsection \<open>Level scales\<close>

text \<open>
  What the five classifications have in common: level \<open>n\<close> is reached exactly when the reading is
  above the \<open>n\<close>-th threshold.  Monotonicity and the extreme levels follow.
\<close>

locale level_scale =
  fixes lvl :: "'x::linorder \<Rightarrow> nat"
    and threshold :: "nat \<Rightarrow> 'x"
  assumes reaches: "1 \<le> n \<Longrightarrow> n \<le> 4 \<Longrightarrow> n \<le> lvl x \<longleftrightarrow> threshold n < x"
    and bounded: "lvl x \<le> 4"
begin

lemma mono: "x \<le> y \<Longrightarrow> lvl x \<le> lvl y"
  using reaches[of "lvl x" x] reaches[of "lvl x" y] bounded[of x]
  by (cases "lvl x = 0") (auto simp: Suc_le_eq)

lemma calm_iff: "lvl x = 0 \<longleftrightarrow> x \<le> threshold 1"
  using reaches[of 1 x] by auto

lemma top_iff: "lvl x = 4 \<longleftrightarrow> threshold 4 < x"
  using reaches[of 4 x] bounded[of x] by auto

end

definition cpuThreshold :: "nat \<Rightarrow> float64" where
  "cpuThreshold n = (if n = 1 then 60 else if n = 2 then 80 else if n = 3 then 90 else 95)"

definition ramThreshold :: "nat \<Rightarrow> float64" where
  "ramThreshold n = (if n = 1 then 70 else if n = 2 then 85 else if n = 3 then 92 else 95)"

definition queueThreshold :: "nat \<Rightarrow> float64" where
  "queueThreshold n = (if n = 1 then fl (1 / 100) else if n = 2 then fl (3 / 100)
     else if n = 3 then fl (5 / 100) else fl (10 / 100))"

definition ringThreshold :: "nat \<Rightarrow> u32" where
  "ringThreshold n = (if n = 1 then 60 else if n = 2 then 80 else if n = 3 then 90 else 95)"

lemma one_to_four:
  fixes n :: nat
  assumes "1 \<le> n" "n \<le> 4"
  obtains "n = 1" | "n = 2" | "n = 3" | "n = 4"
  using assms by linarith

lemma queue_thresholds_ordered:
  "fl (1 / 100) \<le> fl (3 / 100)" "fl (3 / 100) \<le> fl (5 / 100)" "fl (5 / 100) \<le> fl (10 / 100)"
  by (rule fl_mono; simp)+

interpretation cpu_scale: level_scale levelCPU cpuThreshold
  by unfold_locales (auto simp: levelCPU_def cpuThreshold_def elim!: one_to_four)

interpretation ram_scale: level_scale levelRAM ramThreshold
  by unfold_locales (auto simp: levelRAM_def ramThreshold_def elim!: one_to_four)

interpretation queue_scale: level_scale levelQueue queueThreshold
  using queue_thresholds_ordered
  by unfold_locales (auto simp: levelQueue_def queueThreshold_def elim!: one_to_four)

interpretation map_scale: level_scale levelMap cpuThreshold
  by unfold_locales (auto simp: levelMap_def cpuThreshold_def elim!: one_to_four)

interpretation ring_scale: level_scale levelRing ringThreshold
  by unfold_locales
     (auto simp: levelRing_def ringThreshold_def word_less_nat_alt elim!: one_to_four)

lemma raise_to_max [simp]: "raise_to a b = max a b"
  by (simp add: raise_to_def max_def)

lemma maxTarget_le_4: "maxTarget s \<le> 4"
  by (simp add: maxTarget_def cpu_scale.bounded ram_scale.bounded queue_scale.bounded
      map_scale.bounded ring_scale.bounded)

lemma targetLevel_le_4: "targetLevel s \<le> 4"
  by (simp add: targetLevel_def maxTarget_le_4)

text \<open>Whether some sensor reads above its \<open>n\<close>-th threshold.\<close>

definition calledFor :: "nat \<Rightarrow> sensors \<Rightarrow> bool" where
  "calledFor n s \<longleftrightarrow>
     cpuThreshold n < cpuPercent s \<or> ramThreshold n < ramPercent s \<or>
     queueThreshold n < queueDropRatio s \<or> cpuThreshold n < maxMapUsage s \<or>
     ringThreshold n < maxRingPct s"

lemma maxTarget_ge_iff: "1 \<le> n \<Longrightarrow> n \<le> 4 \<Longrightarrow> n \<le> maxTarget s \<longleftrightarrow> calledFor n s"
  by (simp add: maxTarget_def calledFor_def le_max_iff_disj cpu_scale.reaches ram_scale.reaches
      queue_scale.reaches map_scale.reaches ring_scale.reaches disj_assoc)

definition worse :: "sensors \<Rightarrow> sensors \<Rightarrow> bool" where
  "worse s t \<longleftrightarrow> cpuPercent s \<le> cpuPercent t \<and> ramPercent s \<le> ramPercent t \<and>
     queueDropRatio s \<le> queueDropRatio t \<and> maxMapUsage s \<le> maxMapUsage t \<and>
     maxRingPct s \<le> maxRingPct t"

lemma worse_emergency: "worse s t \<Longrightarrow> emergency s \<Longrightarrow> emergency t"
  by (auto simp: worse_def emergency_def intro: less_le_trans)

lemma worse_maxTarget: "worse s t \<Longrightarrow> maxTarget s \<le> maxTarget t"
  unfolding maxTarget_def worse_def raise_to_max
  by (intro max.mono cpu_scale.mono ram_scale.mono queue_scale.mono map_scale.mono ring_scale.mono)
     simp_all

subsection \<open>The transition: invariant, survival, recovery\<close>

definition fsm_inv :: "fsm \<Rightarrow> bool" where
  "fsm_inv f \<longleftrightarrow> currentLevel f \<le> 5 \<and>
     (currentLevel f = 0 \<longrightarrow> levelHoldTime f = 0) \<and>
     (1 \<le> currentLevel f \<and> currentLevel f \<le> 4 \<longrightarrow> levelHoldTime f \<le> 30) \<and>
     (currentLevel f = 5 \<longrightarrow> levelHoldTime f \<le> 60)"

lemma fsm_inv_init: "fsm_inv fsmInit"
  by (simp add: fsm_inv_def fsmInit_def)

lemma fsmStep_inv: "fsm_inv f \<Longrightarrow> fsm_inv (fsmStep s f)"
  using targetLevel_le_4[of s] unfolding fsm_inv_def fsmStep_def by auto

lemma fsmRun_inv: "fsm_inv f \<Longrightarrow> fsm_inv (fsmRun ss f)"
  by (induction ss arbitrary: f) (simp_all add: fsmStep_inv)

lemma fsmRun_append: "fsmRun (xs @ ys) f = fsmRun ys (fsmRun xs f)"
  by (induction xs arbitrary: f) simp_all

lemma survival_hold_step:
  "currentLevel f = 4 \<Longrightarrow> levelHoldTime f > 0 \<Longrightarrow>
   currentLevel (fsmStep s f) = 4 \<and> levelHoldTime f \<le> Suc (levelHoldTime (fsmStep s f))"
  using targetLevel_le_4[of s] unfolding fsmStep_def by auto

lemma survival_hold_run:
  "currentLevel f = 4 \<Longrightarrow> length ss \<le> levelHoldTime f \<Longrightarrow> currentLevel (fsmRun ss f) = 4"
proof (induction ss arbitrary: f)
  case (Cons s ss)
  then show ?case using survival_hold_step[of f s] by (cases "levelHoldTime f") auto
qed simp

text \<open>In Recovery without an emergency the sensors do not matter.\<close>

lemma recovery_step:
  "currentLevel f = 5 \<Longrightarrow> \<not> emergency s \<Longrightarrow>
   fsmStep s f = (if levelHoldTime f > 0 then f\<lparr>levelHoldTime := levelHoldTime f - 1\<rparr>
                  else \<lparr>currentLevel = 0, levelHoldTime = 0\<rparr>)"
  using targetLevel_le_4[of s] unfolding fsmStep_def by auto

lemma recovery_run:
  "currentLevel f = 5 \<Longrightarrow> list_all (\<lambda>s. \<not> emergency s) ss \<Longrightarrow> length ss \<le> levelHoldTime f \<Longrightarrow>
   fsmRun ss f = f\<lparr>levelHoldTime := levelHoldTime f - length ss\<rparr>"
proof (induction ss arbitrary: f)
  case (Cons s ss)
  then show ?case by (simp add: recovery_step)
qed simp

text \<open>How long a calm system takes to return to Normal.\<close>

definition calmTime :: "fsm \<Rightarrow> nat" where
  "calmTime f = (if currentLevel f = 0 then 0 else if currentLevel f = 5 then levelHoldTime f + 1
     else levelHoldTime f + 62)"

lemma calm_not_emergency: "targetLevel s = 0 \<Longrightarrow> \<not> emergency s"
  by (auto simp: targetLevel_def)

lemma calmTime_step:
  "fsm_inv f \<Longrightarrow> targetLevel s = 0 \<Longrightarrow> calmTime (fsmStep s f) = calmTime f - 1"
  using calm_not_emergency[of s] unfolding fsm_inv_def calmTime_def fsmStep_def by auto

lemma calmTime_run:
  "fsm_inv f \<Longrightarrow> list_all (\<lambda>s. targetLevel s = 0) ss \<Longrightarrow>
   calmTime (fsmRun ss f) = calmTime f - length ss"
proof (induction ss arbitrary: f)
  case (Cons s ss)
  then show ?case by (simp add: calmTime_step fsmStep_inv)
qed simp

lemma calmTime_bound: "fsm_inv f \<Longrightarrow> calmTime f \<le> 92"
  by (auto simp: fsm_inv_def calmTime_def)

lemma calmTime_0: "fsm_inv f \<Longrightarrow> calmTime f = 0 \<longleftrightarrow> f = fsmInit"
  by (cases f) (auto simp: fsm_inv_def calmTime_def fsmInit_def)

subsection \<open>The phases of the machine\<close>

text \<open>
  The abstract machine: three phases and the transitions between them.  A defence ends only
  through Recovery, and only an emergency leads from Recovery back into defence.
\<close>

datatype phase = Normal | Defending | Recovering

inductive phase_step :: "bool \<Rightarrow> phase \<Rightarrow> phase \<Rightarrow> bool" where
  stay: "phase_step e p p"
| attack: "phase_step e Normal Defending"
| calm_down: "phase_step e Defending Recovering"
| recovered: "phase_step e Recovering Normal"
| relapse: "phase_step True Recovering Defending"

inductive_simps phase_step_Normal [simp]: "phase_step e Normal p"
inductive_simps phase_step_Defending [simp]: "phase_step e Defending p"
inductive_simps phase_step_Recovering [simp]: "phase_step e Recovering p"

definition phaseOf :: "fsm \<Rightarrow> phase" where
  "phaseOf f = (if currentLevel f = 0 then Normal else if currentLevel f \<le> 4 then Defending
     else Recovering)"

lemma fsmStep_phase: "fsm_inv f \<Longrightarrow> phase_step (emergency s) (phaseOf f) (phaseOf (fsmStep s f))"
  using targetLevel_le_4[of s]
  unfolding fsm_inv_def phaseOf_def fsmStep_def by auto

subsection \<open>Steady load\<close>

text \<open>
  An emergency reading is above the fourth threshold of its sensor, so the emergency trigger never
  changes the target level; it only bypasses the hold counter.
\<close>

lemma fl_emergency_queue: "fl (10 / 100) \<le> fl (50 / 100)"
  by (rule fl_mono) simp

lemma ring_emergency: "98 < x \<Longrightarrow> 95 < x" for x :: u32
  by (simp add: word_less_nat_alt)

lemma emergency_calledFor: "emergency s \<Longrightarrow> calledFor 4 s"
  using fl_emergency_queue ring_emergency[of "maxRingPct s"]
  by (auto simp: emergency_def calledFor_def cpuThreshold_def ramThreshold_def queueThreshold_def
      ringThreshold_def)

lemma targetLevel_maxTarget: "targetLevel s = maxTarget s"
  using maxTarget_ge_iff[of 4 s] maxTarget_le_4[of s] emergency_calledFor[of s]
  by (auto simp: targetLevel_def)

text \<open>How many ticks of the same target level \<open>t\<close> bring the machine to it.\<close>

definition settleTime :: "nat \<Rightarrow> fsm \<Rightarrow> nat" where
  "settleTime t f = (if currentLevel f = t then 0
     else if currentLevel f = 5 then levelHoldTime f + 2 else levelHoldTime f + 1)"

lemma emergency_target: "emergency s \<Longrightarrow> targetLevel s = 4"
  by (simp add: targetLevel_def)

lemma settleTime_step:
  "fsm_inv f \<Longrightarrow> targetLevel s = t \<Longrightarrow> 1 \<le> t \<Longrightarrow> settleTime t (fsmStep s f) \<le> settleTime t f - 1"
  using targetLevel_le_4[of s] emergency_target[of s]
  unfolding fsm_inv_def settleTime_def fsmStep_def by auto

lemma settleTime_run:
  "fsm_inv f \<Longrightarrow> list_all (\<lambda>s. targetLevel s = t) ss \<Longrightarrow> 1 \<le> t \<Longrightarrow>
   settleTime t (fsmRun ss f) \<le> settleTime t f - length ss"
proof (induction ss arbitrary: f)
  case (Cons s ss)
  then have "settleTime t (fsmRun ss (fsmStep s f)) \<le> settleTime t (fsmStep s f) - length ss"
    by (simp add: fsmStep_inv)
  also have "\<dots> \<le> settleTime t f - 1 - length ss"
    using settleTime_step[of f s t] Cons.prems by simp
  finally show ?case by simp
qed simp

lemma settleTime_bound: "fsm_inv f \<Longrightarrow> settleTime t f \<le> 62"
  by (auto simp: fsm_inv_def settleTime_def)

lemma settleTime_0: "settleTime t f = 0 \<longleftrightarrow> currentLevel f = t"
  by (simp add: settleTime_def)

subsection \<open>Sample readings\<close>

definition calmSensors :: sensors where
  "calmSensors = \<lparr>cpuPercent = 12, ramPercent = 40, queueDropRatio = 0, maxMapUsage = 0, maxRingPct = 3\<rparr>"

definition busySensors :: sensors where
  "busySensors = \<lparr>cpuPercent = 91, ramPercent = 71, queueDropRatio = 0, maxMapUsage = 0, maxRingPct = 3\<rparr>"

definition floodSensors :: sensors where
  "floodSensors = \<lparr>cpuPercent = 99, ramPercent = 71, queueDropRatio = 0, maxMapUsage = 0, maxRingPct = 3\<rparr>"

lemma sample_levels:
  "targetLevel calmSensors = 0" "targetLevel busySensors = 3" "targetLevel floodSensors = 4"
  by code_simp+

lemma sample_emergencies:
  "\<not> emergency calmSensors" "\<not> emergency busySensors" "emergency floodSensors"
  by code_simp+

subsection \<open>Properties\<close>

text \<open>
  Whatever the sensors read, from the initial state the machine stays within levels 0 to 5 and
  the hold counter within the hold time of its level: zero in Normal, at most 30 in a defence level,
  at most 60 in Recovery.
\<close>

theorem fsm_run_invariant: "fsm_inv (fsmRun ss fsmInit)"
  by (rule fsmRun_inv[OF fsm_inv_init])

text \<open>
  The target level is the highest level some sensor calls for; the emergency trigger never
  raises it.
\<close>

theorem target_level_exact:
  "targetLevel s = (if calledFor 4 s then 4 else if calledFor 3 s then 3
     else if calledFor 2 s then 2 else if calledFor 1 s then 1 else 0)"
  using maxTarget_ge_iff[of 4 s] maxTarget_ge_iff[of 3 s] maxTarget_ge_iff[of 2 s]
    maxTarget_ge_iff[of 1 s] maxTarget_le_4[of s]
  unfolding targetLevel_maxTarget by auto

text \<open>
  C15: An emergency outside level 4 enters Survival at once, and Survival is held for the next 30
  ticks whatever the sensors read then.
\<close>

theorem emergency_holds_survival:
  assumes "emergency s" "currentLevel f \<noteq> 4" "length ss \<le> 30"
  shows "currentLevel (fsmRun (s # ss) f) = 4"
  using assms survival_hold_run[of "\<lparr>currentLevel = 4, levelHoldTime = 30\<rparr>" ss]
  by (simp add: fsmStep_def)

theorem emergency_holds_survival_witness:
  "currentLevel (fsmRun (floodSensors # replicate 30 calmSensors) fsmInit) = 4"
  by (rule emergency_holds_survival) (simp_all add: sample_emergencies fsmInit_def)

text \<open>
  Recovery runs its full countdown whatever load the sensors report, short of an emergency: the
  level stays 5 while the counter runs and the machine is in Normal one tick after it reaches zero.
  A renewed attack that is no emergency does not cancel Recovery.
\<close>

theorem recovery_ignores_load:
  assumes "currentLevel f = 5" "list_all (\<lambda>s. \<not> emergency s) ss" "\<not> emergency s"
    "length ss = levelHoldTime f"
  shows "fsmRun (ss @ [s]) f = fsmInit \<and>
     (\<forall>n. n \<le> length ss \<longrightarrow> currentLevel (fsmRun (take n ss) f) = 5)"
proof (intro conjI allI impI)
  show "fsmRun (ss @ [s]) f = fsmInit"
    using assms by (simp add: fsmRun_append recovery_run recovery_step fsmInit_def)
next
  fix n
  have "list_all (\<lambda>s. \<not> emergency s) (take n ss)"
    using assms(2) by (auto simp: list_all_iff dest: in_set_takeD)
  then show "n \<le> length ss \<Longrightarrow> currentLevel (fsmRun (take n ss) f) = 5"
    using assms by (simp add: recovery_run)
qed

theorem recovery_ignores_load_witness:
  "fsmRun (replicate 60 busySensors @ [busySensors]) \<lparr>currentLevel = 5, levelHoldTime = 60\<rparr> = fsmInit"
  using recovery_ignores_load[of "\<lparr>currentLevel = 5, levelHoldTime = 60\<rparr>" "replicate 60 busySensors"
      busySensors]
  by (simp add: sample_emergencies list_all_iff)

text \<open>
  C20: A calm system is back in Normal after exactly \<open>calmTime\<close> ticks, and never needs more than 92:
  the rest of the hold, the entry into Recovery and its 60 ticks.
\<close>

theorem calm_returns_to_normal:
  assumes "fsm_inv f" "list_all (\<lambda>s. targetLevel s = 0) ss"
  shows "(fsmRun ss f = fsmInit \<longleftrightarrow> calmTime f \<le> length ss) \<and> calmTime f \<le> 92"
proof -
  have "calmTime (fsmRun ss f) = 0 \<longleftrightarrow> calmTime f \<le> length ss" using calmTime_run[OF assms] by simp
  with calmTime_0[OF fsmRun_inv[OF assms(1)]] calmTime_bound[OF assms(1)] show ?thesis by simp
qed

theorem calm_returns_to_normal_witness:
  "fsmRun (replicate 92 calmSensors) \<lparr>currentLevel = 4, levelHoldTime = 30\<rparr> = fsmInit"
  using calm_returns_to_normal[of "\<lparr>currentLevel = 4, levelHoldTime = 30\<rparr>" "replicate 92 calmSensors"]
  by (simp add: fsm_inv_def calmTime_def sample_levels list_all_iff)

text \<open>
  C19: Under a steady load the machine reaches the level the load calls for, from every state it can
  be in, within 62 ticks, and then stays there while the load lasts.
\<close>

theorem steady_load_settles:
  assumes "fsm_inv f" "list_all (\<lambda>s. targetLevel s = t) ss" "1 \<le> t" "62 \<le> length ss"
  shows "currentLevel (fsmRun ss f) = t"
  using settleTime_run[OF assms(1-3)] settleTime_bound[OF assms(1), of t] assms(4)
  by (simp add: settleTime_0[symmetric])

theorem steady_load_settles_witness:
  "currentLevel (fsmRun (replicate 62 busySensors) \<lparr>currentLevel = 5, levelHoldTime = 60\<rparr>) = 3"
  by (rule steady_load_settles) (simp_all add: fsm_inv_def sample_levels list_all_iff)

text \<open>
  C2: Every step of the machine from a reachable state is a step of the phase machine: a defence
  ends only through Recovery, and only an emergency leads from Recovery back into defence.
\<close>

theorem fsm_refines_phases:
  "phase_step (emergency s) (phaseOf (fsmRun ss fsmInit)) (phaseOf (fsmRun (ss @ [s]) fsmInit))"
  using fsmStep_phase[OF fsmRun_inv[OF fsm_inv_init]] by (simp add: fsmRun_append)

text \<open>
  From each level to the next higher one, up to Survival, the packet and byte thresholds
  strictly fall and the number of sources scanned per tick strictly rises.
\<close>

theorem policy_tightens:
  assumes "i < j" "j \<le> 4"
  shows "ppsThreshold j < ppsThreshold i \<and> bpsThreshold j < bpsThreshold i
     \<and> levelScanBudget i < levelScanBudget j"
proof -
  consider "j = 1" "i = 0" | "j = 2" "i \<in> {0, 1}" | "j = 3" "i \<in> {0, 1, 2}" | "j = 4" "i \<in> {0, 1, 2, 3}"
    using assms by force
  then show ?thesis
    by cases (auto simp: ppsThreshold_def bpsThreshold_def levelScanBudget_def word_less_nat_alt)
qed

theorem policy_tightens_witness: "ppsThreshold 4 < ppsThreshold 1"
  using policy_tightens[of 1 4] by simp

text \<open>
  The expiry the sweep is run with is never the 24 hours that levels 3 and 4 assign: it is five
  minutes from level 3 on (Recovery included) and with a nearly full blacklist, four hours exactly
  in level 2, and one hour otherwise.
\<close>

theorem effective_ttl_cases:
  "effectiveTTL level n = (if 3 \<le> level \<or> 58982 < n then 300 else if level = 2 then 14400 else 3600)"
  by (auto simp: effectiveTTL_def policyTTL_def)

end
