(* ===== verification/SysStats.thy ===== *)
theory SysStats
  imports Backend GoFloat Fsm
begin

text \<open>
  The sensors of the mitigation engine (\<open>main.go\<close>): the readers of \<open>/proc/meminfo\<close>, \<open>/proc/stat\<close>
  and the interface statistics, and the CPU usage between two samples.  All counters are \<open>uint64\<close>
  and wrap around.
\<close>

record cpuStats =
  user :: u64
  nice :: u64
  system :: u64
  idle :: u64
  iowait :: u64
  irq :: u64
  softirq :: u64
  steal :: u64
  guest :: u64
  guestnice :: u64

subsection \<open>/proc/meminfo\<close>

record memInfo =
  memTotal :: u64
  memFree :: u64
  buffers :: u64
  cached :: u64
  sReclaimable :: u64

definition memInfo0 :: memInfo where
  "memInfo0 = \<lparr>memTotal = 0, memFree = 0, buffers = 0, cached = 0, sReclaimable = 0\<rparr>"

definition memLine :: "memInfo \<Rightarrow> string \<Rightarrow> memInfo" where
  "memLine v line =
     (if HasPrefix line ''MemTotal:'' then
        v\<lparr>memTotal := sscanfKey ''MemTotal:'' line (memTotal v)\<rparr>
      else if HasPrefix line ''MemFree:'' then
        v\<lparr>memFree := sscanfKey ''MemFree:'' line (memFree v)\<rparr>
      else if HasPrefix line ''Buffers:'' then
        v\<lparr>buffers := sscanfKey ''Buffers:'' line (buffers v)\<rparr>
      else if HasPrefix line ''Cached:'' then
        v\<lparr>cached := sscanfKey ''Cached:'' line (cached v)\<rparr>
      else if HasPrefix line ''SReclaimable:'' then
        v\<lparr>sReclaimable := sscanfKey ''SReclaimable:'' line (sReclaimable v)\<rparr>
      else v)"

definition parseMemInfo :: "string \<Rightarrow> memInfo" where
  "parseMemInfo data = foldl memLine memInfo0 (splitOn newline data)"

definition usedKB :: "memInfo \<Rightarrow> u64" where
  "usedKB v = memTotal v - memFree v - buffers v - cached v - sReclaimable v"

definition getMemoryStats :: "'w goos \<Rightarrow> 'w \<Rightarrow> go_error + float64" where
  "getMemoryStats os w =
     (case ReadFile os ''/proc/meminfo'' w of
        None \<Rightarrow> Inl ErrReadFile
      | Some data \<Rightarrow>
          let v = parseMemInfo data in
          (if memTotal v = 0 then Inl ErrNoMemTotal
           else Inr (percent_of (usedKB v) (memTotal v))))"

subsection \<open>/proc/stat\<close>

fun parseCpuVals :: "string list \<Rightarrow> go_error + u64 list" where
  "parseCpuVals [] = Inr []"
| "parseCpuVals (f # fs) =
     (case ParseUint f 64 of
        None \<Rightarrow> Inl (ErrParseUint f)
      | Some v \<Rightarrow>
          (case parseCpuVals fs of Inl err \<Rightarrow> Inl err | Inr vs \<Rightarrow> Inr (of_int v # vs)))"

text \<open>\<open>vals\<close> is an array of ten zeros of which the parsed fields fill the front.\<close>

definition cpuStatsOf :: "u64 list \<Rightarrow> cpuStats" where
  "cpuStatsOf vs =
     (let vals = vs @ replicate (10 - length vs) 0 in
      \<lparr>user = vals ! 0, nice = vals ! 1, system = vals ! 2, idle = vals ! 3, iowait = vals ! 4,
       irq = vals ! 5, softirq = vals ! 6, steal = vals ! 7, guest = vals ! 8,
       guestnice = vals ! 9\<rparr>)"

fun cpuLines :: "string list \<Rightarrow> go_error + cpuStats" where
  "cpuLines [] = Inl ErrNoCpuLine"
| "cpuLines (line # lines) =
     (let fields = Fields line in
      if length fields > 0 \<and> hd fields = ''cpu'' then
        (if length fields < 8 then Inl ErrCpuFields
         else case parseCpuVals (take 10 (tl fields)) of
                Inl err \<Rightarrow> Inl err
              | Inr vs \<Rightarrow> Inr (cpuStatsOf vs))
      else cpuLines lines)"

definition getCPUStats :: "'w goos \<Rightarrow> 'w \<Rightarrow> go_error + cpuStats" where
  "getCPUStats os w =
     (case ReadFile os ''/proc/stat'' w of
        None \<Rightarrow> Inl ErrReadFile
      | Some data \<Rightarrow> cpuLines (splitOn newline data))"

subsection \<open>Interface statistics\<close>

definition netStatPath :: "string \<Rightarrow> string \<Rightarrow> string" where
  "netStatPath iface stat = ''/sys/class/net/'' @ iface @ ''/statistics/'' @ stat"

definition scanCounter :: "string \<Rightarrow> u64" where
  "scanCounter data = (case scanUint64 (TrimSpace data) of None \<Rightarrow> 0 | Some n \<Rightarrow> n)"

definition getQueueStats :: "'w goos \<Rightarrow> string \<Rightarrow> 'w \<Rightarrow> go_error + u64 \<times> u64" where
  "getQueueStats os iface w =
     (case ReadFile os (netStatPath iface ''rx_dropped'') w of
        None \<Rightarrow> Inl ErrReadFile
      | Some dropData \<Rightarrow>
          (case ReadFile os (netStatPath iface ''rx_packets'') w of
             None \<Rightarrow> Inl ErrReadFile
           | Some pktData \<Rightarrow> Inr (scanCounter dropData, scanCounter pktData)))"

subsection \<open>CPU usage\<close>

definition idleTime :: "cpuStats \<Rightarrow> u64" where
  "idleTime c = idle c + iowait c"

definition nonIdleTime :: "cpuStats \<Rightarrow> u64" where
  "nonIdleTime c = user c + nice c + system c + irq c + softirq c + steal c"

definition calculateCPUUsage :: "cpuStats \<Rightarrow> cpuStats \<Rightarrow> float64" where
  "calculateCPUUsage prev cur =
     (let prevTotal = idleTime prev + nonIdleTime prev;
          currTotal = idleTime cur + nonIdleTime cur;
          totalDiff = currTotal - prevTotal
      in if totalDiff = 0 then 0
         else let idleDiff = idleTime cur - idleTime prev in
           percent_of (totalDiff - idleDiff) totalDiff)"

subsection \<open>Reading what the kernel prints\<close>

lemma leadingSpace_nonspace:
  "c \<notin> hd ` set go_spaces \<Longrightarrow> leadingSpace (c # cs) = None"
proof -
  assume "c \<notin> hd ` set go_spaces"
  then have "\<forall>p \<in> set go_spaces. \<not> prefix p (c # cs)"
    using go_spaces_nonempty by (auto simp: prefix_Cons image_iff)
  then show ?thesis by (auto simp: leadingSpace_def find_None_iff)
qed

lemma digit_no_space: "digitVal c \<noteq> None \<Longrightarrow> c \<notin> hd ` set go_spaces"
  by (auto simp: go_spaces_def digitVal_def)

lemma leadingSpace_blank [simp]: "leadingSpace (CHR '' '' # s) = Some '' ''"
  by (simp add: leadingSpace_def go_spaces_def)

lemma trimLeftSpace_blanks: "trimLeftSpace (replicate n (CHR '' '') @ s) = trimLeftSpace s"
  by (induction n) (simp_all add: trimLeftSpace.simps[of "CHR '' '' # _"])

lemma itoa_Cons: "0 \<le> n \<Longrightarrow> \<exists>c cs. itoa n = c # cs \<and> digitVal c \<noteq> None"
  using itoa_digitVal[of n "hd (itoa n)"] itoa_not_Nil[of n]
  by (metis hd_in_set list.collapse)

lemma trimLeftSpace_number: "0 \<le> n \<Longrightarrow> trimLeftSpace (itoa n @ s) = itoa n @ s"
proof -
  assume "0 \<le> n"
  then obtain c cs where c: "itoa n = c # cs" "digitVal c \<noteq> None" using itoa_Cons by blast
  then have "leadingSpace (c # cs @ s) = None" by (intro leadingSpace_nonspace digit_no_space)
  with c show ?thesis by (subst trimLeftSpace.simps) simp
qed

lemma scanUint64_number:
  assumes "0 \<le> n" "n < 2 ^ 64" "digitVal d = None"
  shows "scanUint64 (replicate k (CHR '' '') @ itoa n @ d # s) = Some (of_int n)"
proof -
  have "\<forall>x \<in> set (itoa n). digitVal x \<noteq> None" using assms(1) itoa_digitVal by blast
  then have "scanNumber (itoa n @ d # s) = itoa n"
    using assms(3) unfolding scanNumber_def by (subst takeWhile_append2) auto
  with assms show ?thesis
    by (simp add: scanUint64_def trimLeftSpace_blanks trimLeftSpace_number ParseUint_itoa)
qed

text \<open>One line of \<open>/proc/meminfo\<close>.\<close>

definition memText :: "nat \<Rightarrow> string \<times> int \<Rightarrow> string" where
  "memText blanks kn = fst kn @ CHR '':'' # replicate (Suc blanks) (CHR '' '') @ itoa (snd kn) @ '' kB''"

lemma HasPrefix_key:
  "CHR '':'' \<notin> set k \<Longrightarrow> CHR '':'' \<notin> set k' \<Longrightarrow> HasPrefix (k @ CHR '':'' # r) (k' @ [CHR '':'']) \<longleftrightarrow> k = k'"
proof (induction k arbitrary: k')
  case Nil
  then show ?case by (cases k') (auto simp: HasPrefix_def)
next
  case (Cons c k)
  then show ?case by (cases k') (auto simp: HasPrefix_def)
qed

lemma sscanfKey_memText:
  assumes "0 \<le> n" "n < 2 ^ 64"
  shows "sscanfKey (k @ [CHR '':'']) (memText b (k, n)) v = of_int n"
proof -
  have "HasPrefix (k @ CHR '':'' # r) (k @ [CHR '':''])" for r by (simp add: HasPrefix_def prefix_def)
  moreover have "digitVal (CHR '' '') = None" by code_simp
  ultimately show ?thesis
    using scanUint64_number[OF assms, of "CHR '' ''" "Suc b" "''kB''"]
    by (simp add: sscanfKey_def memText_def)
qed

definition memSet :: "memInfo \<Rightarrow> string \<times> int \<Rightarrow> memInfo" where
  "memSet v kn = (let n = of_int (snd kn) in
     if fst kn = ''MemTotal'' then v\<lparr>memTotal := n\<rparr> else if fst kn = ''MemFree'' then v\<lparr>memFree := n\<rparr>
     else if fst kn = ''Buffers'' then v\<lparr>buffers := n\<rparr> else if fst kn = ''Cached'' then v\<lparr>cached := n\<rparr>
     else if fst kn = ''SReclaimable'' then v\<lparr>sReclaimable := n\<rparr> else v)"

definition mem_entry_ok :: "string \<times> int \<Rightarrow> bool" where
  "mem_entry_ok kn \<longleftrightarrow> CHR '':'' \<notin> set (fst kn) \<and> newline \<notin> set (fst kn) \<and> 0 \<le> snd kn \<and> snd kn < 2 ^ 64"

lemma memLine_memText:
  assumes "mem_entry_ok kn"
  shows "memLine v (memText b kn) = memSet v kn"
proof -
  obtain k n where kn: "kn = (k, n)" by fastforce
  have pre: "HasPrefix (memText b kn) (k' @ [CHR '':'']) \<longleftrightarrow> k = k'" if "CHR '':'' \<notin> set k'" for k'
    using assms that unfolding kn memText_def by (simp add: mem_entry_ok_def HasPrefix_key)
  have scan: "sscanfKey (k @ [CHR '':'']) (memText b kn) x = of_int n" for x
    using assms unfolding kn by (intro sscanfKey_memText) (simp_all add: mem_entry_ok_def)
  have p: "HasPrefix (memText b kn) ''MemTotal:'' \<longleftrightarrow> k = ''MemTotal''"
    "HasPrefix (memText b kn) ''MemFree:'' \<longleftrightarrow> k = ''MemFree''"
    "HasPrefix (memText b kn) ''Buffers:'' \<longleftrightarrow> k = ''Buffers''"
    "HasPrefix (memText b kn) ''Cached:'' \<longleftrightarrow> k = ''Cached''"
    "HasPrefix (memText b kn) ''SReclaimable:'' \<longleftrightarrow> k = ''SReclaimable''"
    using pre[of "''MemTotal''"] pre[of "''MemFree''"] pre[of "''Buffers''"] pre[of "''Cached''"]
      pre[of "''SReclaimable''"] by simp_all
  have q: "k = ''MemTotal'' \<Longrightarrow> sscanfKey ''MemTotal:'' (memText b kn) x = of_int n"
    "k = ''MemFree'' \<Longrightarrow> sscanfKey ''MemFree:'' (memText b kn) x = of_int n"
    "k = ''Buffers'' \<Longrightarrow> sscanfKey ''Buffers:'' (memText b kn) x = of_int n"
    "k = ''Cached'' \<Longrightarrow> sscanfKey ''Cached:'' (memText b kn) x = of_int n"
    "k = ''SReclaimable'' \<Longrightarrow> sscanfKey ''SReclaimable:'' (memText b kn) x = of_int n" for x
    using scan by auto
  show ?thesis
    unfolding memLine_def memSet_def p Let_def using q kn by simp
qed


definition memKeys :: "string set" where
  "memKeys = {''MemTotal'', ''MemFree'', ''Buffers'', ''Cached'', ''SReclaimable''}"

definition memField :: "string \<Rightarrow> memInfo \<Rightarrow> u64" where
  "memField k v = (if k = ''MemTotal'' then memTotal v else if k = ''MemFree'' then memFree v
     else if k = ''Buffers'' then buffers v else if k = ''Cached'' then cached v else sReclaimable v)"

lemma memField_memSet:
  "k \<in> memKeys \<Longrightarrow> memField k (memSet v kn) = (if fst kn = k then of_int (snd kn) else memField k v)"
  by (auto simp: memKeys_def memField_def memSet_def Let_def)

lemma memField_foldl:
  "k \<in> memKeys \<Longrightarrow> distinct (map fst es) \<Longrightarrow> memField k (foldl memSet v es) =
     (case map_of es k of None \<Rightarrow> memField k v | Some n \<Rightarrow> of_int n)"
proof (induction es arbitrary: v)
  case (Cons e es)
  then have "map_of es (fst e) = None" by (simp add: map_of_eq_None_iff)
  with Cons show ?case by (cases e) (auto simp: memField_memSet split: option.splits)
qed simp

lemma memText_no_newline: "mem_entry_ok kn \<Longrightarrow> newline \<notin> set (memText b kn)"
proof -
  assume ok: "mem_entry_ok kn"
  then have "newline \<notin> set (itoa (snd kn))"
    using itoa_digitVal[of "snd kn" newline] by (auto simp: mem_entry_ok_def newline_def digitVal_def)
  with ok show ?thesis by (auto simp: memText_def mem_entry_ok_def newline_def)
qed

lemma memLine_empty: "memLine v [] = v"
  by (simp add: memLine_def HasPrefix_def)

lemma memInfo_lines:
  assumes "list_all mem_entry_ok es"
  shows "parseMemInfo (joinWith newline (map (memText b) es @ [[]])) = foldl memSet memInfo0 es"
proof -
  have "splitOn newline (joinWith newline (map (memText b) es @ [[]])) = map (memText b) es @ [[]]"
    using assms memText_no_newline by (intro splitOn_joinWith) (auto simp: list_all_iff)
  moreover have "foldl memLine v (map (memText b) es @ [[]]) = foldl memSet v es" for v
    using assms by (induction es arbitrary: v) (simp_all add: memLine_memText memLine_empty)
  ultimately show ?thesis by (simp add: parseMemInfo_def)
qed

text \<open>The first line of \<open>/proc/stat\<close>.\<close>

definition cpuText :: "int list \<Rightarrow> string" where
  "cpuText vs = ''cpu '' @ concat (map (\<lambda>v. CHR '' '' # itoa v) vs)"

lemma fieldsFrom_blank: "fieldsFrom (CHR '' '' # s) cur = (if cur = [] then [] else [cur]) @ fieldsFrom s []"
  by (subst fieldsFrom.simps) simp

lemma fieldsFrom_word:
  "\<forall>c \<in> set w. c \<notin> hd ` set go_spaces \<Longrightarrow> fieldsFrom (w @ s) cur = fieldsFrom s (cur @ w)"
proof (induction w arbitrary: cur)
  case (Cons c w)
  then have "leadingSpace (c # w @ s) = None" by (intro leadingSpace_nonspace) simp
  then have "fieldsFrom ((c # w) @ s) cur = fieldsFrom (w @ s) (cur @ [c])"
    by (subst fieldsFrom.simps) simp
  with Cons show ?case by simp
qed simp

lemma fieldsFrom_numbers:
  "list_all (\<lambda>v. 0 \<le> v) vs \<Longrightarrow> fieldsFrom (concat (map (\<lambda>v. CHR '' '' # itoa v) vs)) cur
     = (if cur = [] then [] else [cur]) @ map itoa vs"
proof (induction vs arbitrary: cur)
  case Nil
  have "leadingSpace [] = None" by code_simp
  then show ?case by (subst fieldsFrom.simps) simp
next
  case (Cons v vs)
  then have "\<forall>c \<in> set (itoa v). c \<notin> hd ` set go_spaces"
    using itoa_digitVal[of v] digit_no_space by auto
  with Cons show ?case by (simp add: fieldsFrom_blank fieldsFrom_word)
qed

lemma Fields_cpuText: "list_all (\<lambda>v. 0 \<le> v) vs \<Longrightarrow> Fields (cpuText vs) = ''cpu'' # map itoa vs"
proof -
  have "\<forall>c \<in> set ''cpu''. c \<notin> hd ` set go_spaces" by (simp add: go_spaces_def)
  then have "fieldsFrom (''cpu'' @ CHR '' '' # s) [] = ''cpu'' # fieldsFrom s []" for s
    by (simp only: fieldsFrom_word fieldsFrom_blank) simp
  moreover assume "list_all (\<lambda>v. 0 \<le> v) vs"
  ultimately show ?thesis by (simp add: Fields_def cpuText_def fieldsFrom_numbers)
qed

lemma parseCpuVals_numbers:
  "list_all (\<lambda>v. 0 \<le> v \<and> v < 2 ^ 64) vs \<Longrightarrow> parseCpuVals (map itoa vs) = Inr (map of_int vs)"
  by (induction vs) (simp_all add: ParseUint_itoa)

subsection \<open>Bounds of the CPU usage\<close>

lemma total_minus_idle:
  "(idleTime c + nonIdleTime c) - (idleTime p + nonIdleTime p) - (idleTime c - idleTime p)
   = nonIdleTime c - nonIdleTime p"
  by simp

lemma cpu_usage_as_busy:
  "calculateCPUUsage prev cur =
     (let t = (idleTime cur - idleTime prev) + (nonIdleTime cur - nonIdleTime prev)
      in if t = 0 then 0 else percent_of (nonIdleTime cur - nonIdleTime prev) t)"
proof -
  have "(idleTime cur + nonIdleTime cur) - (idleTime prev + nonIdleTime prev)
      = (idleTime cur - idleTime prev) + (nonIdleTime cur - nonIdleTime prev)" by simp
  then show ?thesis by (simp only: calculateCPUUsage_def Let_def add_diff_cancel_left')
qed

lemma percent_of_ge_100: "b \<noteq> 0 \<Longrightarrow> b \<le> a \<Longrightarrow> 100 \<le> percent_of a b"
proof -
  assume "b \<noteq> 0" "b \<le> a"
  have "percent_of b b = 100" using float64_of_pos[OF \<open>b \<noteq> 0\<close>]
    by (simp add: percent_of_def fdiv_def fmul_def)
  with percent_of_mono[OF \<open>b \<le> a\<close>, of b] show ?thesis by simp
qed

lemma cpuText_no_newline: "list_all (\<lambda>v. 0 \<le> v) vs \<Longrightarrow> newline \<notin> set (cpuText vs)"
proof -
  assume "list_all (\<lambda>v. 0 \<le> v) vs"
  then have "newline \<notin> set (itoa v)" if "v \<in> set vs" for v
    using that itoa_digitVal[of v newline] by (auto simp: list_all_iff newline_def digitVal_def)
  then show ?thesis by (auto simp: cpuText_def newline_def)
qed

subsection \<open>Properties\<close>

text \<open>
  Reading \<open>/proc/meminfo\<close> in the kernel's format, whatever other lines it has and in whatever
  order, each of the five counters is the number on its line, or zero when the line is missing.
\<close>

theorem meminfo_roundtrip:
  assumes "list_all mem_entry_ok es" "distinct (map fst es)" "k \<in> memKeys"
  shows "memField k (parseMemInfo (joinWith newline (map (memText b) es @ [[]])))
    = (case map_of es k of None \<Rightarrow> 0 | Some n \<Rightarrow> of_int n)"
proof -
  have zero: "memField k memInfo0 = 0" by (simp add: memField_def memInfo0_def)
  show ?thesis unfolding memInfo_lines[OF assms(1)] memField_foldl[OF assms(3,2)] zero ..
qed

theorem meminfo_roundtrip_witness:
  "memField ''Cached'' (parseMemInfo (joinWith newline (map (memText 3)
     [(''MemTotal'', 16384), (''MemAvailable'', 9000), (''Cached'', 4096)] @ [[]]))) = 4096"
  using meminfo_roundtrip[of "[(''MemTotal'', 16384), (''MemAvailable'', 9000), (''Cached'', 4096)]" "''Cached''" 3]
  by (simp add: mem_entry_ok_def memKeys_def newline_def)

text \<open>
  When the free and reclaimable memory does not exceed the total, the memory reading is a
  percentage between 0 and 100.
\<close>

theorem memory_percent_range:
  assumes "ReadFile os ''/proc/meminfo'' w = Some data" "memTotal (parseMemInfo data) \<noteq> 0"
    "unat (memFree (parseMemInfo data)) + unat (buffers (parseMemInfo data)) + unat (cached (parseMemInfo data))
       + unat (sReclaimable (parseMemInfo data)) \<le> unat (memTotal (parseMemInfo data))"
  shows "\<exists>p. getMemoryStats os w = Inr p \<and> 0 \<le> p \<and> p \<le> 100"
proof -
  let ?v = "parseMemInfo data"
  have "usedKB ?v \<le> memTotal ?v"
    using assms(3) by (simp add: usedKB_def word_le_nat_alt unat_sub_if')
  with percent_of_range assms show ?thesis by (simp add: getMemoryStats_def Let_def)
qed

definition statWorld :: world where
  "statWorld = emptyWorld\<lparr>wFiles :=
     [(''/proc/meminfo'', joinWith newline (map (memText 2)
        [(''MemTotal'', 1000), (''MemFree'', 100), (''Buffers'', 50), (''Cached'', 200), (''SReclaimable'', 50)] @ [[]])),
      (''/proc/stat'', cpuText [10, 0, 5, 80, 2, 1, 1] @ newline # ''intr 5'')]\<rparr>"

theorem memory_percent_range_witness:
  "\<exists>p. getMemoryStats refOS statWorld = Inr p \<and> 0 \<le> p \<and> p \<le> 100"
proof (rule memory_percent_range)
  let ?data = "joinWith newline (map (memText 2)
        [(''MemTotal'', 1000), (''MemFree'', 100), (''Buffers'', 50), (''Cached'', 200), (''SReclaimable'', 50)] @ [[]])"
  show "ReadFile refOS ''/proc/meminfo'' statWorld = Some ?data"
    by (simp add: refOS_def statWorld_def)
  have v: "parseMemInfo ?data
      = \<lparr>memTotal = 1000, memFree = 100, buffers = 50, cached = 200, sReclaimable = 50\<rparr>" by code_simp
  show "memTotal (parseMemInfo ?data) \<noteq> 0" unfolding v by simp
  show "unat (memFree (parseMemInfo ?data)) + unat (buffers (parseMemInfo ?data))
      + unat (cached (parseMemInfo ?data)) + unat (sReclaimable (parseMemInfo ?data))
      \<le> unat (memTotal (parseMemInfo ?data))" unfolding v by simp
qed

text \<open>
  Reading \<open>/proc/stat\<close> whose first line is the kernel's aggregate \<open>cpu\<close> line with seven to ten
  counters gives exactly those counters, the missing ones as zero, whatever follows the line.
\<close>

theorem cpu_line_roundtrip:
  assumes "7 \<le> length vs" "length vs \<le> 10" "list_all (\<lambda>v. 0 \<le> v \<and> v < 2 ^ 64) vs"
    "ReadFile os ''/proc/stat'' w = Some (cpuText vs @ newline # rest)"
  shows "getCPUStats os w = Inr (cpuStatsOf (map of_int vs))"
proof -
  have nn: "list_all (\<lambda>v. 0 \<le> v) vs" using assms(3) by (auto simp: list_all_iff)
  have "splitOn newline (cpuText vs @ newline # rest) = cpuText vs # splitOn newline rest"
    using cpuText_no_newline[OF nn] by (simp add: splitOn_append splitOn_no_sep)
  with assms Fields_cpuText[OF nn] parseCpuVals_numbers[OF assms(3)] show ?thesis
    by (simp add: getCPUStats_def Let_def take_map)
qed

theorem cpu_line_roundtrip_witness:
  "getCPUStats refOS statWorld = Inr (cpuStatsOf (map of_int [10, 0, 5, 80, 2, 1, 1]))"
  by (rule cpu_line_roundtrip[where rest = "''intr 5''"]) (simp_all add: refOS_def statWorld_def)

text \<open>
  Between two samples whose idle and busy times have not gone down, with the total within 64
  bits, the CPU usage is a percentage between 0 and 100.
\<close>

theorem cpu_usage_range:
  assumes "idleTime prev \<le> idleTime cur" "nonIdleTime prev \<le> nonIdleTime cur"
    "unat (idleTime cur) + unat (nonIdleTime cur) < 2 ^ 64"
  shows "0 \<le> calculateCPUUsage prev cur \<and> calculateCPUUsage prev cur \<le> 100"
proof -
  let ?i = "idleTime cur - idleTime prev" and ?n = "nonIdleTime cur - nonIdleTime prev"
  have "unat ?i \<le> unat (idleTime cur)" "unat ?n \<le> unat (nonIdleTime cur)"
    using assms(1,2) by (simp_all add: unat_sub)
  then have "unat (?i + ?n) = unat ?i + unat ?n" using assms(3) by (simp add: unat_word_ariths)
  then have "?n \<le> ?i + ?n" by (simp add: word_le_nat_alt)
  from percent_of_range[OF this] show ?thesis unfolding cpu_usage_as_busy by (auto simp: Let_def)
qed

definition cpuSample :: "u64 \<Rightarrow> u64 \<Rightarrow> u64 \<Rightarrow> cpuStats" where
  "cpuSample busy idl wait =
     \<lparr>user = busy, nice = 0, system = 0, idle = idl, iowait = wait, irq = 0, softirq = 0, steal = 0,
      guest = 0, guestnice = 0\<rparr>"

theorem cpu_usage_range_witness:
  "0 \<le> calculateCPUUsage (cpuSample 10 80 0) (cpuSample 60 130 0) \<and>
   calculateCPUUsage (cpuSample 10 80 0) (cpuSample 60 130 0) \<le> 100"
  by (rule cpu_usage_range) (simp_all add: cpuSample_def idleTime_def nonIdleTime_def word_le_nat_alt)

text \<open>
  When the idle time goes down between two samples (\<open>iowait\<close> may) by less than the busy time
  grows, the usage is computed as 100 percent or more and the engine sees an emergency, however idle
  the machine is.
\<close>

theorem cpu_idle_regression_is_emergency:
  assumes "unat (idleTime cur) < unat (idleTime prev)"
    "unat (nonIdleTime prev) + (unat (idleTime prev) - unat (idleTime cur)) < unat (nonIdleTime cur)"
    "cpuPercent s = calculateCPUUsage prev cur"
  shows "emergency s"
proof -
  let ?i = "idleTime cur - idleTime prev" and ?n = "nonIdleTime cur - nonIdleTime prev"
  let ?d = "unat (idleTime prev) - unat (idleTime cur)"
  have n: "unat ?n = unat (nonIdleTime cur) - unat (nonIdleTime prev)"
    using assms(1,2) by (simp add: unat_sub word_le_nat_alt)
  have d: "unat (idleTime prev - idleTime cur) = ?d"
    using assms(1) by (simp add: unat_sub word_le_nat_alt)
  have eq: "?i + ?n = ?n - (idleTime prev - idleTime cur)" by simp
  have le: "idleTime prev - idleTime cur \<le> ?n" using n d assms(2) by (simp add: word_le_nat_alt)
  have t: "unat (?i + ?n) = unat ?n - ?d" unfolding eq using unat_sub[OF le] d by simp
  have "unat (?i + ?n) \<noteq> 0" using t n assms(2) by linarith
  then have "?i + ?n \<noteq> 0" by auto
  moreover have "?i + ?n \<le> ?n" using t by (simp add: word_le_nat_alt)
  ultimately have "100 \<le> calculateCPUUsage prev cur"
    unfolding cpu_usage_as_busy by (simp add: Let_def percent_of_ge_100)
  with assms(3) show ?thesis by (auto simp: emergency_def)
qed

theorem cpu_idle_regression_is_emergency_witness:
  "emergency (calmSensors\<lparr>cpuPercent := calculateCPUUsage (cpuSample 10 80 30) (cpuSample 15 95 12)\<rparr>)"
  by (rule cpu_idle_regression_is_emergency[where prev = "cpuSample 10 80 30" and cur = "cpuSample 15 95 12"])
     (simp_all add: cpuSample_def idleTime_def nonIdleTime_def)

end
