(* ===== verification/GeoIP.thy ===== *)
theory GeoIP
  imports RefKernel GoStrings
begin

text \<open>
  The GeoIP manager (\<open>geoip.go\<close>): the two MaxMind databases, loading them anew while the program
  runs, and the caches of the blocks of a country or an autonomous system.

  The package \<open>github.com/oschwald/maxminddb-golang\<close> is a parameter: a record of the functions the
  manager calls, over unspecified types of readers and of networks.  \<open>CountryOf\<close> and \<open>ASNOf\<close> stand
  for \<open>networks.Network(&record)\<close>: from the field of the record before the call to the field after
  it, with the text of the network unless the call fails.

  The lock of the manager makes each of its critical sections one step.  \<open>GetCountryCIDRs\<close> and
  \<open>GetASNCIDRs\<close> have two of them (under the read lock and under the write lock), so each is a pair of
  definitions and their composition; other operations may come between the two.
\<close>

record ('r, 'i, 'w) maxmind =
  OpenDB :: "string \<Rightarrow> 'w \<Rightarrow> 'r option"
  CloseDB :: "'r \<Rightarrow> 'w \<Rightarrow> 'w"
  DatabaseType :: "'r \<Rightarrow> string"
  MajorVersion :: "'r \<Rightarrow> nat"
  MinorVersion :: "'r \<Rightarrow> nat"
  Networks :: "'r \<Rightarrow> 'i list"
  CountryOf :: "'i \<Rightarrow> string \<Rightarrow> string \<times> string option"
  ASNOf :: "'i \<Rightarrow> u32 \<Rightarrow> u32 \<times> string option"

subsection \<open>State\<close>

text \<open>A Go map as an association list, \<open>None\<close> when it is nil.\<close>

type_synonym 'k cidr_cache = "('k \<times> string list) list option"

record 'r GeoIPManager =
  asnReader :: "'r option"
  countryReader :: "'r option"
  asnLoaded :: bool
  countryLoaded :: bool
  lastReloadTime :: string
  asnPath :: string
  countryPath :: string
  asnSize :: int
  countrySize :: int
  asnVersion :: string
  countryVersion :: string
  asnCache :: "u32 cidr_cache"
  countryCache :: "string cidr_cache"
  cacheHits :: u64
  cacheMisses :: u64

definition cacheGet :: "'k cidr_cache \<Rightarrow> 'k \<Rightarrow> string list option" where
  "cacheGet c k = (case c of None \<Rightarrow> None | Some l \<Rightarrow> map_of l k)"

definition cachePut :: "'k \<Rightarrow> string list \<Rightarrow> 'k cidr_cache \<Rightarrow> 'k cidr_cache" where
  "cachePut k v c = Some (AList.update k v (case c of None \<Rightarrow> [] | Some l \<Rightarrow> l))"

definition cacheLen :: "'k cidr_cache \<Rightarrow> nat" where
  "cacheLen c = (case c of None \<Rightarrow> 0 | Some l \<Rightarrow> length l)"

definition makeIfNil :: "'k cidr_cache \<Rightarrow> 'k cidr_cache" where
  "makeIfNil c = (if c = None then Some [] else c)"

subsection \<open>Loading the databases\<close>

definition resolvePath :: "'w goos \<Rightarrow> string \<Rightarrow> 'w \<Rightarrow> string" where
  "resolvePath os path w =
     (if Stat os path w then path
      else let altPath = ''../'' @ path in
        (if Stat os altPath w then altPath else path))"

definition formatVersion :: "('r, 'i, 'w) maxmind \<Rightarrow> 'r \<Rightarrow> string" where
  "formatVersion db reader =
     itoa (int (MajorVersion db reader)) @ ''.'' @ itoa (int (MinorVersion db reader))"

definition closeOld :: "('r, 'i, 'w) maxmind \<Rightarrow> 'r option \<Rightarrow> 'w \<Rightarrow> 'w" where
  "closeOld db old w = (case old of None \<Rightarrow> w | Some reader \<Rightarrow> CloseDB db reader w)"

definition loadASN ::
  "'w goos \<Rightarrow> ('r, 'i, 'w) maxmind \<Rightarrow> string \<Rightarrow> 'r GeoIPManager \<times> 'w \<Rightarrow> 'r GeoIPManager \<times> 'w" where
  "loadASN os db resolvedASN = (\<lambda>(g, w).
     if \<not> Stat os resolvedASN w then (g, w)
     else case OpenDB db resolvedASN w of
       None \<Rightarrow> (g, w)
     | Some reader \<Rightarrow>
         (let dbType = ToLower (DatabaseType db reader) in
          if Contains dbType ''asn'' \<or> Contains dbType ''isp'' then
            (g\<lparr>asnReader := Some reader, asnLoaded := True, asnSize := FileSize os resolvedASN w,
               asnVersion := formatVersion db reader\<rparr>, closeOld db (asnReader g) w)
          else (g, CloseDB db reader w)))"

definition loadCountry ::
  "'w goos \<Rightarrow> ('r, 'i, 'w) maxmind \<Rightarrow> string \<Rightarrow> 'r GeoIPManager \<times> 'w \<Rightarrow> 'r GeoIPManager \<times> 'w" where
  "loadCountry os db resolvedCountry = (\<lambda>(g, w).
     if \<not> Stat os resolvedCountry w then (g, w)
     else case OpenDB db resolvedCountry w of
       None \<Rightarrow> (g, w)
     | Some reader \<Rightarrow>
         (let dbType = ToLower (DatabaseType db reader) in
          if Contains dbType ''country'' \<or> Contains dbType ''city'' then
            (g\<lparr>countryReader := Some reader, countryLoaded := True,
               countrySize := FileSize os resolvedCountry w,
               countryVersion := formatVersion db reader\<rparr>, closeOld db (countryReader g) w)
          else (g, CloseDB db reader w)))"

definition Reload ::
  "'w goos \<Rightarrow> ('r, 'i, 'w) maxmind \<Rightarrow> 'r GeoIPManager \<times> 'w \<Rightarrow> 'r GeoIPManager \<times> 'w" where
  "Reload os db = (\<lambda>(g, w).
     let g1 = g\<lparr>lastReloadTime := TimeText os w, asnCache := Some [], countryCache := Some [],
                cacheHits := 0, cacheMisses := 0\<rparr>;
         resolvedASN = resolvePath os (asnPath g1) w;
         resolvedCountry = resolvePath os (countryPath g1) w
     in loadCountry os db resolvedCountry (loadASN os db resolvedASN (g1, w)))"

definition InitGeoIPManager ::
  "'w goos \<Rightarrow> ('r, 'i, 'w) maxmind \<Rightarrow> string \<Rightarrow> string \<Rightarrow> 'w \<Rightarrow> 'r GeoIPManager \<times> 'w" where
  "InitGeoIPManager os db asn_path country_path w =
     Reload os db
       (\<lparr>asnReader = None, countryReader = None, asnLoaded = False, countryLoaded = False,
         lastReloadTime = [], asnPath = asn_path, countryPath = country_path, asnSize = 0,
         countrySize = 0, asnVersion = [], countryVersion = [], asnCache = None,
         countryCache = None, cacheHits = 0, cacheMisses = 0\<rparr>, w)"

definition CloseManager ::
  "('r, 'i, 'w) maxmind \<Rightarrow> 'r GeoIPManager \<times> 'w \<Rightarrow> 'r GeoIPManager \<times> 'w" where
  "CloseManager db = (\<lambda>(g, w).
     (g\<lparr>asnReader := None, countryReader := None\<rparr>,
      closeOld db (countryReader g) (closeOld db (asnReader g) w)))"

subsection \<open>The blocks of a country or of an autonomous system\<close>

text \<open>
  The loop over the networks of a database.  One record is reused: its field keeps its value when a
  network is decoded that does not have it.
\<close>

fun scanNetworks ::
  "('i \<Rightarrow> 'f \<Rightarrow> 'f \<times> string option) \<Rightarrow> 'f \<Rightarrow> 'i list \<Rightarrow> 'f \<Rightarrow> string list \<Rightarrow> string list" where
  "scanNetworks decode want [] field cidrs = cidrs"
| "scanNetworks decode want (n # ns) field cidrs =
     (case decode n field of
        (field', None) \<Rightarrow> scanNetworks decode want ns field' cidrs
      | (field', Some subnet) \<Rightarrow>
          scanNetworks decode want ns field' (if field' = want then cidrs @ [subnet] else cidrs))"

text \<open>
  The section under the read lock: \<open>Some\<close> the result, or \<open>None\<close> to go on with the section under the
  write lock.  In the second section \<open>None\<close> is a panic: the method of a nil reader is called.
\<close>

definition countryFast ::
  "string \<Rightarrow> 'r GeoIPManager \<Rightarrow> 'r GeoIPManager \<times> (go_error + string list) option" where
  "countryFast countryCode g =
     (case cacheGet (countryCache g) countryCode of
        Some cidrs \<Rightarrow> (g\<lparr>cacheHits := cacheHits g + 1\<rparr>, Some (Inr cidrs))
      | None \<Rightarrow>
          (if \<not> countryLoaded g \<or> countryReader g = None then (g, Some (Inl ErrGeoNotLoaded))
           else (g, None)))"

definition countrySlow ::
  "('r, 'i, 'w) maxmind \<Rightarrow> string \<Rightarrow> 'r GeoIPManager
   \<Rightarrow> 'r GeoIPManager \<times> (go_error + string list) option" where
  "countrySlow db countryCode g =
     (let g1 = g\<lparr>countryCache := makeIfNil (countryCache g)\<rparr> in
      case cacheGet (countryCache g1) countryCode of
        Some cidrs \<Rightarrow> (g1\<lparr>cacheHits := cacheHits g1 + 1\<rparr>, Some (Inr cidrs))
      | None \<Rightarrow>
          (let g2 = g1\<lparr>cacheMisses := cacheMisses g1 + 1\<rparr> in
           case countryReader g2 of
             None \<Rightarrow> (g2, None)
           | Some reader \<Rightarrow>
               (let cidrs = scanNetworks (CountryOf db) countryCode (Networks db reader) [] [] in
                (g2\<lparr>countryCache := cachePut countryCode cidrs (countryCache g2)\<rparr>,
                 Some (Inr cidrs)))))"

definition GetCountryCIDRs ::
  "('r, 'i, 'w) maxmind \<Rightarrow> string \<Rightarrow> 'r GeoIPManager
   \<Rightarrow> 'r GeoIPManager \<times> (go_error + string list) option" where
  "GetCountryCIDRs db countryCode g =
     (case countryFast countryCode g of
        (g1, Some res) \<Rightarrow> (g1, Some res)
      | (g1, None) \<Rightarrow> countrySlow db countryCode g1)"

definition asnFast ::
  "u32 \<Rightarrow> 'r GeoIPManager \<Rightarrow> 'r GeoIPManager \<times> (go_error + string list) option" where
  "asnFast targetASN g =
     (case cacheGet (asnCache g) targetASN of
        Some cidrs \<Rightarrow> (g\<lparr>cacheHits := cacheHits g + 1\<rparr>, Some (Inr cidrs))
      | None \<Rightarrow>
          (if \<not> asnLoaded g \<or> asnReader g = None then (g, Some (Inl ErrGeoNotLoaded))
           else (g, None)))"

definition asnSlow ::
  "('r, 'i, 'w) maxmind \<Rightarrow> u32 \<Rightarrow> 'r GeoIPManager
   \<Rightarrow> 'r GeoIPManager \<times> (go_error + string list) option" where
  "asnSlow db targetASN g =
     (let g1 = g\<lparr>asnCache := makeIfNil (asnCache g)\<rparr> in
      case cacheGet (asnCache g1) targetASN of
        Some cidrs \<Rightarrow> (g1\<lparr>cacheHits := cacheHits g1 + 1\<rparr>, Some (Inr cidrs))
      | None \<Rightarrow>
          (let g2 = g1\<lparr>cacheMisses := cacheMisses g1 + 1\<rparr> in
           case asnReader g2 of
             None \<Rightarrow> (g2, None)
           | Some reader \<Rightarrow>
               (let cidrs = scanNetworks (ASNOf db) targetASN (Networks db reader) 0 [] in
                (g2\<lparr>asnCache := cachePut targetASN cidrs (asnCache g2)\<rparr>, Some (Inr cidrs)))))"

definition GetASNCIDRs ::
  "('r, 'i, 'w) maxmind \<Rightarrow> u32 \<Rightarrow> 'r GeoIPManager
   \<Rightarrow> 'r GeoIPManager \<times> (go_error + string list) option" where
  "GetASNCIDRs db targetASN g =
     (case asnFast targetASN g of
        (g1, Some res) \<Rightarrow> (g1, Some res)
      | (g1, None) \<Rightarrow> asnSlow db targetASN g1)"

subsection \<open>The caches\<close>

lemma cacheGet_makeIfNil [simp]: "cacheGet (makeIfNil c) = cacheGet c"
  by (rule ext) (simp add: cacheGet_def makeIfNil_def)

lemma cacheGet_put [simp]: "cacheGet (cachePut k v c) = (cacheGet c)(k \<mapsto> v)"
  by (rule ext) (auto simp: cacheGet_def cachePut_def update_conv' split: option.splits)

lemma cacheGet_empty [simp]: "cacheGet (Some []) = Map.empty"
  by (rule ext) (simp add: cacheGet_def)

text \<open>
  What both lookups share: a cached answer is returned, a missing one is computed from the reader
  and cached, and nothing else that later answers depend on changes.
\<close>

definition coherent ::
  "('g \<Rightarrow> 'k cidr_cache) \<Rightarrow> ('g \<Rightarrow> 'r option) \<Rightarrow> ('g \<Rightarrow> bool) \<Rightarrow> ('r \<Rightarrow> 'k \<Rightarrow> string list) \<Rightarrow> 'g \<Rightarrow> bool" where
  "coherent cache reader loaded answer g \<longleftrightarrow>
     (\<forall>r k v. reader g = Some r \<longrightarrow> cacheGet (cache g) k = Some v \<longrightarrow> v = answer r k) \<and>
     (reader g \<noteq> None \<longrightarrow> loaded g)"

definition two_sections ::
  "('k \<Rightarrow> 'g \<Rightarrow> 'g \<times> 'b option) \<Rightarrow> ('k \<Rightarrow> 'g \<Rightarrow> 'g \<times> 'b option) \<Rightarrow> 'k \<Rightarrow> 'g \<Rightarrow> 'g \<times> 'b option" where
  "two_sections fast slow k g =
     (case fast k g of (g1, Some res) \<Rightarrow> (g1, Some res) | (g1, None) \<Rightarrow> slow k g1)"

lemma two_sections_hit: "snd (fast k g) = Some v \<Longrightarrow> snd (two_sections fast slow k g) = Some v"
  by (cases "fast k g") (simp add: two_sections_def)

locale geo_cache =
  fixes fast slow :: "'k \<Rightarrow> 'r GeoIPManager \<Rightarrow> 'r GeoIPManager \<times> (go_error + string list) option"
    and cache :: "'r GeoIPManager \<Rightarrow> 'k cidr_cache"
    and reader :: "'r GeoIPManager \<Rightarrow> 'r option"
    and loaded :: "'r GeoIPManager \<Rightarrow> bool"
    and answer :: "'r \<Rightarrow> 'k \<Rightarrow> string list"
  assumes fast_hit: "cacheGet (cache g) k = Some v \<Longrightarrow> snd (fast k g) = Some (Inr v)"
    and fast_miss: "cacheGet (cache g) k = None \<Longrightarrow>
      fast k g = (g, if loaded g \<and> reader g \<noteq> None then None else Some (Inl ErrGeoNotLoaded))"
    and fast_frame: "cache (fst (fast k g)) = cache g" "reader (fst (fast k g)) = reader g"
    and slow_hit: "cacheGet (cache g) k = Some v \<Longrightarrow>
      snd (slow k g) = Some (Inr v) \<and> cacheGet (cache (fst (slow k g))) = cacheGet (cache g)"
    and slow_scan: "cacheGet (cache g) k = None \<Longrightarrow> reader g = Some r \<Longrightarrow>
      snd (slow k g) = Some (Inr (answer r k)) \<and>
      cacheGet (cache (fst (slow k g))) = (cacheGet (cache g))(k \<mapsto> answer r k)"
    and slow_nil: "cacheGet (cache g) k = None \<Longrightarrow> reader g = None \<Longrightarrow>
      snd (slow k g) = None \<and> cacheGet (cache (fst (slow k g))) = cacheGet (cache g)"
    and slow_reader: "reader (fst (slow k g)) = reader g"
begin

lemma coherentI:
  "reader g' = reader g \<Longrightarrow> (loaded g \<longrightarrow> loaded g') \<Longrightarrow> coherent cache reader loaded answer g \<Longrightarrow>
   (\<And>k v r. reader g = Some r \<Longrightarrow> cacheGet (cache g') k = Some v \<Longrightarrow>
      cacheGet (cache g) k = Some v \<or> v = answer r k) \<Longrightarrow> coherent cache reader loaded answer g'"
  unfolding coherent_def by metis

lemma fast_coherent: "coherent cache reader loaded answer g \<Longrightarrow> (loaded g \<longrightarrow> loaded (fst (fast k g))) \<Longrightarrow> coherent cache reader loaded answer (fst (fast k g))"
  by (rule coherentI[where g = g]) (simp_all add: fast_frame)

lemma slow_coherent:
  assumes "coherent cache reader loaded answer g" "loaded g \<longrightarrow> loaded (fst (slow k g))"
  shows "coherent cache reader loaded answer (fst (slow k g))"
proof (rule coherentI[OF slow_reader assms(2,1)])
  fix j v r assume r: "reader g = Some r" and v: "cacheGet (cache (fst (slow k g))) j = Some v"
  show "cacheGet (cache g) j = Some v \<or> v = answer r j"
  proof (cases "cacheGet (cache g) k")
    case None
    with slow_scan[OF None r] v show ?thesis by (auto split: if_splits)
  next
    case (Some u)
    with slow_hit[OF Some] v show ?thesis by simp
  qed
qed

lemma get_answer:
  assumes "coherent cache reader loaded answer g" "reader g = Some r"
  shows "snd (two_sections fast slow k g) = Some (Inr (answer r k))"
proof (cases "cacheGet (cache g) k")
  case None
  with assms fast_miss[OF None] slow_scan[OF None assms(2)] show ?thesis
    by (simp add: two_sections_def coherent_def)
next
  case (Some v)
  with assms have "v = answer r k" by (auto simp: coherent_def)
  with fast_hit[OF Some] show ?thesis by (simp add: two_sections_hit)
qed

lemma get_without_reader:
  assumes "reader g = None"
  shows "snd (two_sections fast slow k g) = Some (case cacheGet (cache g) k of None \<Rightarrow> Inl ErrGeoNotLoaded | Some v \<Rightarrow> Inr v)"
proof (cases "cacheGet (cache g) k")
  case None
  with assms fast_miss[OF None] show ?thesis by (simp add: two_sections_def)
next
  case (Some v)
  with fast_hit[OF Some] show ?thesis by (simp add: two_sections_hit)
qed

lemma get_error:
  assumes "snd (two_sections fast slow k g) = Some (Inl e)"
  shows "two_sections fast slow k g = (g, Some (Inl ErrGeoNotLoaded))"
proof (cases "cacheGet (cache g) k")
  case None
  show ?thesis
  proof (cases "loaded g \<and> reader g \<noteq> None")
    case True
    then obtain r where "reader g = Some r" by blast
    with True assms fast_miss[OF None] slow_scan[OF None] show ?thesis by (simp add: two_sections_def)
  next
    case False
    with fast_miss[OF None] have "fast k g = (g, Some (Inl ErrGeoNotLoaded))" by simp
    then show ?thesis by (simp add: two_sections_def)
  qed
next
  case (Some v)
  then have "snd (two_sections fast slow k g) = Some (Inr v)" by (intro two_sections_hit fast_hit)
  with assms show ?thesis by simp
qed

lemma race:
  assumes "cacheGet (cache g) k = None" "cache g' = cache g" "reader g' = None"
  shows "snd (slow k g') = None"
  using assms slow_nil[of g' k] by simp

end

interpretation country: geo_cache countryFast "countrySlow db" countryCache countryReader countryLoaded
    "\<lambda>r code. scanNetworks (CountryOf db) code (Networks db r) [] []" for db
  by unfold_locales (auto simp: countryFast_def countrySlow_def Let_def split: option.splits)

interpretation asn: geo_cache asnFast "asnSlow db" asnCache asnReader asnLoaded
    "\<lambda>r n. scanNetworks (ASNOf db) n (Networks db r) 0 []" for db
  by unfold_locales (auto simp: asnFast_def asnSlow_def Let_def split: option.splits)

lemma GetCountryCIDRs_eq: "GetCountryCIDRs db = two_sections countryFast (countrySlow db)"
  by (intro ext) (simp add: GetCountryCIDRs_def two_sections_def)

lemma GetASNCIDRs_eq: "GetASNCIDRs db = two_sections asnFast (asnSlow db)"
  by (intro ext) (simp add: GetASNCIDRs_def two_sections_def)

text \<open>
  A lookup that is not interrupted returns: its second section runs only when there is a reader.  Its
  callers treat an error and an empty list alike.
\<close>

lemma GetCountryCIDRs_returns: "snd (GetCountryCIDRs db code g) \<noteq> None"
  by (auto simp: GetCountryCIDRs_def countryFast_def countrySlow_def Let_def split: option.splits)

definition resolveCountry ::
  "('r, 'i, 'w) maxmind \<Rightarrow> string \<Rightarrow> 'r GeoIPManager \<Rightarrow> 'r GeoIPManager \<times> string list" where
  "resolveCountry db countryCode g =
     (case GetCountryCIDRs db countryCode g of
        (g', Some (Inr resolved)) \<Rightarrow> (g', resolved)
      | (g', _) \<Rightarrow> (g', []))"

subsection \<open>The life of the manager\<close>

text \<open>
  The states the manager can be in: any order of its critical sections, other code changing the
  world between them.
\<close>

inductive geo_reachable ::
  "'w goos \<Rightarrow> ('r, 'i, 'w) maxmind \<Rightarrow> string \<Rightarrow> string \<Rightarrow> 'r GeoIPManager \<Rightarrow> 'w \<Rightarrow> bool"
  for os :: "'w goos" and db :: "('r, 'i, 'w) maxmind" and asn_path country_path :: string where
  init: "InitGeoIPManager os db asn_path country_path w = (g, w') \<Longrightarrow>
    geo_reachable os db asn_path country_path g w'"
| world: "geo_reachable os db asn_path country_path g w \<Longrightarrow> geo_reachable os db asn_path country_path g w'"
| reload: "geo_reachable os db asn_path country_path g w \<Longrightarrow> Reload os db (g, w) = (g', w') \<Longrightarrow>
    geo_reachable os db asn_path country_path g' w'"
| close: "geo_reachable os db asn_path country_path g w \<Longrightarrow> CloseManager db (g, w) = (g', w') \<Longrightarrow>
    geo_reachable os db asn_path country_path g' w'"
| country_read: "geo_reachable os db asn_path country_path g w \<Longrightarrow>
    geo_reachable os db asn_path country_path (fst (countryFast code g)) w"
| country_write: "geo_reachable os db asn_path country_path g w \<Longrightarrow>
    geo_reachable os db asn_path country_path (fst (countrySlow db code g)) w"
| asn_read: "geo_reachable os db asn_path country_path g w \<Longrightarrow>
    geo_reachable os db asn_path country_path (fst (asnFast number g)) w"
| asn_write: "geo_reachable os db asn_path country_path g w \<Longrightarrow>
    geo_reachable os db asn_path country_path (fst (asnSlow db number g)) w"

text \<open>
  Every cached answer is the answer of the database that is loaded now, a reader is there only
  when its flag says so, and the paths are those the manager was created with.
\<close>

abbreviation countryAnswer :: "('r, 'i, 'w) maxmind \<Rightarrow> 'r \<Rightarrow> string \<Rightarrow> string list" where
  "countryAnswer db r code \<equiv> scanNetworks (CountryOf db) code (Networks db r) [] []"

abbreviation asnAnswer :: "('r, 'i, 'w) maxmind \<Rightarrow> 'r \<Rightarrow> u32 \<Rightarrow> string list" where
  "asnAnswer db r number \<equiv> scanNetworks (ASNOf db) number (Networks db r) 0 []"

definition geo_ok :: "('r, 'i, 'w) maxmind \<Rightarrow> 'r GeoIPManager \<Rightarrow> bool" where
  "geo_ok db g \<longleftrightarrow>
     coherent countryCache countryReader countryLoaded (countryAnswer db) g \<and>
     coherent asnCache asnReader asnLoaded (asnAnswer db) g"

lemma countryFast_frame [simp]:
  "asnCache (fst (countryFast c g)) = asnCache g" "asnReader (fst (countryFast c g)) = asnReader g"
  "asnLoaded (fst (countryFast c g)) = asnLoaded g" "countryLoaded (fst (countryFast c g)) = countryLoaded g"
  by (auto simp: countryFast_def split: option.splits)

lemma countrySlow_frame [simp]:
  "asnCache (fst (countrySlow db c g)) = asnCache g" "asnReader (fst (countrySlow db c g)) = asnReader g"
  "asnLoaded (fst (countrySlow db c g)) = asnLoaded g"
  "countryLoaded (fst (countrySlow db c g)) = countryLoaded g"
  by (auto simp: countrySlow_def Let_def split: option.splits)

lemma asnFast_frame [simp]:
  "countryCache (fst (asnFast c g)) = countryCache g" "countryReader (fst (asnFast c g)) = countryReader g"
  "countryLoaded (fst (asnFast c g)) = countryLoaded g" "asnLoaded (fst (asnFast c g)) = asnLoaded g"
  by (auto simp: asnFast_def split: option.splits)

lemma asnSlow_frame [simp]:
  "countryCache (fst (asnSlow db c g)) = countryCache g"
  "countryReader (fst (asnSlow db c g)) = countryReader g"
  "countryLoaded (fst (asnSlow db c g)) = countryLoaded g" "asnLoaded (fst (asnSlow db c g)) = asnLoaded g"
  by (auto simp: asnSlow_def Let_def split: option.splits)

lemma coherent_cong:
  "coherent cache reader loaded answer g \<Longrightarrow> cache g' = cache g \<Longrightarrow> reader g' = reader g \<Longrightarrow>
   loaded g' = loaded g \<Longrightarrow> coherent cache reader loaded answer g'"
  by (simp add: coherent_def)

lemma geo_ok_sections:
  assumes "geo_ok db g"
  shows "geo_ok db (fst (countryFast c g))" "geo_ok db (fst (countrySlow db c g))"
    "geo_ok db (fst (asnFast n g))" "geo_ok db (fst (asnSlow db n g))"
  using assms unfolding geo_ok_def
  by (auto intro: country.fast_coherent country.slow_coherent asn.fast_coherent asn.slow_coherent
      elim: coherent_cong)

text \<open>Reloading empties the caches; a reader that is kept was loaded before.\<close>

definition flags_ok :: "'r GeoIPManager \<Rightarrow> bool" where
  "flags_ok g \<longleftrightarrow>
     (countryReader g \<noteq> None \<longrightarrow> countryLoaded g) \<and> (asnReader g \<noteq> None \<longrightarrow> asnLoaded g)"

lemma loadASN_keeps:
  "flags_ok g \<Longrightarrow> flags_ok (fst (loadASN os db p (g, w)))"
  "asnCache (fst (loadASN os db p (g, w))) = asnCache g"
  "countryCache (fst (loadASN os db p (g, w))) = countryCache g"
  by (auto simp: loadASN_def flags_ok_def Let_def split: option.splits)

lemma loadCountry_keeps:
  "flags_ok g \<Longrightarrow> flags_ok (fst (loadCountry os db p (g, w)))"
  "asnCache (fst (loadCountry os db p (g, w))) = asnCache g"
  "countryCache (fst (loadCountry os db p (g, w))) = countryCache g"
  by (auto simp: loadCountry_def flags_ok_def Let_def split: option.splits)

lemma geo_ok_fresh:
  "flags_ok g \<Longrightarrow> asnCache g = Some [] \<Longrightarrow> countryCache g = Some [] \<Longrightarrow> geo_ok db g"
  by (simp add: flags_ok_def geo_ok_def coherent_def)

lemma geo_ok_Reload:
  assumes "flags_ok g"
  shows "geo_ok db (fst (Reload os db (g, w)))"
proof -
  let ?g = "g\<lparr>lastReloadTime := TimeText os w, asnCache := Some [], countryCache := Some [],
    cacheHits := 0, cacheMisses := 0\<rparr>"
  obtain g2 w2 where l: "loadASN os db (resolvePath os (asnPath ?g) w) (?g, w) = (g2, w2)" by fastforce
  have "flags_ok ?g" using assms by (simp add: flags_ok_def)
  with l loadASN_keeps[where g = ?g and os = os and db = db and w = w and p = "resolvePath os (asnPath ?g) w"]
  have "flags_ok g2" "asnCache g2 = Some []" "countryCache g2 = Some []" by simp_all
  with l show ?thesis
    unfolding Reload_def Let_def prod.case
    by (simp add: geo_ok_fresh loadCountry_keeps)
qed

lemma geo_ok_loaded:
  "geo_ok db g \<Longrightarrow> flags_ok g"
  by (simp add: geo_ok_def coherent_def flags_ok_def)

lemma geo_reachable_ok: "geo_reachable os db ap cp g w \<Longrightarrow> geo_ok db g"
proof (induction rule: geo_reachable.induct)
  case (init w g w')
  have "geo_ok db (fst (InitGeoIPManager os db ap cp w))"
    unfolding InitGeoIPManager_def by (rule geo_ok_Reload) (simp add: flags_ok_def)
  with init show ?case by simp
next
  case (reload g w g' w')
  then show ?case using geo_ok_Reload[OF geo_ok_loaded[of db g], of db os w] by simp
next
  case (close g w g' w')
  then show ?case by (auto simp: CloseManager_def geo_ok_def coherent_def)
qed (simp_all add: geo_ok_sections)

subsection \<open>What a scan finds\<close>

text \<open>
  The documented behaviour of decoding: a field the network has is assigned, a field it does not
  have is left alone.
\<close>

definition decodes :: "('i \<Rightarrow> 'f \<Rightarrow> 'f \<times> string option) \<Rightarrow> ('i \<Rightarrow> 'f option) \<Rightarrow> ('i \<Rightarrow> string option) \<Rightarrow> bool" where
  "decodes decode fld sub \<longleftrightarrow>
     (\<forall>n old. decode n old = (case fld n of None \<Rightarrow> old | Some f \<Rightarrow> f, sub n))"

text \<open>The field every network is compared by: its own, or that of the last network that had one.\<close>

fun attributed :: "('i \<Rightarrow> 'f option) \<Rightarrow> 'f \<Rightarrow> 'i list \<Rightarrow> ('i \<times> 'f) list" where
  "attributed fld f [] = []"
| "attributed fld f (n # ns) =
     (let f' = (case fld n of None \<Rightarrow> f | Some x \<Rightarrow> x) in (n, f') # attributed fld f' ns)"

lemma scanNetworks_attributed:
  assumes "decodes decode fld sub"
  shows "scanNetworks decode want ns f cidrs
    = cidrs @ List.map_filter (\<lambda>(n, f). if f = want then sub n else None) (attributed fld f ns)"
  using assms
  by (induction ns arbitrary: f cidrs)
     (auto simp: decodes_def Let_def List.map_filter_simps split: option.splits)

lemma attributed_own:
  "\<forall>n \<in> set ns. fld n \<noteq> None \<Longrightarrow> attributed fld f ns = map (\<lambda>n. (n, the (fld n))) ns"
  by (induction ns arbitrary: f) auto

lemma attributed_inherits:
  "fld n1 = Some x \<Longrightarrow> fld n2 = None \<Longrightarrow> (n2, x) \<in> set (attributed fld f (ns @ n1 # n2 # ms))"
  by (induction ns arbitrary: f) (simp_all add: Let_def)

lemma scanNetworks_own:
  assumes "decodes decode fld sub" "\<forall>n \<in> set ns. fld n \<noteq> None"
  shows "scanNetworks decode want ns f [] = List.map_filter (\<lambda>n. if fld n = Some want then sub n else None) ns"
proof -
  have "List.map_filter (\<lambda>(n, f). if f = want then sub n else None) (map (\<lambda>n. (n, the (fld n))) ns)
    = List.map_filter (\<lambda>n. if fld n = Some want then sub n else None) ns"
    using assms(2) by (induction ns) (auto simp: List.map_filter_simps split: option.splits)
  then show ?thesis
    unfolding scanNetworks_attributed[OF assms(1)] attributed_own[OF assms(2)] by simp
qed

subsection \<open>Properties\<close>

text \<open>
  A database package the contract holds of, for the witnesses: two databases, whose networks are
  given by their country, their system and their text.  The third network has no country.
\<close>

type_synonym ref_network = "string option \<times> u32 option \<times> string"

definition refNetworks :: "ref_network list" where
  "refNetworks =
     [(Some ''VN'', Some 7552, ''14.160.0.0/11''), (Some ''US'', Some 15169, ''8.8.8.0/24''),
      (None, Some 7552, ''198.51.100.0/24''), (Some ''VN'', Some 131353, ''103.1.200.0/22'')]"

definition refDB :: "(string \<times> ref_network list, ref_network, world) maxmind" where
  "refDB =
     \<lparr>OpenDB = (\<lambda>p w. if p = ''city.mmdb'' then Some (''GeoLite2-City'', refNetworks)
        else if p = ''country.mmdb'' then Some (''GeoLite2-Country'', take 2 refNetworks)
        else if p = ''asn.mmdb'' then Some (''GeoLite2-ASN'', refNetworks) else None),
      CloseDB = (\<lambda>r w. w),
      DatabaseType = fst, MajorVersion = (\<lambda>r. 2), MinorVersion = (\<lambda>r. 0), Networks = snd,
      CountryOf = (\<lambda>(c, a, s) old. (case c of None \<Rightarrow> old | Some x \<Rightarrow> x, Some s)),
      ASNOf = (\<lambda>(c, a, s) old. (case a of None \<Rightarrow> old | Some x \<Rightarrow> x, Some s))\<rparr>"

definition geoWorld :: world where
  "geoWorld = emptyWorld\<lparr>wFiles := [(''country.mmdb'', ''MMDB''), (''city.mmdb'', ''MMDB''), (''asn.mmdb'', ''MMDB'')]\<rparr>"

definition refGeo :: "(string \<times> ref_network list) GeoIPManager" where
  "refGeo = fst (InitGeoIPManager refOS refDB ''asn.mmdb'' ''country.mmdb'' geoWorld)"

lemma refGeo_reachable: "geo_reachable refOS refDB ''asn.mmdb'' ''country.mmdb'' refGeo geoWorld"
proof -
  have "InitGeoIPManager refOS refDB ''asn.mmdb'' ''country.mmdb'' geoWorld = (refGeo, geoWorld)"
    unfolding refGeo_def by code_simp
  then show ?thesis by (rule geo_reachable.init)
qed

lemma refDB_decodes: "decodes (CountryOf refDB) fst (\<lambda>n. Some (snd (snd n)))"
  by (auto simp: decodes_def refDB_def)

text \<open>
  C22: In every order in which the critical sections of the manager can run (reloads, the shutdown and
  both halves of every lookup), the caches agree with the databases that are loaded: a cached list
  of blocks is the list a scan of the current reader gives, and a reader is present only when its
  flag is set.
\<close>

theorem geo_cache_coherent:
  assumes "geo_reachable os db asn_path country_path g w"
  shows "(\<forall>r code v. countryReader g = Some r \<longrightarrow> cacheGet (countryCache g) code = Some v \<longrightarrow>
            v = scanNetworks (CountryOf db) code (Networks db r) [] []) \<and>
    (\<forall>r number v. asnReader g = Some r \<longrightarrow> cacheGet (asnCache g) number = Some v \<longrightarrow>
            v = scanNetworks (ASNOf db) number (Networks db r) 0 []) \<and>
    (countryReader g \<noteq> None \<longrightarrow> countryLoaded g) \<and> (asnReader g \<noteq> None \<longrightarrow> asnLoaded g)"
  using geo_reachable_ok[OF assms] by (simp add: geo_ok_def coherent_def)

theorem geo_cache_coherent_witness:
  "cacheGet (countryCache (fst (countrySlow refDB ''VN'' refGeo))) ''VN'' = Some [''14.160.0.0/11''] \<and>
   countryLoaded (fst (countrySlow refDB ''VN'' refGeo))"
proof -
  let ?g = "fst (countrySlow refDB ''VN'' refGeo)"
  have reach: "geo_reachable refOS refDB ''asn.mmdb'' ''country.mmdb'' ?g geoWorld"
    by (rule geo_reachable.country_write[OF refGeo_reachable])
  have "countryReader ?g = Some (''GeoLite2-Country'', take 2 refNetworks)"
    "cacheGet (countryCache ?g) ''VN'' = Some [''14.160.0.0/11'']" by code_simp+
  with geo_cache_coherent[OF reach] show ?thesis by blast
qed

text \<open>
  C23: When every network of the country database has a country, a lookup returns exactly the
  networks of that country, in the order of the database, whether the answer comes from the cache or
  from a scan, and never fails.
\<close>

theorem country_blocks_exact:
  assumes "geo_reachable os db asn_path country_path g w" "countryReader g = Some r"
    and "decodes (CountryOf db) fld sub" "\<forall>n \<in> set (Networks db r). fld n \<noteq> None"
  shows "snd (GetCountryCIDRs db code g)
    = Some (Inr (List.map_filter (\<lambda>n. if fld n = Some code then sub n else None) (Networks db r)))"
  using geo_reachable_ok[OF assms(1)] assms(2)
  by (simp add: GetCountryCIDRs_eq geo_ok_def country.get_answer scanNetworks_own[OF assms(3,4)])

theorem country_blocks_exact_witness:
  "snd (GetCountryCIDRs refDB ''US'' refGeo) = Some (Inr [''8.8.8.0/24''])"
proof -
  let ?r = "(''GeoLite2-Country'', take 2 refNetworks)"
  have r: "countryReader refGeo = Some ?r" by code_simp
  have "\<forall>n \<in> set (Networks refDB ?r). fst n \<noteq> None" by (simp add: refDB_def refNetworks_def)
  from country_blocks_exact[OF refGeo_reachable r refDB_decodes this, of "''US''"]
  show ?thesis by (simp add: refDB_def refNetworks_def List.map_filter_simps)
qed

text \<open>
  C24: A lookup that is not interrupted never calls a method of a nil reader, and it fails only when
  no database is loaded and no answer is cached; then it changes nothing.
\<close>

theorem country_lookup_outcomes:
  assumes "geo_reachable os db asn_path country_path g w"
  shows "case GetCountryCIDRs db code g of
      (g', None) \<Rightarrow> False
    | (g', Some (Inl e)) \<Rightarrow> e = ErrGeoNotLoaded \<and> g' = g \<and> countryReader g = None \<and>
        cacheGet (countryCache g) code = None
    | (g', Some (Inr cidrs)) \<Rightarrow> countryReader g = None \<longrightarrow> cacheGet (countryCache g) code = Some cidrs"
proof (cases "countryReader g")
  case None
  with country.get_without_reader[of g db code] country.get_error[of db code g] show ?thesis
    by (cases "GetCountryCIDRs db code g") (auto simp: GetCountryCIDRs_eq split: option.splits)
next
  case (Some r)
  with geo_reachable_ok[OF assms] have "snd (GetCountryCIDRs db code g) = Some (Inr (countryAnswer db r code))"
    by (simp add: GetCountryCIDRs_eq geo_ok_def country.get_answer)
  with Some show ?thesis by (cases "GetCountryCIDRs db code g") simp
qed

theorem country_lookup_outcomes_witness:
  "case GetCountryCIDRs refDB ''VN'' (fst (CloseManager refDB (refGeo, geoWorld))) of
      (g', None) \<Rightarrow> False
    | (g', Some (Inl e)) \<Rightarrow> e = ErrGeoNotLoaded
    | (g', Some (Inr cidrs)) \<Rightarrow> False"
proof -
  let ?g = "fst (CloseManager refDB (refGeo, geoWorld))"
  have reach: "geo_reachable refOS refDB ''asn.mmdb'' ''country.mmdb'' ?g geoWorld"
    by (rule geo_reachable.close[OF refGeo_reachable]) code_simp
  have "countryReader ?g = None" "cacheGet (countryCache ?g) ''VN'' = None" by code_simp+
  with country_lookup_outcomes[OF reach, of "''VN''"] show ?thesis
    by (auto split: prod.splits option.splits sum.splits)
qed

text \<open>
  A network without a country is listed under the country of the network before it: the record
  the networks are decoded into is not cleared between them.
\<close>

theorem network_without_country_inherits:
  assumes "decodes (CountryOf db) fld sub" "Networks db r = ns @ [n1, n2] @ ms"
    and "fld n1 = Some code" "fld n2 = None" "sub n2 = Some s"
  shows "s \<in> set (scanNetworks (CountryOf db) code (Networks db r) [] [])"
  unfolding scanNetworks_attributed[OF assms(1)] assms(2)
  using assms(3-5) by (auto simp: attributed_inherits List.map_filter_def image_iff intro!: exI[of _ n2])

theorem network_without_country_inherits_witness:
  "''198.51.100.0/24'' \<in> set (scanNetworks (CountryOf refDB) ''US'' (Networks refDB (''GeoLite2-City'', refNetworks)) [] [])"
  by (rule network_without_country_inherits[OF refDB_decodes, where ns = "take 1 refNetworks"
        and ms = "drop 3 refNetworks" and ?n1.0 = "refNetworks ! 1" and ?n2.0 = "refNetworks ! 2"])
     (simp_all add: refDB_def refNetworks_def)

text \<open>
  A shutdown that comes between the two halves of a lookup makes it panic: the second half does
  not test the reader again.
\<close>

theorem close_between_sections_panics:
  assumes "snd (countryFast code g) = None"
  shows "snd (countrySlow db code (fst (CloseManager db (fst (countryFast code g), w)))) = None"
proof (rule country.race)
  show "cacheGet (countryCache g) code = None"
    using assms by (auto simp: countryFast_def split: option.splits)
qed (simp_all add: CloseManager_def country.fast_frame)

theorem close_between_sections_panics_witness:
  "snd (countrySlow refDB ''VN'' (fst (CloseManager refDB (fst (countryFast ''VN'' refGeo), geoWorld)))) = None"
proof (rule close_between_sections_panics)
  show "snd (countryFast ''VN'' refGeo) = None" by code_simp
qed

end
