(* ===== verification/Persist.thy ===== *)
theory Persist
  imports JsonRoundtrip Backend GeoIP
begin

text \<open>
  What the control plane writes to disk: the rule state (\<open>persist.go\<close>) and the mitigation log
  (\<open>writeMitigationLog\<close> of \<open>main.go\<close>).
\<close>

subsection \<open>Rule state\<close>

record RulesState =
  GeoIPPolicy :: u64
  StateBlacklist :: "string list"
  StateWhitelist :: "string list"

definition initPersistence :: "'w goos \<Rightarrow> 'w \<Rightarrow> string" where
  "initPersistence os w = resolvePath os ''conf/rules_state.json'' w"

text \<open>\<open>json.MarshalIndent(state, "", "  ")\<close>, which cannot fail on this type.\<close>

definition marshalState :: "RulesState \<Rightarrow> string" where
  "marshalState st =
     CHR ''{'' # newline # ''  '' @ jsonMember ''geoip_policy'' (CHR '' '' # itoa (uint (GeoIPPolicy st)))
     @ CHR '','' # newline # ''  '' @ jsonMember ''blacklist_targets'' (CHR '' '' # jsonArray (StateBlacklist st))
     @ CHR '','' # newline # ''  '' @ jsonMember ''whitelist_targets'' (CHR '' '' # jsonArray (StateWhitelist st))
     @ newline # ''}''"

definition currentState :: "'w goos \<Rightarrow> 'w MapManager \<Rightarrow> 'w \<Rightarrow> RulesState" where
  "currentState os m w =
     \<lparr>GeoIPPolicy = fst (GetGeoIPPolicy m w),
      StateBlacklist = GetBlacklistTargets os (m, w),
      StateWhitelist = GetWhitelistTargets os (m, w)\<rparr>"

text \<open>\<open>mapMgr\<close> is \<open>nil\<close> until the XDP program is loaded.\<close>

definition saveRulesState :: "'w goos \<Rightarrow> string \<Rightarrow> 'w MapManager option \<Rightarrow> 'w \<Rightarrow> 'w" where
  "saveRulesState os stateFilePath mapMgr w =
     (case mapMgr of
        None \<Rightarrow> w
      | Some m \<Rightarrow>
          (if stateFilePath = [] then w
           else fst (WriteFile os stateFilePath (marshalState (currentState os m w)) w)))"

text \<open>\<open>json.Unmarshal(data, &state)\<close> for a zero state; \<open>None\<close> when it returns an error.\<close>

type_synonym raw_state = "u64 \<times> string slice \<times> string slice"

definition decodeStateField :: "string \<Rightarrow> json \<Rightarrow> raw_state \<Rightarrow> raw_state \<times> bool" where
  "decodeStateField name v = (\<lambda>(policy, bl, wl).
     if name = foldName ''geoip_policy'' then (case decodeUint64 v policy of (x, ok) \<Rightarrow> ((x, bl, wl), ok))
     else if name = foldName ''blacklist_targets'' then
       (case decodeSlice decodeString [] v bl of (x, ok) \<Rightarrow> ((policy, x, wl), ok))
     else if name = foldName ''whitelist_targets'' then
       (case decodeSlice decodeString [] v wl of (x, ok) \<Rightarrow> ((policy, bl, x), ok))
     else ((policy, bl, wl), True))"

definition unmarshalState :: "string \<Rightarrow> RulesState option" where
  "unmarshalState text =
     (case Unmarshal (decodeStruct decodeStateField) text (0, ([], []), ([], [])) of
        ((policy, bl, wl), ok) \<Rightarrow>
          if ok then Some \<lparr>GeoIPPolicy = policy, StateBlacklist = fst bl, StateWhitelist = fst wl\<rparr> else None)"

subsection \<open>Restoring the rule state\<close>

definition isCountryCode :: "string \<Rightarrow> bool" where
  "isCountryCode target \<longleftrightarrow> length target = 2 \<and> \<not> Contains target ''.''"

definition applyTargetToMap ::
  "'w goos \<Rightarrow> ('r, 'i, 'w) maxmind \<Rightarrow> 'w MapManager \<Rightarrow> bool \<Rightarrow> string
   \<Rightarrow> 'r GeoIPManager option \<times> 'w \<Rightarrow> 'r GeoIPManager option \<times> 'w" where
  "applyTargetToMap os db m isWhitelist target = (\<lambda>(geo, w).
     case (if isCountryCode target then
             (case geo of
                None \<Rightarrow> (None, [])
              | Some g \<Rightarrow> (case resolveCountry db (ToUpper target) g of (g', cidrs) \<Rightarrow> (Some g', cidrs)))
           else if \<not> Contains target ''/'' then (geo, [target @ ''/32''])
           else (geo, [target])) of
       (geo', cidrs) \<Rightarrow>
         (geo', fold (\<lambda>c w. fst (if isWhitelist then AddWhitelistCIDR m c w else BlockCIDR os m c w)) cidrs w))"

fun restoreTargets ::
  "'w goos \<Rightarrow> ('r, 'i, 'w) maxmind \<Rightarrow> bool \<Rightarrow> string list
   \<Rightarrow> 'w MapManager \<times> 'r GeoIPManager option \<times> 'w \<Rightarrow> 'w MapManager \<times> 'r GeoIPManager option \<times> 'w" where
  "restoreTargets os db isWhitelist [] (m, geo, w) = (m, geo, w)"
| "restoreTargets os db isWhitelist (target # ts) (m, geo, w) =
     (case (if isWhitelist then AddWhitelistTarget target (m, w) else AddBlacklistTarget target (m, w)) of
        (m1, w1) \<Rightarrow>
          (case applyTargetToMap os db m1 isWhitelist target (geo, w1) of
             (geo1, w2) \<Rightarrow> restoreTargets os db isWhitelist ts (m1, geo1, w2)))"

definition restoreRulesState ::
  "'w goos \<Rightarrow> ('r, 'i, 'w) maxmind \<Rightarrow> string
   \<Rightarrow> 'w MapManager option \<times> 'r GeoIPManager option \<times> 'w
   \<Rightarrow> 'w MapManager option \<times> 'r GeoIPManager option \<times> 'w" where
  "restoreRulesState os db stateFilePath = (\<lambda>(mapMgr, geo, w).
     case mapMgr of
       None \<Rightarrow> (mapMgr, geo, w)
     | Some m \<Rightarrow>
         (if stateFilePath = [] then (mapMgr, geo, w)
          else case ReadFile os stateFilePath w of
            None \<Rightarrow> (mapMgr, geo, w)
          | Some text \<Rightarrow>
              (case unmarshalState text of
                 None \<Rightarrow> (mapMgr, geo, w)
               | Some state \<Rightarrow>
                   (case restoreTargets os db True (StateWhitelist state)
                           (restoreTargets os db False (StateBlacklist state)
                              (m, geo, fst (SetGeoIPPolicy m (GeoIPPolicy state) w))) of
                      (m', geo', w') \<Rightarrow> (Some m', geo', w')))))"

subsection \<open>Mitigation log\<close>

record MitigationEvent =
  Timestamp :: string
  Event :: string
  EventIP :: string
  Reason :: string
  EventValue :: u64

definition marshalEvent :: "MitigationEvent \<Rightarrow> string" where
  "marshalEvent ev =
     CHR ''{'' # jsonMember ''timestamp'' (jsonString (Timestamp ev))
     @ CHR '','' # jsonMember ''event'' (jsonString (Event ev))
     @ CHR '','' # jsonMember ''ip'' (jsonString (EventIP ev))
     @ CHR '','' # jsonMember ''reason'' (jsonString (Reason ev))
     @ CHR '','' # jsonMember ''value'' (itoa (uint (EventValue ev))) @ ''}''"

definition writeMitigationLog ::
  "'w goos \<Rightarrow> string \<Rightarrow> string \<Rightarrow> string \<Rightarrow> u64 \<Rightarrow> 'w \<Rightarrow> 'w" where
  "writeMitigationLog os event ip reason val w =
     (let logDir = resolvePath os ''logs'' w in
      case MkdirAll os logDir w of
        (w1, ok) \<Rightarrow>
          (if \<not> ok then w1
           else let logPath = logDir @ ''/mitigation.log'';
                    ev = \<lparr>Timestamp = TimeText os w1, Event = event, EventIP = ip, Reason = reason,
                          EventValue = val\<rparr>
                in fst (AppendCreateFile os logPath (marshalEvent ev @ [newline]) w1)))"

subsection \<open>Reading the state file back\<close>

lemma foldName_members:
  "foldName (utf8Clean ''geoip_policy'') = foldName ''geoip_policy''"
  "foldName (utf8Clean ''blacklist_targets'') = foldName ''blacklist_targets''"
  "foldName (utf8Clean ''whitelist_targets'') = foldName ''whitelist_targets''"
  "foldName ''blacklist_targets'' \<noteq> foldName ''geoip_policy''"
  "foldName ''whitelist_targets'' \<noteq> foldName ''geoip_policy''"
  "foldName ''whitelist_targets'' \<noteq> foldName ''blacklist_targets''"
  by code_simp+

definition stateTokens :: "RulesState \<Rightarrow> token list" where
  "stateTokens st =
     [TLBrace, TStr (utf8Clean ''geoip_policy''), TColon, TNum (itoa (uint (GeoIPPolicy st))), TComma,
      TStr (utf8Clean ''blacklist_targets''), TColon] @ arrayTokens (StateBlacklist st)
     @ [TComma, TStr (utf8Clean ''whitelist_targets''), TColon] @ arrayTokens (StateWhitelist st) @ [TRBrace]"

lemma lexTokens_marshalState: "lexTokens (marshalState st) = Some (stateTokens st)"
  by (simp add: marshalState_def jsonMember_def stateTokens_def lex_simps lexTokens_itoa
      lexTokens_jsonArray del: utf8Clean.simps)

lemma parseJson_marshalState:
  "parseJson (marshalState st) = Some (JObj
     [(utf8Clean ''geoip_policy'', JNum (itoa (uint (GeoIPPolicy st)))),
      (utf8Clean ''blacklist_targets'', JArr (map (JStr \<circ> utf8Clean) (StateBlacklist st))),
      (utf8Clean ''whitelist_targets'', JArr (map (JStr \<circ> utf8Clean) (StateWhitelist st)))])"
  by (simp add: parseJson_def lexTokens_marshalState stateTokens_def beginValue_def openFrame_def
      jsonRun_append jsonRun_arrayTokens maxNestingDepth_def del: utf8Clean.simps)

lemma unmarshal_marshal:
  "unmarshalState (marshalState st) =
     Some (st\<lparr>StateBlacklist := map utf8Clean (StateBlacklist st),
              StateWhitelist := map utf8Clean (StateWhitelist st)\<rparr>)"
  by (simp add: unmarshalState_def Unmarshal_def parseJson_marshalState decodeStruct_def
      decodeStateField_def foldName_members decodeUint64_itoa decodeSlice_strings
      del: utf8Clean.simps foldName.simps)

subsection \<open>Neither touches the kernel\<close>

lemma saveRulesState_view: "os_frame os view \<Longrightarrow> view (saveRulesState os f mm w) = view w"
  by (auto simp: saveRulesState_def os_frame_def split: option.splits)

lemma writeMitigationLog_view: "os_frame os view \<Longrightarrow> view (writeMitigationLog os e i r v w) = view w"
proof -
  assume fr: "os_frame os view"
  obtain w1 ok where mk: "MkdirAll os (resolvePath os ''logs'' w) w = (w1, ok)" by fastforce
  have "view w1 = view w" using fr mk unfolding os_frame_def by (metis fst_conv)
  moreover have "view (fst (AppendCreateFile os f c w1)) = view w1" for f c
    using fr by (simp add: os_frame_def)
  ultimately show ?thesis using mk by (simp add: writeMitigationLog_def Let_def)
qed

subsection \<open>What restoring does\<close>

text \<open>Restoring adds entries to the two tries and touches no other map.\<close>

definition grows :: "kernel_view \<Rightarrow> kernel_view \<Rightarrow> bool" where
  "grows v v' \<longleftrightarrow>
     dom (vBlacklist v) \<subseteq> dom (vBlacklist v') \<and> dom (vWhitelist v) \<subseteq> dom (vWhitelist v') \<and>
     vIpStats v' = vIpStats v \<and> vBackend v' = vBackend v \<and> vConfig v' = vConfig v"

lemma grows_refl [simp]: "grows v v"
  by (simp add: grows_def)

lemma grows_trans: "grows u v \<Longrightarrow> grows v w \<Longrightarrow> grows u w"
  by (simp add: grows_def) (blast intro: subset_trans)

lemma block_grows:
  assumes "kernel_contract (objs m) view"
  shows "grows (view w) (view (fst (BlockCIDR os m c w)))"
proof -
  obtain w' e where r: "BlockCIDR os m c w = (w', e)" by fastforce
  from block_run[OF assms r] r show ?thesis by (auto simp: grows_def split: option.splits)
qed

lemma whitelist_grows:
  assumes "kernel_contract (objs m) view"
  shows "grows (view w) (view (fst (AddWhitelistCIDR m c w)))"
proof -
  obtain w' e where r: "AddWhitelistCIDR m c w = (w', e)" by fastforce
  from whitelist_add_run[OF assms r] r show ?thesis by (auto simp: grows_def split: option.splits)
qed

lemma fold_grows:
  assumes "\<And>c w. grows (view w) (view (f c w))"
  shows "grows (view w) (view (fold f cs w))"
  using assms by (induction cs arbitrary: w) (auto intro: grows_trans)

lemma applyTargetToMap_grows:
  assumes "kernel_contract (objs m) view"
  shows "grows (view w) (view (snd (applyTargetToMap os db m wl t (geo, w))))"
  using fold_grows[where f = "\<lambda>c w. fst (if wl then AddWhitelistCIDR m c w else BlockCIDR os m c w)"
      and view = view] block_grows[OF assms] whitelist_grows[OF assms]
  by (auto simp: applyTargetToMap_def split: prod.splits)

lemma restoreTargets_run:
  assumes "kernel_contract (objs m) view" "restoreTargets os db wl ts (m, geo, w) = (m', geo', w')"
  shows "objs m' = objs m \<and> grows (view w) (view w') \<and>
    BlacklistTargets m' = (if wl then BlacklistTargets m else BlacklistTargets m |\<union>| fset_of_list ts) \<and>
    WhitelistTargets m' = (if wl then WhitelistTargets m |\<union>| fset_of_list ts else WhitelistTargets m)"
  using assms
proof (induction ts arbitrary: m geo w)
  case (Cons t ts)
  obtain m1 w1 where a: "(if wl then AddWhitelistTarget t (m, w) else AddBlacklistTarget t (m, w)) = (m1, w1)"
    by fastforce
  obtain geo1 w2 where p: "applyTargetToMap os db m1 wl t (geo, w1) = (geo1, w2)" by fastforce
  from a have m1: "objs m1 = objs m" "w1 = w"
      "BlacklistTargets m1 = (if wl then BlacklistTargets m else finsert t (BlacklistTargets m))"
      "WhitelistTargets m1 = (if wl then finsert t (WhitelistTargets m) else WhitelistTargets m)"
    by (auto simp: AddWhitelistTarget_def AddBlacklistTarget_def split: if_splits)
  have kc: "kernel_contract (objs m1) view" using Cons.prems(1) m1(1) by simp
  have g: "grows (view w) (view w2)" using applyTargetToMap_grows[OF kc, of w os db wl t geo] p m1(2) by simp
  have "restoreTargets os db wl ts (m1, geo1, w2) = (m', geo', w')" using Cons.prems(2) a p by simp
  from Cons.IH[OF kc this] m1 g show ?case by (auto intro: grows_trans)
qed simp

lemma set_policy_run:
  assumes "kernel_contract (objs m) view" "SetGeoIPPolicy m p w = (w', e)"
  shows "grows (view w) (view w'\<lparr>vConfig := vConfig (view w)\<rparr>)"
    "e = None \<Longrightarrow> \<not> is_nil (ConfigMap (objs m)) \<and> vConfig (view w') 2 = Some p"
  using assms config_put[OF assms(1), of 2 p w]
  by (auto simp: SetGeoIPPolicy_def grows_def split: if_splits prod.splits)

lemma restore_run:
  assumes kc: "kernel_contract (objs m0) view"
    and stored: "f \<noteq> []" "ReadFile os f w = Some text" "unmarshalState text = Some st"
    and run: "restoreRulesState os db f (Some m0, geo, w) = (mm, geo', w')"
  shows "\<exists>m'. mm = Some m' \<and> objs m' = objs m0 \<and>
    BlacklistTargets m' = BlacklistTargets m0 |\<union>| fset_of_list (StateBlacklist st) \<and>
    WhitelistTargets m' = WhitelistTargets m0 |\<union>| fset_of_list (StateWhitelist st) \<and>
    grows (view (fst (SetGeoIPPolicy m0 (GeoIPPolicy st) w))) (view w')"
proof -
  let ?w1 = "fst (SetGeoIPPolicy m0 (GeoIPPolicy st) w)"
  obtain m1 geo1 w1 where b: "restoreTargets os db False (StateBlacklist st) (m0, geo, ?w1) = (m1, geo1, w1)"
    by (metis prod.collapse)
  note r1 = restoreTargets_run[OF kc b]
  obtain m2 geo2 w2 where c: "restoreTargets os db True (StateWhitelist st) (m1, geo1, w1) = (m2, geo2, w2)"
    by (metis prod.collapse)
  have "kernel_contract (objs m1) view" using r1 kc by simp
  note r2 = restoreTargets_run[OF this c]
  from run stored b c have "mm = Some m2" "w' = w2" by (simp_all add: restoreRulesState_def)
  with r1 r2 show ?thesis by (auto intro: grows_trans)
qed

text \<open>Restoring what another process saved.\<close>

lemma restart_run:
  assumes "map_order_contract os" "kernel_contract prog view"
    and "f \<noteq> []" "ReadFile os f w = Some (marshalState (currentState os m saved))"
    and "\<forall>t. t |\<in>| BlacklistTargets m |\<union>| WhitelistTargets m \<longrightarrow> utf8Clean t = t"
    and "restoreRulesState os db f (Some (NewMapManager prog), geo, w) = (Some m', geo', w')"
  shows "BlacklistTargets m' = BlacklistTargets m \<and> WhitelistTargets m' = WhitelistTargets m \<and>
    (snd (SetGeoIPPolicy (NewMapManager prog) (fst (GetGeoIPPolicy m saved)) w) = None \<longrightarrow>
       GetGeoIPPolicy m' w' = (fst (GetGeoIPPolicy m saved), None)) \<and>
    dom (vBlacklist (view w)) \<subseteq> dom (vBlacklist (view w')) \<and>
    dom (vWhitelist (view w)) \<subseteq> dom (vWhitelist (view w')) \<and>
    vIpStats (view w') = vIpStats (view w) \<and> vBackend (view w') = vBackend (view w)"
proof -
  let ?m0 = "NewMapManager prog" and ?st = "currentState os m saved"
  let ?clean = "?st\<lparr>StateBlacklist := map utf8Clean (StateBlacklist ?st),
      StateWhitelist := map utf8Clean (StateWhitelist ?st)\<rparr>"
  have kc: "kernel_contract (objs ?m0) view" using assms(2) by (simp add: NewMapManager_def)
  obtain w1 e where p: "SetGeoIPPolicy ?m0 (GeoIPPolicy ?st) w = (w1, e)" by fastforce
  have sets: "set (StateBlacklist ?st) = fset (BlacklistTargets m)" "set (StateWhitelist ?st) = fset (WhitelistTargets m)"
    using bt.set_list[OF assms(1)] wt.set_list[OF assms(1)] by (simp_all add: currentState_def)
  have "map utf8Clean (StateBlacklist ?st) = StateBlacklist ?st" "map utf8Clean (StateWhitelist ?st) = StateWhitelist ?st"
    using assms(5) sets by (auto intro!: map_idI)
  with restore_run[OF kc assms(3,4) unmarshal_marshal assms(6)] sets p
  have r: "objs m' = prog" "BlacklistTargets m' = BlacklistTargets m" "WhitelistTargets m' = WhitelistTargets m"
    "grows (view w1) (view w')"
    by (auto simp: NewMapManager_def fset_of_list.rep_eq fset_eq_iff)
  have "GetGeoIPPolicy m' w' = (GeoIPPolicy ?st, None)" if "e = None"
    using set_policy_run(2)[OF kc p that] r(1,4) config_read[of m' view 2 w'] assms(2)
    by (simp add: GetGeoIPPolicy_def grows_def NewMapManager_def)
  moreover have "grows (view w) (view w'\<lparr>vConfig := vConfig (view w)\<rparr>)"
    using set_policy_run(1)[OF kc p] r(4) by (simp add: grows_def) (blast intro: subset_trans)
  ultimately show ?thesis using r(2,3) p by (simp add: currentState_def grows_def)
qed

subsection \<open>Properties\<close>

text \<open>
  C21: The state file is read back as it was written, whatever the targets are: the policy and both
  lists in their order, each target with the bytes that are no valid UTF-8 replaced.
\<close>

theorem state_file_roundtrip:
  "unmarshalState (marshalState st) =
     Some (st\<lparr>StateBlacklist := map utf8Clean (StateBlacklist st),
              StateWhitelist := map utf8Clean (StateWhitelist st)\<rparr>)"
  by (rule unmarshal_marshal)

text \<open>
  A restart restores the rules: when the state file holds what one process saved, a new process
  ends with the same blacklist and whitelist targets (if they are valid UTF-8), with the policy
  that was saved (if the kernel accepted writing it), and without having removed anything or touched
  the statistics and the routes.
\<close>

theorem restart_restores_rules:
  assumes "map_order_contract os" "kernel_contract prog view"
    and "f \<noteq> []" "ReadFile os f w = Some (marshalState (currentState os m saved))"
    and "\<forall>t. t |\<in>| BlacklistTargets m |\<union>| WhitelistTargets m \<longrightarrow> utf8Clean t = t"
    and "restoreRulesState os db f (Some (NewMapManager prog), geo, w) = (Some m', geo', w')"
  shows "BlacklistTargets m' = BlacklistTargets m \<and> WhitelistTargets m' = WhitelistTargets m \<and>
    (snd (SetGeoIPPolicy (NewMapManager prog) (fst (GetGeoIPPolicy m saved)) w) = None \<longrightarrow>
       GetGeoIPPolicy m' w' = (fst (GetGeoIPPolicy m saved), None)) \<and>
    dom (vBlacklist (view w)) \<subseteq> dom (vBlacklist (view w')) \<and>
    dom (vWhitelist (view w)) \<subseteq> dom (vWhitelist (view w')) \<and>
    vIpStats (view w') = vIpStats (view w) \<and> vBackend (view w') = vBackend (view w)"
  using assms by (rule restart_run)

definition savedManager :: "world MapManager" where
  "savedManager = refManager\<lparr>BlacklistTargets := {|''198.51.100.7''|}, WhitelistTargets := {|''10.0.0.0/8''|}\<rparr>"

definition restartWorld :: world where
  "restartWorld = emptyWorld\<lparr>wFiles := [(''rules.json'', marshalState (currentState refOS savedManager emptyWorld))]\<rparr>"

theorem restart_restores_rules_witness:
  "\<exists>m'. fst (restoreRulesState refOS refDB ''rules.json'' (Some refManager, None, restartWorld)) = Some m' \<and>
     BlacklistTargets m' = {|''198.51.100.7''|} \<and> WhitelistTargets m' = {|''10.0.0.0/8''|}"
proof -
  obtain mm geo' w' where run: "restoreRulesState refOS refDB ''rules.json'' (Some refManager, None, restartWorld)
      = (mm, geo', w')" by (metis prod.collapse)
  have stored: "ReadFile refOS ''rules.json'' restartWorld = Some (marshalState (currentState refOS savedManager emptyWorld))"
    by (simp add: restartWorld_def refOS_def)
  from restore_run[OF _ _ stored unmarshal_marshal run] refObjs_contract obtain m' where m': "mm = Some m'" by auto
  have "\<forall>t. t |\<in>| BlacklistTargets savedManager |\<union>| WhitelistTargets savedManager \<longrightarrow> utf8Clean t = t"
    by (auto simp: savedManager_def utf8Clean_ascii byteVal_def)
  from restart_restores_rules[OF refOS_order refObjs_contract _ stored this run[unfolded m' refManager_def]] m' run
  show ?thesis by (simp add: savedManager_def refManager_def)
qed

end
