(* ===== verification/AutoMitigation.thy ===== *)
theory AutoMitigation
  imports Mitigation SysStats Persist
begin

text \<open>
  The mitigation engine (\<open>startAutoMitigation\<close> in \<open>main.go\<close>): one tick of its loop, composed of the
  sensor readings, the state machine, the policy, the scan and the expiry sweep.

  The engine's local variables, the metrics it sets and the sync events it starts are one state
  record; the kernel and the operating system are the world.  A sync event is sent by goroutines of
  its own, which share nothing with the engine; starting it is recorded in an outbox.
\<close>

subsection \<open>State\<close>

record gauges =
  metricMitigationLevel :: nat
  metricCPUUsage :: float64
  metricRAMUsage :: float64
  metricMapUsage :: float64
  metricQueueDropRatio :: float64
  metricRings :: "u32 \<times> u32 \<times> u32 \<times> u32"
  metricScanBudget :: int
  metricSurvivalActivations :: nat

datatype sync_event = SyncIP string string string

record 'w engine =
  mapMgr :: "'w MapManager option"
  prevCPU :: cpuStats
  prevDrops :: u64
  prevPkts :: u64
  warmupCycles :: nat
  machine :: fsm
  metrics :: gauges
  outbox :: "sync_event list"

definition zeroCPU :: cpuStats where
  "zeroCPU =
     \<lparr>user = 0, nice = 0, system = 0, idle = 0, iowait = 0, irq = 0, softirq = 0, steal = 0,
      guest = 0, guestnice = 0\<rparr>"

definition zeroGauges :: gauges where
  "zeroGauges =
     \<lparr>metricMitigationLevel = 0, metricCPUUsage = 0, metricRAMUsage = 0, metricMapUsage = 0,
      metricQueueDropRatio = 0, metricRings = (0, 0, 0, 0), metricScanBudget = 0,
      metricSurvivalActivations = 0\<rparr>"

definition readQueueBase :: "'w goos \<Rightarrow> string \<Rightarrow> 'w \<Rightarrow> 'w engine \<Rightarrow> 'w engine" where
  "readQueueBase os iface w s =
     (case getQueueStats os iface w of
        Inl _ \<Rightarrow> s
      | Inr (d, p) \<Rightarrow> s\<lparr>prevDrops := d, prevPkts := p\<rparr>)"

definition startEngine :: "'w goos \<Rightarrow> string \<Rightarrow> 'w MapManager option \<Rightarrow> 'w \<Rightarrow> 'w engine" where
  "startEngine os iface mm w =
     readQueueBase os iface w
       \<lparr>mapMgr = mm,
        prevCPU = (case getCPUStats os w of Inl _ \<Rightarrow> zeroCPU | Inr stats \<Rightarrow> stats),
        prevDrops = 0, prevPkts = 0, warmupCycles = 3, machine = fsmInit, metrics = zeroGauges,
        outbox = []\<rparr>"

subsection \<open>Readings\<close>

definition readCPU :: "'w goos \<Rightarrow> 'w \<Rightarrow> cpuStats \<Rightarrow> float64 \<times> cpuStats" where
  "readCPU os w prev =
     (case getCPUStats os w of
        Inl _ \<Rightarrow> (0, prev)
      | Inr cur \<Rightarrow> (calculateCPUUsage prev cur, cur))"

definition readRAM :: "'w goos \<Rightarrow> 'w \<Rightarrow> float64" where
  "readRAM os w = (case getMemoryStats os w of Inl _ \<Rightarrow> 0 | Inr p \<Rightarrow> p)"

definition dropRatio :: "u64 \<Rightarrow> u64 \<Rightarrow> float64" where
  "dropRatio deltaDrops deltaPkts =
     (if deltaDrops + deltaPkts \<ge> 100
      then fdiv (float64_of deltaDrops) (float64_of (deltaDrops + deltaPkts)) else 0)"

definition readQueue ::
  "'w goos \<Rightarrow> string \<Rightarrow> 'w \<Rightarrow> u64 \<Rightarrow> u64 \<Rightarrow> float64 \<times> u64 \<times> u64" where
  "readQueue os iface w drops pkts =
     (case getQueueStats os iface w of
        Inl _ \<Rightarrow> (0, drops, pkts)
      | Inr (currDrops, currPkts) \<Rightarrow>
          (dropRatio (currDrops - drops) (currPkts - pkts), currDrops, currPkts))"

fun maxUsageOf :: "MapHealthInfo list \<Rightarrow> float64 \<Rightarrow> float64" where
  "maxUsageOf [] mx = mx"
| "maxUsageOf (h # hs) mx =
     maxUsageOf hs
       (if Name h = ''ip_stats_map'' \<or> Name h = ''ip_blacklist_map''
        then (if UsagePct h > mx then UsagePct h else mx) else mx)"

definition readMaps :: "'w MapManager \<Rightarrow> 'w \<Rightarrow> float64" where
  "readMaps m w = maxUsageOf (GetMapHealth m w) 0"

definition raiseTo32 :: "u32 \<Rightarrow> u32 \<Rightarrow> u32" where
  "raiseTo32 mx x = (if x > mx then x else mx)"

definition ringMax :: "RingStatsVal \<Rightarrow> u32" where
  "ringMax r =
     raiseTo32 (raiseTo32 (raiseTo32 (raiseTo32 0 (RxFillPct r)) (TxFillPct r)) (FillRingPct r))
       (CompletionRingPct r)"

definition readRings :: "'w MapManager \<Rightarrow> 'w \<Rightarrow> gauges \<Rightarrow> u32 \<times> gauges" where
  "readRings m w g =
     (case GetRingStats m w of
        Inl _ \<Rightarrow> (0, g)
      | Inr r \<Rightarrow>
          (ringMax r,
           g\<lparr>metricRings := (RxFillPct r, TxFillPct r, FillRingPct r, CompletionRingPct r)\<rparr>))"

text \<open>The readings of a tick, with the variables that remember the last sample and the ring gauges.\<close>

definition sense ::
  "'w goos \<Rightarrow> string \<Rightarrow> 'w MapManager \<Rightarrow> 'w \<Rightarrow> 'w engine \<Rightarrow> sensors \<times> 'w engine" where
  "sense os iface m w s =
     (case readCPU os w (prevCPU s) of (cpu, cpuSample') \<Rightarrow>
      case readQueue os iface w (prevDrops s) (prevPkts s) of (ratio, drops', pkts') \<Rightarrow>
      case readRings m w (metrics s) of (ring, g) \<Rightarrow>
        (\<lparr>cpuPercent = cpu, ramPercent = readRAM os w, queueDropRatio = ratio,
          maxMapUsage = readMaps m w, maxRingPct = ring\<rparr>,
         s\<lparr>prevCPU := cpuSample', prevDrops := drops', prevPkts := pkts', metrics := g\<rparr>))"

text \<open>The transition of the machine with the metrics it exports.\<close>

definition transition :: "sensors \<Rightarrow> 'w engine \<Rightarrow> 'w engine" where
  "transition x s =
     (let f = fsmStep x (machine s);
          g = metrics s;
          g1 = (if survivalActivated x (machine s)
                then g\<lparr>metricSurvivalActivations := metricSurvivalActivations g + 1\<rparr> else g)
      in s\<lparr>machine := f,
           metrics := g1\<lparr>metricMitigationLevel := currentLevel f, metricCPUUsage := cpuPercent x,
             metricRAMUsage := ramPercent x, metricMapUsage := maxMapUsage x,
             metricQueueDropRatio := queueDropRatio x,
             metricScanBudget := scanBudget (currentLevel f) (cpuPercent x)\<rparr>\<rparr>)"

subsection \<open>Reports\<close>

fun reportBlocked ::
  "'w goos \<Rightarrow> u64 \<Rightarrow> string list \<Rightarrow> sync_event list \<times> 'w \<Rightarrow> sync_event list \<times> 'w" where
  "reportBlocked os pps [] (out, w) = (out, w)"
| "reportBlocked os pps (ip # ips) (out, w) =
     reportBlocked os pps ips
       (out @ [SyncIP ''blacklist'' ''POST'' ip],
        writeMitigationLog os ''mitigation_block'' ip ''Traffic threshold exceeded'' pps w)"

definition forgetTarget :: "string \<Rightarrow> 'w MapManager \<times> 'w \<Rightarrow> 'w MapManager \<times> 'w" where
  "forgetTarget ip mw =
     (let mw1 = RemoveBlacklistTarget ip mw in
      if HasSuffix ip ''/32'' then RemoveBlacklistTarget (TrimSuffix ip ''/32'') mw1 else mw1)"

fun reportExpired ::
  "'w goos \<Rightarrow> string list \<Rightarrow> 'w MapManager \<times> sync_event list \<times> 'w
   \<Rightarrow> 'w MapManager \<times> sync_event list \<times> 'w" where
  "reportExpired os [] (m, out, w) = (m, out, w)"
| "reportExpired os (ip # ips) (m, out, w) =
     (let w1 = writeMitigationLog os ''auto_unblock'' ip ''Blacklist TTL expired'' 0 w in
      case forgetTarget ip (m, w1) of
        (m2, w2) \<Rightarrow> reportExpired os ips (m2, out @ [SyncIP ''blacklist'' ''DELETE'' ip], w2))"

subsection \<open>The tick\<close>

text \<open>The expiry part of a tick.\<close>

definition expirePart ::
  "'w goos \<Rightarrow> string \<Rightarrow> 'w MapManager \<Rightarrow> 'w engine \<times> 'w \<Rightarrow> 'w engine \<times> 'w" where
  "expirePart os stateFile m = (\<lambda>(s, w).
     let ttl = effectiveTTL (currentLevel (machine s)) (GetBlacklistCount m w) in
     case CleanExpiredBlacklist os m ttl w of
       ((expiredIPs, Some _), w1) \<Rightarrow> (s, w1)
     | ((expiredIPs, None), w1) \<Rightarrow>
         (if expiredIPs = [] then (s, w1)
          else case reportExpired os expiredIPs (m, outbox s, w1) of
            (m2, out2, w2) \<Rightarrow>
              (s\<lparr>mapMgr := Some m2, outbox := out2\<rparr>,
               saveRulesState os stateFile (Some m2) w2)))"

text \<open>
  The part between the readings and the expiry: machine, policy, scan and the reports of the scan.  A
  scan that fails reports nothing and ends the tick (the \<open>continue\<close> of the loop).
\<close>

definition blockPart ::
  "'w goos \<Rightarrow> 'w MapManager \<Rightarrow> sensors \<Rightarrow> 'w engine \<times> 'w \<Rightarrow> bool \<times> 'w engine \<times> 'w" where
  "blockPart os m x = (\<lambda>(s, w).
     let s1 = transition x s;
         level = currentLevel (machine s1);
         pps = ppsThreshold level;
         bps = bpsThreshold level;
         w1 = fst (UpdateRateLimits m pps bps w)
     in case ScanAndMitigate os m pps bps (scanBudget level (cpuPercent x)) w1 of
          ((blockedIPs, Some _), w2) \<Rightarrow> (False, s1, w2)
        | ((blockedIPs, None), w2) \<Rightarrow>
            (case reportBlocked os pps blockedIPs (outbox s1, w2) of
               (out, w3) \<Rightarrow> (True, s1\<lparr>outbox := out\<rparr>, w3)))"

definition actPart ::
  "'w goos \<Rightarrow> string \<Rightarrow> 'w MapManager \<Rightarrow> sensors \<Rightarrow> 'w engine \<times> 'w \<Rightarrow> 'w engine \<times> 'w" where
  "actPart os stateFile m x sw =
     (case blockPart os m x sw of
        (False, sw1) \<Rightarrow> sw1
      | (True, sw1) \<Rightarrow> expirePart os stateFile m sw1)"

definition engineTick ::
  "'w goos \<Rightarrow> string \<Rightarrow> string \<Rightarrow> 'w engine \<times> 'w \<Rightarrow> 'w engine \<times> 'w" where
  "engineTick os iface stateFile = (\<lambda>(s, w).
     case mapMgr s of
       None \<Rightarrow> (s, w)
     | Some m \<Rightarrow>
         (if warmupCycles s > 0 then
            (readQueueBase os iface w (s\<lparr>warmupCycles := warmupCycles s - 1\<rparr>), w)
          else case sense os iface m w s of
            (x, s1) \<Rightarrow> actPart os stateFile m x (s1, w)))"

text \<open>Between two ticks the environment changes the world and the API the manager.\<close>

fun engineRun ::
  "'w goos \<Rightarrow> string \<Rightarrow> string \<Rightarrow> ('w MapManager option \<times> 'w \<Rightarrow> 'w MapManager option \<times> 'w) list
   \<Rightarrow> 'w engine \<times> 'w \<Rightarrow> 'w engine \<times> 'w" where
  "engineRun os iface stateFile [] sw = sw"
| "engineRun os iface stateFile (e # es) (s, w) =
     (case e (mapMgr s, w) of
        (mm, w1) \<Rightarrow> engineRun os iface stateFile es (engineTick os iface stateFile (s\<lparr>mapMgr := mm\<rparr>, w1)))"

subsection \<open>The map sensor\<close>

lemma maxUsageOf_quiet:
  "list_all (\<lambda>h. Name h = ''ip_stats_map'' \<or> Name h = ''ip_blacklist_map'' \<longrightarrow> UsagePct h \<le> mx) hs \<Longrightarrow>
   maxUsageOf hs mx = mx"
  by (induction hs) auto

lemma health_unmeasured:
  "h \<in> set (GetMapHealth m w) \<Longrightarrow> Name h = ''ip_stats_map'' \<or> Name h = ''ip_blacklist_map'' \<Longrightarrow>
   UsagePct h = 0"
  by (auto simp: GetMapHealth_def healthTable_def healthCount_def usagePct_def Let_def split: option.splits)

lemma readMaps_0: "readMaps m w = 0"
  unfolding readMaps_def
  by (rule maxUsageOf_quiet) (auto simp: list_all_iff health_unmeasured)

subsection \<open>What a tick leaves alone\<close>

text \<open>The parts of the kernel no sweep writes.\<close>

definition quiet :: "kernel_view \<Rightarrow> kernel_view \<Rightarrow> bool" where
  "quiet v v' \<longleftrightarrow> vWhitelist v' = vWhitelist v \<and> vBackend v' = vBackend v \<and> vConfig v' = vConfig v"

lemma quiet_refl [simp]: "quiet v v"
  by (simp add: quiet_def)

lemma quiet_trans [trans]: "quiet u v \<Longrightarrow> quiet v w \<Longrightarrow> quiet u w"
  by (simp add: quiet_def)

lemma blocked_quiet: "blocked_view B v v' \<Longrightarrow> quiet v v'"
  by (simp add: blocked_view_def quiet_def)

lemma expire_quiet: "quiet v (expire_view E v)"
  by (simp add: expire_view_def quiet_def)

lemma reportBlocked_view:
  "os_frame os view \<Longrightarrow> view (snd (reportBlocked os pps ips (out, w))) = view w"
  by (induction ips arbitrary: out w) (simp_all add: writeMitigationLog_view)

lemma forgetTarget_world: "snd (forgetTarget ip mw) = snd mw"
  by (simp add: forgetTarget_def RemoveBlacklistTarget_def Let_def split: prod.splits)

lemma reportExpired_view:
  "os_frame os view \<Longrightarrow> view (snd (snd (reportExpired os ips (m, out, w)))) = view w"
proof (induction ips arbitrary: m out w)
  case (Cons ip ips)
  let ?w1 = "writeMitigationLog os ''auto_unblock'' ip ''Blacklist TTL expired'' 0 w"
  obtain m2 w2 where f: "forgetTarget ip (m, ?w1) = (m2, w2)" by fastforce
  with forgetTarget_world[of ip "(m, ?w1)"] have "w2 = ?w1" by simp
  with Cons f show ?case by (simp add: Let_def writeMitigationLog_view)
qed simp

lemma expirePart_quiet:
  assumes kc: "kernel_contract (objs m) view" and kd: "kernel_deletes (objs m) view"
    and fr: "os_frame os view"
  shows "quiet (view w) (view (snd (expirePart os stateFile m (s, w))))"
proof -
  let ?ttl = "effectiveTTL (currentLevel (machine s)) (GetBlacklistCount m w)"
  obtain cs e w1 where c: "CleanExpiredBlacklist os m ?ttl w = ((cs, e), w1)" by (metis prod.collapse)
  from clean_run[OF kc kd c] have q: "quiet (view w) (view w1)" by (auto simp: expire_quiet)
  obtain m2 out2 w2 where r: "reportExpired os cs (m, outbox s, w1) = (m2, out2, w2)" by (metis prod.collapse)
  have "view w2 = view w1" using reportExpired_view[OF fr, of cs m "outbox s" w1] r by simp
  with q c r show ?thesis
    by (auto simp: expirePart_def Let_def saveRulesState_view[OF fr] split: option.splits)
qed

lemma transition_simps [simp]:
  "mapMgr (transition x s) = mapMgr s" "machine (transition x s) = fsmStep x (machine s)"
  "outbox (transition x s) = outbox s" "warmupCycles (transition x s) = warmupCycles s"
  by (simp_all add: transition_def Let_def)

lemma actPart_quiet:
  assumes kc: "kernel_contract (objs m) view" and kd: "kernel_deletes (objs m) view"
    and fr: "os_frame os view"
  shows "quiet (view (fst (UpdateRateLimits m (ppsThreshold (currentLevel (fsmStep x (machine s))))
      (bpsThreshold (currentLevel (fsmStep x (machine s)))) w)))
    (view (snd (actPart os stateFile m x (s, w))))"
proof -
  let ?l = "currentLevel (fsmStep x (machine s))"
  let ?w1 = "fst (UpdateRateLimits m (ppsThreshold ?l) (bpsThreshold ?l) w)"
  obtain ips e w2 where sc: "ScanAndMitigate os m (ppsThreshold ?l) (bpsThreshold ?l)
      (scanBudget ?l (cpuPercent x)) ?w1 = ((ips, e), w2)" by (metis prod.collapse)
  from scan_run[OF kc kd sc] have q: "quiet (view ?w1) (view w2)" by (auto intro: blocked_quiet)
  obtain out w3 where r: "reportBlocked os (ppsThreshold ?l) ips (outbox s, w2) = (out, w3)" by fastforce
  have "view w3 = view w2" using reportBlocked_view[OF fr, of "ppsThreshold ?l" ips "outbox s" w2] r by simp
  with expirePart_quiet[OF kc kd fr, of w3 stateFile "transition x s\<lparr>outbox := out\<rparr>"] q
  have "quiet (view ?w1) (view (snd (expirePart os stateFile m (transition x s\<lparr>outbox := out\<rparr>, w3))))"
    by (auto intro: quiet_trans)
  with q sc r show ?thesis
    by (cases e) (simp_all add: actPart_def blockPart_def Let_def)
qed

subsection \<open>The machine through the ticks\<close>

lemma expirePart_machine: "machine (fst (expirePart os stateFile m (s, w))) = machine s"
  by (auto simp: expirePart_def Let_def split: prod.splits option.splits)

lemma actPart_machine: "machine (fst (actPart os stateFile m x (s, w))) = fsmStep x (machine s)"
  by (auto simp: actPart_def blockPart_def Let_def expirePart_machine split: prod.splits option.splits)

lemma sense_simps:
  "sense os iface m w s = (x, s1) \<Longrightarrow> mapMgr s1 = mapMgr s \<and> machine s1 = machine s \<and> outbox s1 = outbox s"
  by (auto simp: sense_def split: prod.splits)

lemma readQueueBase_simps [simp]:
  "mapMgr (readQueueBase os iface w s) = mapMgr s" "machine (readQueueBase os iface w s) = machine s"
  "outbox (readQueueBase os iface w s) = outbox s" "warmupCycles (readQueueBase os iface w s) = warmupCycles s"
  by (auto simp: readQueueBase_def split: sum.splits)

lemma engineTick_machine:
  "machine (fst (engineTick os iface stateFile (s, w))) =
     (case mapMgr s of None \<Rightarrow> machine s
      | Some m \<Rightarrow> if warmupCycles s > 0 then machine s
          else fsmStep (fst (sense os iface m w s)) (machine s))"
  by (auto simp: engineTick_def actPart_machine dest!: sense_simps split: option.splits prod.splits)

lemma engineTick_inv: "fsm_inv (machine s) \<Longrightarrow> fsm_inv (machine (fst (engineTick os iface stateFile (s, w))))"
  by (auto simp: engineTick_machine fsmStep_inv split: option.splits)

lemma engineRun_inv:
  "fsm_inv (machine (fst sw)) \<Longrightarrow> fsm_inv (machine (fst (engineRun os iface stateFile es sw)))"
proof (induction es arbitrary: sw)
  case (Cons e es)
  obtain s w where sw: "sw = (s, w)" by fastforce
  obtain mm w1 where e: "e (mapMgr s, w) = (mm, w1)" by fastforce
  have "fsm_inv (machine (fst (engineTick os iface stateFile (s\<lparr>mapMgr := mm\<rparr>, w1))))"
    using Cons.prems sw by (intro engineTick_inv) simp
  with Cons.IH sw e show ?case by simp
qed simp

subsection \<open>Targets through a tick\<close>

text \<open>The text of a stored key never ends in \<open>/32\<close>.\<close>

lemma suffix_appendD: "suffix t (a @ s) \<Longrightarrow> suffix t s \<or> suffix s t"
  by (metis suffix_append suffix_appendI suffix_order.eq_iff suffix_same_cases suffixI)

lemma short_prefix_texts:
  "list_all (\<lambda>n. \<not> suffix ''/32'' (CHR ''/'' # itoa n) \<and> \<not> suffix (CHR ''/'' # itoa n) ''/32'') [0..31]"
  by code_simp

lemma formatLpmKey_no_slash32:
  assumes "canonicalKey k"
  shows "\<not> HasSuffix (formatLpmKey k) ''/32''"
proof (cases "PrefixLen k = 32")
  case True
  then have "CHR ''/'' \<notin> set (formatLpmKey k)"
    using slash_notin_IPv4String by (simp add: formatLpmKey_def PutUint32_def)
  then show ?thesis by (auto simp: HasSuffix_def suffix_def)
next
  case False
  let ?n = "uint (PrefixLen k)" and ?ip = "IPv4String (PutUint32 (Data k))"
  from assms have "PrefixLen k \<le> 32" by (simp add: canonicalKey_def)
  then have "?n \<le> 32" by (simp add: word_le_def)
  moreover have "?n \<noteq> 32" using False by (metis word_of_int_uint word_of_int_numeral)
  ultimately have "?n \<in> set [0..31]" by simp
  then have "\<not> suffix ''/32'' (CHR ''/'' # itoa ?n)" "\<not> suffix (CHR ''/'' # itoa ?n) ''/32''"
    using short_prefix_texts by (simp_all only: list_all_iff) blast+
  then have "\<not> suffix ''/32'' (?ip @ CHR ''/'' # itoa ?n)" using suffix_appendD by blast
  with False show ?thesis by (simp add: formatLpmKey_def HasSuffix_def Let_def)
qed

definition withoutTargets :: "string fset \<Rightarrow> 'w MapManager \<Rightarrow> 'w MapManager" where
  "withoutTargets ts m = m\<lparr>BlacklistTargets := BlacklistTargets m |-| ts\<rparr>"

lemma withoutTargets_simps [simp]:
  "BlacklistTargets (withoutTargets ts m) = BlacklistTargets m |-| ts" "objs (withoutTargets ts m) = objs m"
  "WhitelistTargets (withoutTargets ts m) = WhitelistTargets m"
  "withoutTargets us (withoutTargets ts m) = withoutTargets (ts |\<union>| us) m"
  "withoutTargets {||} m = m"
proof -
  have "A |-| ts |-| us = A |-| (ts |\<union>| us)" for A :: "string fset" by auto
  then show "withoutTargets us (withoutTargets ts m) = withoutTargets (ts |\<union>| us) m"
    by (simp add: withoutTargets_def)
qed (simp_all add: withoutTargets_def)

lemma forgetTarget_sets:
  "\<not> HasSuffix ip ''/32'' \<Longrightarrow> fst (forgetTarget ip mw) = withoutTargets {|ip|} (fst mw)"
  by (cases mw) (simp add: forgetTarget_def RemoveBlacklistTarget_def withoutTargets_def)

lemma reportExpired_targets:
  "list_all (\<lambda>ip. \<not> HasSuffix ip ''/32'') ips \<Longrightarrow>
   fst (reportExpired os ips (m, out, w)) = withoutTargets (fset_of_list ips) m"
proof (induction ips arbitrary: m out w)
  case (Cons ip ips)
  let ?w1 = "writeMitigationLog os ''auto_unblock'' ip ''Blacklist TTL expired'' 0 w"
  obtain m2 w2 where f: "forgetTarget ip (m, ?w1) = (m2, w2)" by fastforce
  with forgetTarget_sets[of ip "(m, ?w1)"] Cons.prems
  have "m2 = withoutTargets {|ip|} m" by simp
  with Cons f show ?case by (simp add: Let_def)
qed simp

text \<open>
  The targets an expiry part drops are the texts of entries that had outlived the time to live when it
  began, and that are gone when it ends.
\<close>

lemma expirePart_targets:
  assumes kc: "kernel_contract (objs m) view" and kd: "kernel_deletes (objs m) view"
    and mgr: "mapMgr s = Some m"
  shows "\<exists>ks. mapMgr (fst (expirePart os stateFile m (s, w))) = Some (withoutTargets (fset_of_list (map formatLpmKey ks)) m) \<and>
    (\<forall>k \<in> set ks. canonicalKey k \<and> (\<exists>v. vBlacklist (view w) k = Some v \<and>
       expiredEntry (effectiveTTL (currentLevel (machine s)) (GetBlacklistCount m w)) (UnixNow os w) v)) \<and>
    (os_frame os view \<longrightarrow> (\<forall>k \<in> set ks. vBlacklist (view (snd (expirePart os stateFile m (s, w)))) k = None))"
proof -
  let ?ttl = "effectiveTTL (currentLevel (machine s)) (GetBlacklistCount m w)"
  obtain cs e w1 where c: "CleanExpiredBlacklist os m ?ttl w = ((cs, e), w1)" by (metis prod.collapse)
  from clean_run[OF kc kd c] obtain ks where ks: "cs = map formatLpmKey ks"
      "\<forall>k \<in> set ks. canonicalKey k \<and> (\<exists>v. vBlacklist (view w) k = Some v \<and> expiredEntry ?ttl (UnixNow os w) v)"
      and gone: "view w1 = expire_view (set ks) (view w)" by blast
  obtain m2 out2 w2 where r: "reportExpired os cs (m, outbox s, w1) = (m2, out2, w2)" by (metis prod.collapse)
  have "list_all (\<lambda>ip. \<not> HasSuffix ip ''/32'') cs"
    using ks formatLpmKey_no_slash32 by (auto simp: list_all_iff)
  with reportExpired_targets[of cs os m "outbox s" w1] r
  have m2: "m2 = withoutTargets (fset_of_list cs) m" by simp
  show ?thesis
  proof (cases "e = None \<and> cs \<noteq> []")
    case True
    then have run: "mapMgr (fst (expirePart os stateFile m (s, w))) = Some m2"
      "snd (expirePart os stateFile m (s, w)) = saveRulesState os stateFile (Some m2) w2"
      using c r by (simp_all add: expirePart_def Let_def)
    have "vBlacklist (view (saveRulesState os stateFile (Some m2) w2)) k = None"
      if fr: "os_frame os view" and k: "k \<in> set ks" for k
      using reportExpired_view[OF fr, of cs m "outbox s" w1] r gone k
      by (simp add: saveRulesState_view[OF fr] expire_view_def)
    with run m2 ks show ?thesis by (intro exI[of _ ks]) simp
  next
    case False
    then have "mapMgr (fst (expirePart os stateFile m (s, w))) = Some m"
      using c r mgr by (auto simp: expirePart_def Let_def split: option.splits)
    then show ?thesis by (intro exI[of _ "[]"]) simp
  qed
qed

text \<open>
  The world in which a tick past the warm-up looks for expired entries: after its readings, its policy,
  its scan and the reports of the scan.
\<close>

definition sweepWorld :: "'w goos \<Rightarrow> string \<Rightarrow> 'w MapManager \<Rightarrow> 'w engine \<Rightarrow> 'w \<Rightarrow> 'w" where
  "sweepWorld os iface m s w =
     (case sense os iface m w s of (x, s1) \<Rightarrow> snd (snd (blockPart os m x (s1, w))))"

lemma reportBlocked_world: "snd (reportBlocked os pps ips (out, w)) = snd (reportBlocked os pps ips (out', w))"
proof (induction ips arbitrary: out out' w)
  case (Cons ip ips)
  show ?case unfolding reportBlocked.simps by (rule Cons.IH)
qed simp

lemma sense_outbox:
  "sense os iface m w (s\<lparr>mapMgr := mm, outbox := out\<rparr>) =
     (case sense os iface m w s of (x, s1) \<Rightarrow> (x, s1\<lparr>mapMgr := mm, outbox := out\<rparr>))"
  by (simp add: sense_def split: prod.splits)

lemma blockPart_world:
  "snd (snd (blockPart os m x (s\<lparr>mapMgr := mm, outbox := out\<rparr>, w))) = snd (snd (blockPart os m x (s, w)))"
proof -
  have "snd r = snd r' \<Longrightarrow> snd (snd (case r of (out, w3) \<Rightarrow> (True, f out, w3))) = snd (snd (case r' of (out, w3) \<Rightarrow> (True, g out, w3)))"
    for r :: "sync_event list \<times> 'a" and r' f g by (simp add: case_prod_beta)
  then show ?thesis
    by (auto simp: blockPart_def Let_def split: prod.split option.split intro: reportBlocked_world)
       (metis reportBlocked_world snd_conv)
qed

lemma sweepWorld_outbox [simp]: "sweepWorld os iface m (s\<lparr>mapMgr := mm, outbox := out\<rparr>) w = sweepWorld os iface m s w"
  by (simp add: sweepWorld_def sense_outbox blockPart_world split: prod.splits)

text \<open>The blocks the sweep finds are those that stood before the tick and those its own scan has made.\<close>

lemma sweepWorld_blacklist:
  assumes kc: "kernel_contract (objs m) view" and kd: "kernel_deletes (objs m) view" and fr: "os_frame os view"
    and v: "vBlacklist (view (sweepWorld os iface m s w)) k = Some v"
  shows "vBlacklist (view w) k = Some v \<or>
    (\<exists>a. k = hostKey a \<and> vIpStats (view w) a \<noteq> None \<and> vIpStats (view (sweepWorld os iface m s w)) a = None)"
proof -
  obtain x s1 where sn: "sense os iface m w s = (x, s1)" by fastforce
  let ?l = "currentLevel (fsmStep x (machine s1))"
  obtain w1 e1 where u: "UpdateRateLimits m (ppsThreshold ?l) (bpsThreshold ?l) w = (w1, e1)" by fastforce
  have same: "vBlacklist (view w1) = vBlacklist (view w)" "vIpStats (view w1) = vIpStats (view w)"
    using rate_limits_run[OF kc, where pps = "ppsThreshold ?l" and bps = "bpsThreshold ?l" and w = w] u
    by (auto split: option.splits)
  obtain ips e w2 where sc: "ScanAndMitigate os m (ppsThreshold ?l) (bpsThreshold ?l)
      (scanBudget ?l (cpuPercent x)) w1 = ((ips, e), w2)" by (metis prod.collapse)
  obtain out w3 where r: "reportBlocked os (ppsThreshold ?l) ips (outbox s1, w2) = (out, w3)" by fastforce
  have "view w3 = view w2" using reportBlocked_view[OF fr, of "ppsThreshold ?l" ips "outbox s1" w2] r by simp
  then have sw: "view (sweepWorld os iface m s w) = view w2"
    using sn u sc r by (cases e) (simp_all add: sweepWorld_def blockPart_def Let_def)
  from scan_run[OF kc kd sc] obtain bs where b: "blocked_view (set bs) (view w1) (view w2)"
    and off: "\<forall>a \<in> set bs. \<exists>vals. vIpStats (view w1) a = Some vals \<and>
      offender (ppsThreshold ?l) (bpsThreshold ?l) vals" by blast
  from off same have stats: "\<forall>a \<in> set bs. vIpStats (view w) a \<noteq> None" by auto
  show ?thesis
  proof (cases "k \<in> hostKey ` set bs")
    case True
    then obtain a where "k = hostKey a" "a \<in> set bs" by blast
    with b stats sw show ?thesis by (auto simp: blocked_view_def)
  next
    case False
    with b v sw same show ?thesis by (simp add: blocked_view_def)
  qed
qed

text \<open>Why a tick drops a target: its block had expired when the sweep of the tick looked at it.\<close>

definition expiredAt ::
  "'w goos \<Rightarrow> string \<Rightarrow> ('w \<Rightarrow> kernel_view) \<Rightarrow> 'w MapManager \<Rightarrow> nat \<Rightarrow> 'w engine \<Rightarrow> 'w \<Rightarrow> LpmTrieKey \<Rightarrow> bool" where
  "expiredAt os iface view m level s w k \<longleftrightarrow>
     (let u = sweepWorld os iface m s w in
      \<exists>v. vBlacklist (view u) k = Some v \<and>
        expiredEntry (effectiveTTL level (GetBlacklistCount m u)) (UnixNow os u) v \<and>
        (vBlacklist (view w) k = Some v \<or>
         (\<exists>a. k = hostKey a \<and> vIpStats (view w) a \<noteq> None \<and> vIpStats (view u) a = None)))"

lemma engineTick_targets:
  assumes kc: "kernel_contract (objs m) view" and kd: "kernel_deletes (objs m) view"
    and mgr: "mapMgr s = Some m"
  shows "\<exists>ks. mapMgr (fst (engineTick os iface stateFile (s, w))) = Some (withoutTargets (fset_of_list (map formatLpmKey ks)) m) \<and>
    (\<forall>k \<in> set ks. canonicalKey k) \<and>
    (os_frame os view \<longrightarrow> (\<forall>k \<in> set ks. vBlacklist (view (snd (engineTick os iface stateFile (s, w)))) k = None \<and>
       expiredAt os iface view m (currentLevel (machine (fst (engineTick os iface stateFile (s, w))))) s w k))"
proof (cases "warmupCycles s > 0")
  case True
  with mgr show ?thesis by (intro exI[of _ "[]"]) (simp add: engineTick_def)
next
  case False
  obtain x s1 where sn: "sense os iface m w s = (x, s1)" by fastforce
  obtain ok s2 u where b: "blockPart os m x (s1, w) = (ok, s2, u)" by (metis prod.collapse)
  have u: "sweepWorld os iface m s w = u" using sn b by (simp add: sweepWorld_def)
  have mgr2: "mapMgr s2 = Some m" using sense_simps[OF sn] mgr b
    by (auto simp: blockPart_def Let_def split: prod.splits option.splits)
  have tick: "engineTick os iface stateFile (s, w) = (if ok then expirePart os stateFile m (s2, u) else (s2, u))"
    using False mgr sn b by (cases ok) (simp_all add: engineTick_def actPart_def)
  show ?thesis
  proof (cases ok)
    case True
    from expirePart_targets[OF kc kd mgr2, of os stateFile u] obtain ks where
      ks: "mapMgr (fst (expirePart os stateFile m (s2, u))) = Some (withoutTargets (fset_of_list (map formatLpmKey ks)) m)"
        "\<forall>k \<in> set ks. canonicalKey k \<and> (\<exists>v. vBlacklist (view u) k = Some v \<and>
           expiredEntry (effectiveTTL (currentLevel (machine s2)) (GetBlacklistCount m u)) (UnixNow os u) v)"
        "os_frame os view \<longrightarrow> (\<forall>k \<in> set ks. vBlacklist (view (snd (expirePart os stateFile m (s2, u)))) k = None)"
      by blast
    have "expiredAt os iface view m (currentLevel (machine s2)) s w k" if "os_frame os view" "k \<in> set ks" for k
      using ks(2) that(2) sweepWorld_blacklist[OF kc kd that(1), of iface s w k] u
      by (auto simp: expiredAt_def Let_def)
    with ks tick True show ?thesis by (intro exI[of _ ks]) (simp add: expirePart_machine)
  next
    case False
    with tick mgr2 show ?thesis by (intro exI[of _ "[]"]) simp
  qed
qed

subsection \<open>Properties\<close>

text \<open>
  Whatever happens between the ticks, to the files the sensors read, to the maps and to the
  manager, the engine's state machine keeps its invariant from start-up on.
\<close>

theorem engine_keeps_invariant:
  "fsm_inv (machine (fst (engineRun os iface stateFile es (startEngine os iface mm w, w))))"
  by (rule engineRun_inv) (simp add: startEngine_def fsm_inv_init)

lemma engineTick_rest:
  assumes kc: "kernel_contract (objs m) view" and kd: "kernel_deletes (objs m) view"
    and fr: "os_frame os view" and mgr: "mapMgr s = Some m"
    and tick: "engineTick os iface stateFile (s, w) = (s', w')"
  shows "vWhitelist (view w') = vWhitelist (view w) \<and> vBackend (view w') = vBackend (view w) \<and>
    (\<forall>k. k \<noteq> 0 \<and> k \<noteq> 1 \<longrightarrow> vConfig (view w') k = vConfig (view w) k)"
proof (cases "warmupCycles s > 0")
  case True
  with mgr tick show ?thesis by (auto simp: engineTick_def)
next
  case False
  obtain x s1 where sn: "sense os iface m w s = (x, s1)" by fastforce
  let ?l = "currentLevel (fsmStep x (machine s1))"
  obtain w1 e where u: "UpdateRateLimits m (ppsThreshold ?l) (bpsThreshold ?l) w = (w1, e)" by fastforce
  have "snd (actPart os stateFile m x (s1, w)) = w'"
    using False mgr tick sn by (simp add: engineTick_def)
  with actPart_quiet[OF kc kd fr, of x s1 w stateFile] u have "quiet (view w1) (view w')" by simp
  moreover have "vWhitelist (view w1) = vWhitelist (view w) \<and> vBackend (view w1) = vBackend (view w) \<and>
      (\<forall>k. k \<noteq> 0 \<and> k \<noteq> 1 \<longrightarrow> vConfig (view w1) k = vConfig (view w) k)"
    using rate_limits_run[OF kc, where pps = "ppsThreshold ?l" and bps = "bpsThreshold ?l" and w = w] u by (auto split: option.splits)
  ultimately show ?thesis by (simp add: quiet_def)
qed

text \<open>
  C13: A tick of the engine never touches the whitelist, the routing table or the GeoIP policy: of the
  configuration it writes only the two rate limits.
\<close>

theorem engine_leaves_rest_alone:
  assumes kc: "kernel_contract (objs m) view" and kd: "kernel_deletes (objs m) view"
    and fr: "os_frame os view" and mgr: "mapMgr s = Some m"
    and tick: "engineTick os iface stateFile (s, w) = (s', w')"
  shows "vWhitelist (view w') = vWhitelist (view w) \<and> vBackend (view w') = vBackend (view w) \<and>
    (\<forall>k. k \<noteq> 0 \<and> k \<noteq> 1 \<longrightarrow> vConfig (view w') k = vConfig (view w) k)"
  using assms by (rule engineTick_rest)

definition refEngine :: "world engine" where
  "refEngine = (startEngine refOS ''eth0'' (Some refManager) floodWorld)\<lparr>warmupCycles := 0\<rparr>"

lemma refEngine_mgr: "mapMgr refEngine = Some refManager"
  by (simp add: refEngine_def startEngine_def)

theorem engine_leaves_rest_alone_witness:
  "vConfig (refView (snd (engineTick refOS ''eth0'' ''state.json'' (refEngine, floodWorld)))) 2
   = vConfig (refView floodWorld) 2"
proof -
  have "engineTick refOS ''eth0'' ''state.json'' (refEngine, floodWorld)
      = (fst (engineTick refOS ''eth0'' ''state.json'' (refEngine, floodWorld)),
         snd (engineTick refOS ''eth0'' ''state.json'' (refEngine, floodWorld)))" by simp
  from engine_leaves_rest_alone[OF _ _ refOS_frame refEngine_mgr this]
  show ?thesis using refObjs_contract refObjs_deletes by simp
qed

text \<open>
  C14: After a tick past the warm-up whose two writes of the limits succeed, the rate limits in force
  in the kernel are those of the level the machine is then in.
\<close>

theorem limits_match_level:
  assumes kc: "kernel_contract (objs m) view" and kd: "kernel_deletes (objs m) view"
    and fr: "os_frame os view" and mgr: "mapMgr s = Some m" and acts: "warmupCycles s = 0"
    and tick: "engineTick os iface stateFile (s, w) = (s', w')"
    and ok: "\<And>pps bps. snd (UpdateRateLimits m pps bps w) = None"
  shows "vConfig (view w') 0 = Some (ppsThreshold (currentLevel (machine s'))) \<and>
    vConfig (view w') 1 = Some (bpsThreshold (currentLevel (machine s')))"
proof -
  obtain x s1 where sn: "sense os iface m w s = (x, s1)" by fastforce
  have act: "actPart os stateFile m x (s1, w) = (s', w')"
    using acts mgr tick sn by (simp add: engineTick_def)
  then have l: "machine s' = fsmStep x (machine s1)" using actPart_machine[of os stateFile m x s1 w] by simp
  let ?l = "currentLevel (machine s')"
  obtain w1 where u: "UpdateRateLimits m (ppsThreshold ?l) (bpsThreshold ?l) w = (w1, None)"
    using ok[of "ppsThreshold ?l" "bpsThreshold ?l"] by (metis prod.collapse)
  have "quiet (view w1) (view w')" using actPart_quiet[OF kc kd fr, of x s1 w stateFile] act l u by simp
  moreover have "view w1 = vConfig_update (\<lambda>_. (vConfig (view w))(0 \<mapsto> ppsThreshold ?l, 1 \<mapsto> bpsThreshold ?l)) (view w)"
    using rate_limits_run[OF kc, where pps = "ppsThreshold ?l" and bps = "bpsThreshold ?l" and w = w] u by simp
  ultimately show ?thesis by (simp add: quiet_def)
qed

theorem limits_match_level_witness:
  "vConfig (refView (snd (engineTick refOS ''eth0'' ''state.json'' (refEngine, floodWorld)))) 0
   = Some (ppsThreshold (currentLevel (machine (fst (engineTick refOS ''eth0'' ''state.json'' (refEngine, floodWorld))))))"
proof -
  have tick: "engineTick refOS ''eth0'' ''state.json'' (refEngine, floodWorld)
      = (fst (engineTick refOS ''eth0'' ''state.json'' (refEngine, floodWorld)),
         snd (engineTick refOS ''eth0'' ''state.json'' (refEngine, floodWorld)))" by simp
  have "snd (UpdateRateLimits refManager pps bps floodWorld) = None" for pps bps
    by (simp add: UpdateRateLimits_def refObjs_def ref_map_def floodWorld_def emptyWorld_def Let_def
        map_of_entries update_conv')
  moreover have "warmupCycles refEngine = 0" by (simp add: refEngine_def)
  ultimately show ?thesis
    using limits_match_level[OF _ _ refOS_frame refEngine_mgr _ tick] refObjs_contract refObjs_deletes
    by simp
qed

text \<open>
  While the engine warms up a tick changes nothing but its own base samples: not the kernel, not
  the machine, and no event is sent.
\<close>

theorem warm_up_is_passive:
  assumes "mapMgr s = Some m" "warmupCycles s > 0"
  shows "case engineTick os iface stateFile (s, w) of (s', w') \<Rightarrow>
    w' = w \<and> machine s' = machine s \<and> outbox s' = outbox s \<and> mapMgr s' = mapMgr s \<and>
    Suc (warmupCycles s') = warmupCycles s"
  using assms by (simp add: engineTick_def)

theorem warm_up_is_passive_witness:
  "snd (engineTick refOS ''eth0'' ''state.json'' (startEngine refOS ''eth0'' (Some refManager) floodWorld, floodWorld))
   = floodWorld"
  using warm_up_is_passive[where s = "startEngine refOS ''eth0'' (Some refManager) floodWorld" and m = refManager
      and os = refOS and iface = "''eth0''" and stateFile = "''state.json''" and w = floodWorld]
  by (simp add: startEngine_def split: prod.splits)

text \<open>
  The map sensor reads zero whatever the maps hold: of the two names it looks for, one is in no
  health report and the other is reported without an entry count.
\<close>

theorem map_sensor_is_zero: "readMaps m w = 0"
  by (rule readMaps_0)

text \<open>
  A blacklist target the user wrote as a host with \<open>/32\<close> survives every tick: when its entry
  expires the engine forgets the host's plain address only, so the target is blocked again after a
  restart.
\<close>

theorem slash32_target_survives:
  assumes kc: "kernel_contract (objs m) view" and kd: "kernel_deletes (objs m) view"
    and mgr: "mapMgr s = Some m" and t: "t |\<in>| BlacklistTargets m" "HasSuffix t ''/32''"
  shows "\<exists>m'. mapMgr (fst (engineTick os iface stateFile (s, w))) = Some m' \<and> t |\<in>| BlacklistTargets m'"
proof -
  from engineTick_targets[OF kc kd mgr] obtain ks m'
    where m': "mapMgr (fst (engineTick os iface stateFile (s, w))) = Some m'"
      and can: "\<forall>k \<in> set ks. canonicalKey k"
      and "m' = withoutTargets (fset_of_list (map formatLpmKey ks)) m" by blast
  then have sets: "BlacklistTargets m' = BlacklistTargets m |-| fset_of_list (map formatLpmKey ks)" by simp
  have "t \<notin> set (map formatLpmKey ks)" using can t(2) formatLpmKey_no_slash32 by auto
  with m' sets t(1) show ?thesis by (auto simp: fset_of_list_elem)
qed

theorem slash32_target_survives_witness:
  "\<exists>m'. mapMgr (fst (engineTick refOS ''eth0'' ''state.json''
      (refEngine\<lparr>mapMgr := Some (refManager\<lparr>BlacklistTargets := {|''1.2.3.4/32''|}\<rparr>)\<rparr>,
       emptyWorld\<lparr>wBlacklist := [(hostKey 0x04030201, 1600000000)]\<rparr>))) = Some m' \<and>
     ''1.2.3.4/32'' |\<in>| BlacklistTargets m'"
proof (rule slash32_target_survives)
  show "kernel_contract (objs (refManager\<lparr>BlacklistTargets := {|''1.2.3.4/32''|}\<rparr>)) refView"
    using refObjs_contract by (simp add: refManager_def NewMapManager_def)
  show "kernel_deletes (objs (refManager\<lparr>BlacklistTargets := {|''1.2.3.4/32''|}\<rparr>)) refView"
    using refObjs_deletes by (simp add: refManager_def NewMapManager_def)
  show "HasSuffix ''1.2.3.4/32'' ''/32''" by code_simp
qed simp_all

text \<open>
  The drop ratio is between 0 and 1 as long as the two increments add up within 64 bits, and zero
  for fewer than 100 packets; when a counter was reset and the sum wraps to 100 or more, the ratio is
  at least 1, which is an emergency.
\<close>

theorem drop_ratio_range:
  "(unat d + unat p < 2 ^ 64 \<longrightarrow> 0 \<le> dropRatio d p \<and> dropRatio d p \<le> 1 \<and> (unat d + unat p < 100 \<longrightarrow> dropRatio d p = 0)) \<and>
   (2 ^ 64 \<le> unat d + unat p \<and> 100 \<le> d + p \<longrightarrow> 1 \<le> dropRatio d p \<and>
     (\<forall>s. queueDropRatio s = dropRatio d p \<longrightarrow> emergency s))"
proof (intro conjI impI allI)
  assume sum: "unat d + unat p < 2 ^ 64"
  then have "d \<le> d + p" by (simp add: word_le_nat_alt unat_word_ariths)
  then have "0 \<le> fdiv (float64_of d) (float64_of (d + p)) \<and> fdiv (float64_of d) (float64_of (d + p)) \<le> 1"
    by (intro fdiv_le_1 float64_of_nonneg float64_of_mono)
  then show "0 \<le> dropRatio d p" "dropRatio d p \<le> 1" by (simp_all add: dropRatio_def)
  assume "unat d + unat p < 100"
  with sum show "dropRatio d p = 0" by (simp add: dropRatio_def word_le_nat_alt unat_word_ariths)
next
  assume wrap: "2 ^ 64 \<le> unat d + unat p \<and> 100 \<le> d + p"
  have bd: "unat d < 2 ^ 64" "unat p < 2 ^ 64" using unsigned_less[of d, where ?'a = nat] unsigned_less[of p, where ?'a = nat] by simp_all
  have "unat (d + p) = (unat d + unat p) mod 2 ^ 64" by (simp add: unat_word_ariths)
  also have "\<dots> = unat d + unat p - 2 ^ 64"
    using wrap bd by (subst le_mod_geq) simp_all
  finally have "unat (d + p) = unat d + unat p - 2 ^ 64" .
  then have "d + p \<le> d" using bd by (simp add: word_le_nat_alt)
  moreover have pos: "0 < float64_of (d + p)" using wrap by (intro float64_of_pos) auto
  ultimately have "fdiv (float64_of (d + p)) (float64_of (d + p)) \<le> fdiv (float64_of d) (float64_of (d + p))"
    by (intro fdiv_mono float64_of_mono) simp_all
  then show ge: "1 \<le> dropRatio d p" using wrap pos by (simp add: dropRatio_def fdiv_def)
  fix s :: sensors
  assume "queueDropRatio s = dropRatio d p"
  moreover have "fl (50 / 100) < 1" by code_simp
  ultimately show "emergency s" using ge by (auto simp: emergency_def)
qed

theorem drop_ratio_range_witness: "1 \<le> dropRatio (- 1000) 2000"
  using drop_ratio_range[of "- 1000" 2000] by (simp add: word_le_nat_alt)

end
