(* ===== verification/Cluster.thy ===== *)
theory Cluster
  imports GoUrl JsonRoundtrip RefKernel
begin

text \<open>
  Synchronisation with the other nodes of a cluster (\<open>main.go\<close>): the list of nodes, the test whether
  a node is this machine, and the requests an event sends.  A goroutine per node sends one request
  and only logs the outcome; the requests an event starts are a list, in the order of the nodes.
\<close>

record cluster =
  clusterNodes :: "string list"
  listenAddr :: string
  configuredAPIKey :: string

record out_request =
  OutMethod :: string
  OutURL :: string
  OutKey :: string

subsection \<open>The list of nodes\<close>

definition loadClusterNodes :: "'w goos \<Rightarrow> string \<Rightarrow> 'w \<Rightarrow> string list \<Rightarrow> string list" where
  "loadClusterNodes os filePath w nodes =
     (case ReadFile os filePath w of
        None \<Rightarrow> nodes
      | Some text \<Rightarrow> fst (fst (Unmarshal (decodeSlice decodeString []) text (nodes, []))))"

subsection \<open>Is a node this machine?\<close>

text \<open>\<open>strconv.Atoi\<close> succeeds.\<close>

definition AtoiOk :: "string \<Rightarrow> bool" where
  "AtoiOk s =
     (let neg = HasPrefix s ''-''; ds = (if neg \<or> HasPrefix s ''+'' then drop 1 s else s) in
      case ParseUint ds 64 of
        None \<Rightarrow> False
      | Some n \<Rightarrow> if neg then n \<le> 2 ^ 63 else n < 2 ^ 63)"

definition localPortOf :: "string \<Rightarrow> string" where
  "localPortOf listen_addr =
     (case SplitHostPort listen_addr of
        Some (_, p) \<Rightarrow> p
      | None \<Rightarrow>
          (let cleanedListen = TrimPrefix listen_addr '':'' in
           if AtoiOk cleanedListen then cleanedListen else ''9090''))"

definition isHostAndPortLocal :: "'w goos \<Rightarrow> string \<Rightarrow> string \<Rightarrow> string \<Rightarrow> 'w \<Rightarrow> bool" where
  "isHostAndPortLocal os listen_addr host port w =
     (if port \<noteq> [] \<and> port \<noteq> localPortOf listen_addr then False
      else if host = ''localhost'' \<or> host = ''127.0.0.1'' \<or> host = ''::1'' then True
      else case InterfaceIPs os w of
        None \<Rightarrow> False
      | Some addrs \<Rightarrow> host \<in> set addrs \<or> Hostname os w = Some host)"

definition splitOrWhole :: "string \<Rightarrow> string \<times> string" where
  "splitOrWhole hostPort =
     (case SplitHostPort hostPort of None \<Rightarrow> (hostPort, []) | Some (host, port) \<Rightarrow> (host, port))"

definition isLocalAddress :: "'w goos \<Rightarrow> string \<Rightarrow> string \<Rightarrow> 'w \<Rightarrow> bool" where
  "isLocalAddress os listen_addr nodeUrl w =
     (case urlHost nodeUrl of
        None \<Rightarrow>
          (let cleaned = TrimPrefix (TrimPrefix nodeUrl ''http://'') ''https://'';
               hostPort = hd (splitOn (CHR ''/'') cleaned)
           in case splitOrWhole hostPort of (host, port) \<Rightarrow> isHostAndPortLocal os listen_addr host port w)
      | Some uHost \<Rightarrow>
          (case splitOrWhole uHost of (host, port) \<Rightarrow> isHostAndPortLocal os listen_addr host port w))"

subsection \<open>The requests of an event\<close>

text \<open>\<open>strings.Replace(s, old, new, 1)\<close>.\<close>

definition replaceFirst :: "string \<Rightarrow> string \<Rightarrow> string \<Rightarrow> string" where
  "replaceFirst s old new =
     (case indexOf s old of None \<Rightarrow> s | Some i \<Rightarrow> take i s @ new @ drop (i + length old) s)"

definition secureNodeUrl :: "string \<Rightarrow> string" where
  "secureNodeUrl nodeUrl =
     (let u = replaceFirst nodeUrl ''http://'' ''https://'' in
      if HasPrefix u ''https://'' then u else ''https://'' @ u)"

text \<open>
  One request to every node that is not this machine, unless its URL cannot be parsed
  (\<open>http.NewRequest\<close> fails).
\<close>

definition sendToNodes :: "'w goos \<Rightarrow> cluster \<Rightarrow> string \<Rightarrow> (string \<Rightarrow> string) \<Rightarrow> 'w \<Rightarrow> out_request list" where
  "sendToNodes os cl method urlFor w =
     map (\<lambda>node. \<lparr>OutMethod = method, OutURL = urlFor node, OutKey = configuredAPIKey cl\<rparr>)
       (filter (\<lambda>node. urlHost (urlFor node) \<noteq> None)
         (filter (\<lambda>node. \<not> isLocalAddress os (listenAddr cl) node w) (clusterNodes cl)))"

definition ipSyncURL :: "string \<Rightarrow> string \<Rightarrow> string \<Rightarrow> string" where
  "ipSyncURL endpoint ip node =
     secureNodeUrl node @ ''/api/'' @ endpoint @ ''?target='' @ QueryEscape ip @ ''&sync=true''"

definition syncIPEvent ::
  "'w goos \<Rightarrow> cluster \<Rightarrow> string \<Rightarrow> string \<Rightarrow> string \<Rightarrow> 'w \<Rightarrow> out_request list" where
  "syncIPEvent os cl endpoint method ip w = sendToNodes os cl method (ipSyncURL endpoint ip) w"

definition protoName :: "u8 \<Rightarrow> string" where
  "protoName protocol = (if protocol = 6 then ''tcp'' else if protocol = 17 then ''udp'' else ''any'')"

definition routingSyncURL :: "string \<Rightarrow> u16 \<Rightarrow> u8 \<Rightarrow> string \<Rightarrow> string \<Rightarrow> string \<Rightarrow> string" where
  "routingSyncURL vip vport protocol backend tunnelType node =
     secureNodeUrl node @ ''/api/routing?vip='' @ QueryEscape vip @ ''&vport='' @ itoa (uint vport)
     @ ''&protocol='' @ protoName protocol @ ''&backend='' @ QueryEscape backend
     @ ''&type='' @ QueryEscape tunnelType @ ''&sync=true''"

definition syncRoutingEvent ::
  "'w goos \<Rightarrow> cluster \<Rightarrow> string \<Rightarrow> string \<Rightarrow> u16 \<Rightarrow> u8 \<Rightarrow> string \<Rightarrow> string \<Rightarrow> 'w \<Rightarrow> out_request list" where
  "syncRoutingEvent os cl method vip vport protocol backend tunnelType w =
     sendToNodes os cl method (routingSyncURL vip vport protocol backend tunnelType) w"

text \<open>The events of the GeoIP rules use the address of a node as it is.\<close>

definition syncGeoRuleEvent ::
  "'w goos \<Rightarrow> cluster \<Rightarrow> string \<Rightarrow> string \<Rightarrow> string \<Rightarrow> 'w \<Rightarrow> out_request list" where
  "syncGeoRuleEvent os cl method ruleType val w =
     sendToNodes os cl method
       (\<lambda>n. n @ ''/api/rules/'' @ ruleType @ ''?'' @ ruleType @ ''='' @ val @ ''&sync=true'') w"

definition policySyncURL :: "string \<Rightarrow> string \<Rightarrow> string" where
  "policySyncURL action n = n @ ''/api/rules/policy?action='' @ action @ ''&sync=true''"

definition syncGeoPolicyEvent :: "'w goos \<Rightarrow> cluster \<Rightarrow> string \<Rightarrow> 'w \<Rightarrow> out_request list" where
  "syncGeoPolicyEvent os cl action w = sendToNodes os cl ''POST'' (policySyncURL action) w"

text \<open>The cases of the program's own test.\<close>

lemma isLocalAddress_examples:
  "isLocalAddress refOS '':9090'' ''http://localhost:9090'' w"
  "isLocalAddress refOS '':9090'' ''https://127.0.0.1:9090'' w"
  "\<not> isLocalAddress refOS '':9090'' ''http://127.0.0.1:8080'' w"
  "\<not> isLocalAddress refOS '':9090'' ''http://google.com:9090'' w"
  "\<not> isLocalAddress refOS '':9090'' ''http://1.1.1.1:9090'' w"
  "isLocalAddress refOS '':9090'' ''http://10.0.0.1:9090'' w"
  "\<not> isLocalAddress refOS '':9090'' ''http://10.0.0.1:9091'' w"
  by code_simp+

lemma isLocalAddress_schemeless:
  "isLocalAddress refOS '':9090'' ''10.0.0.1:9090'' w" "\<not> isLocalAddress refOS '':9090'' ''localhost:9090'' w"
  by code_simp+

subsection \<open>Queries that are read back\<close>

lemma cutAt_append: "sep \<notin> set a \<Longrightarrow> cutAt sep (a @ sep # b) = (a, b)"
  by (induction a) (auto simp: cutAt_def)

lemma cutAt_prefix: "sep \<notin> set a \<Longrightarrow> cutAt sep (a @ b) = (a @ fst (cutAt sep b), snd (cutAt sep b))"
  by (induction a) (auto simp: cutAt_def)

lemma cutAt_none: "sep \<notin> set a \<Longrightarrow> cutAt sep a = (a, [])"
proof -
  assume "sep \<notin> set a"
  then have "\<forall>c \<in> set a. c \<noteq> sep" by auto
  then show ?thesis by (simp add: cutAt_def takeWhile_eq_all_conv[THEN iffD2] dropWhile_eq_Nil_conv[THEN iffD2])
qed

definition plainText :: "string \<Rightarrow> bool" where
  "plainText s = list_all unreserved s"

definition queryPair :: "string \<times> string \<Rightarrow> string" where
  "queryPair kv = fst kv @ CHR ''='' # QueryEscape (snd kv)"

definition queryOf :: "(string \<times> string) list \<Rightarrow> string" where
  "queryOf kvs = joinWith (CHR ''&'') (map queryPair kvs)"

lemma QueryEscape_plain: "plainText s \<Longrightarrow> QueryEscape s = s"
  unfolding plainText_def by (induction s) (simp_all add: QueryEscape_def)

lemma unreserved_clean:
  "unreserved x \<Longrightarrow> x \<notin> {CHR ''&'', CHR ''='', CHR '';'', CHR ''#'', CHR ''?'', CHR ''%'', CHR ''+''}"
  by (auto simp: unreserved_def isAlnum_def byteVal_def Let_def)

lemma queryPair_clean:
  "plainText (fst kv) \<Longrightarrow> c \<in> {CHR ''&'', CHR '';'', CHR ''#'', CHR ''?''} \<Longrightarrow> c \<notin> set (queryPair kv)"
  using QueryEscape_clean[of c "snd kv"] unreserved_clean
  by (auto simp: queryPair_def plainText_def list_all_iff)

lemma parsePair_queryPair:
  assumes "plainText (fst kv)"
  shows "parsePair (queryPair kv) = Some kv"
proof -
  have "CHR ''='' \<notin> set (fst kv)" using assms unreserved_clean by (auto simp: plainText_def list_all_iff)
  then have cut: "cutAt (CHR ''='') (queryPair kv) = (fst kv, QueryEscape (snd kv))"
    by (simp add: queryPair_def cutAt_append)
  have "QueryUnescape (fst kv) = Some (fst kv)"
    using QueryUnescape_Escape[of "fst kv"] by (simp add: QueryEscape_plain[OF assms])
  with cut queryPair_clean[OF assms, of "CHR '';''"] show ?thesis
    by (simp add: parsePair_def QueryUnescape_Escape queryPair_def)
qed

lemma ParseQuery_queryOf:
  "\<forall>kv \<in> set kvs. plainText (fst kv) \<Longrightarrow> kvs \<noteq> [] \<Longrightarrow> ParseQuery (queryOf kvs) = kvs"
proof (induction kvs)
  case (Cons kv kvs)
  have one: "splitOn (CHR ''&'') (queryPair kv) = [queryPair kv]"
    using Cons.prems queryPair_clean[of kv "CHR ''&''"] by (intro splitOn_no_sep) simp
  show ?case
  proof (cases "kvs = []")
    case True
    with Cons.prems one show ?thesis
      by (simp add: ParseQuery_def queryOf_def List.map_filter_simps parsePair_queryPair)
  next
    case False
    then have "queryOf (kv # kvs) = queryPair kv @ CHR ''&'' # queryOf kvs"
      by (simp add: queryOf_def joinWith_Cons)
    with one have "ParseQuery (queryOf (kv # kvs)) = kv # ParseQuery (queryOf kvs)"
      using Cons.prems by (simp add: ParseQuery_def splitOn_append List.map_filter_simps parsePair_queryPair)
    with Cons False show ?thesis by simp
  qed
qed simp

lemma urlQuery_of:
  assumes "CHR ''?'' \<notin> set base" "CHR ''#'' \<notin> set base" "CHR ''#'' \<notin> set q"
  shows "urlQuery (base @ CHR ''?'' # q) = q"
proof -
  have "cutAt (CHR ''#'') (base @ CHR ''?'' # q) = (base @ CHR ''?'' # q, [])"
    using assms by (intro cutAt_none) simp
  then show ?thesis using assms by (simp add: urlQuery_def cutAt_append)
qed

lemma queryOf_clean:
  "\<forall>kv \<in> set kvs. plainText (fst kv) \<Longrightarrow> CHR ''#'' \<notin> set (queryOf kvs)"
proof (induction kvs)
  case (Cons kv kvs)
  then show ?case
    using queryPair_clean[of kv "CHR ''#''"] by (cases kvs) (simp_all add: queryOf_def)
qed (simp add: queryOf_def)

lemma queryGet_queryOf:
  "\<forall>kv \<in> set kvs. plainText (fst kv) \<Longrightarrow> kvs \<noteq> [] \<Longrightarrow>
   queryGet (queryOf kvs) k = (case map_of kvs k of None \<Rightarrow> [] | Some v \<Rightarrow> v)"
  by (simp add: queryGet_def ParseQuery_queryOf)

lemma secureNodeUrl_clean:
  assumes "c \<notin> set node" "c \<notin> set ''https://''"
  shows "c \<notin> set (secureNodeUrl node)"
proof -
  have "set (replaceFirst node ''http://'' ''https://'') \<subseteq> set node \<union> set ''https://''"
    by (auto simp: replaceFirst_def dest: in_set_takeD in_set_dropD split: option.splits)
  with assms show ?thesis by (auto simp: secureNodeUrl_def Let_def)
qed

lemma unreserved_texts:
  "plainText ''target''" "plainText ''sync''" "plainText ''true''"
  "plainText ''vip''" "plainText ''vport''" "plainText ''protocol''"
  "plainText ''backend''" "plainText ''type''"
  "plainText ''tcp''" "plainText ''udp''" "plainText ''any''"
  by code_simp+

lemma isDigit_unreserved: "isDigit c \<Longrightarrow> unreserved c"
  by (simp add: unreserved_def isAlnum_def isDigit_def digitVal_def byteVal_def Let_def split: if_splits)

lemma unreserved_itoa: "0 \<le> n \<Longrightarrow> plainText (itoa n)"
  using isDigit_itoa[of n] by (auto simp: plainText_def list_all_iff intro: isDigit_unreserved)

lemma ipSyncURL_query:
  assumes "CHR ''?'' \<notin> set node" "CHR ''#'' \<notin> set node" "CHR ''?'' \<notin> set endpoint" "CHR ''#'' \<notin> set endpoint"
  shows "urlQuery (ipSyncURL endpoint ip node) = queryOf [(''target'', ip), (''sync'', ''true'')]"
proof -
  let ?q = "queryOf [(''target'', ip), (''sync'', ''true'')]"
  have "?q = ''target='' @ QueryEscape ip @ ''&sync=true''"
    by (simp add: queryOf_def queryPair_def QueryEscape_plain unreserved_texts)
  moreover have "urlQuery ((secureNodeUrl node @ ''/api/'' @ endpoint) @ CHR ''?'' # ?q) = ?q"
    using assms secureNodeUrl_clean[of "CHR ''?''" node] secureNodeUrl_clean[of "CHR ''#''" node]
    by (intro urlQuery_of queryOf_clean) (simp_all add: unreserved_texts)
  ultimately show ?thesis by (simp add: ipSyncURL_def)
qed

lemma routingSyncURL_query:
  assumes "CHR ''?'' \<notin> set node" "CHR ''#'' \<notin> set node"
  shows "urlQuery (routingSyncURL vip vport protocol backend tunnelType node) =
    queryOf [(''vip'', vip), (''vport'', itoa (uint vport)), (''protocol'', protoName protocol),
      (''backend'', backend), (''type'', tunnelType), (''sync'', ''true'')]"
proof -
  let ?q = "queryOf [(''vip'', vip), (''vport'', itoa (uint vport)), (''protocol'', protoName protocol),
      (''backend'', backend), (''type'', tunnelType), (''sync'', ''true'')]"
  have "plainText (protoName protocol)" by (simp add: protoName_def unreserved_texts)
  then have "?q = ''vip='' @ QueryEscape vip @ ''&vport='' @ itoa (uint vport)
     @ ''&protocol='' @ protoName protocol @ ''&backend='' @ QueryEscape backend
     @ ''&type='' @ QueryEscape tunnelType @ ''&sync=true''"
    by (simp add: queryOf_def queryPair_def QueryEscape_plain unreserved_texts unreserved_itoa)
  moreover have "urlQuery ((secureNodeUrl node @ ''/api/routing'') @ CHR ''?'' # ?q) = ?q"
    using assms secureNodeUrl_clean[of "CHR ''?''" node] secureNodeUrl_clean[of "CHR ''#''" node]
    by (intro urlQuery_of queryOf_clean) (simp_all add: unreserved_texts)
  ultimately show ?thesis by (simp add: routingSyncURL_def)
qed

subsection \<open>Properties\<close>

lemma urlHost_numeric:
  assumes "node \<noteq> []" "isDigit (hd node)" "CHR '':'' \<in> set node" "CHR ''/'' \<notin> set node"
    and "CHR ''?'' \<notin> set node" "CHR ''#'' \<notin> set node"
  shows "urlHost (node @ CHR ''/'' # path) = None"
proof -
  obtain c cs where node: "node = c # cs" using assms(1) by (cases node) auto
  have c: "\<not> isLetter c" "isDigitChar c" "c \<noteq> CHR ''*''" "c \<noteq> CHR ''/''"
    using assms(2) node
    by (auto simp: isDigit_def isDigitChar_def digitVal_def isLetter_def byteVal_def Let_def split: if_splits)
  obtain u frag where u: "cutAt (CHR ''#'') (node @ CHR ''/'' # path) = (node @ CHR ''/'' # u, frag)"
    using cutAt_prefix[OF assms(6)] by (simp add: cutAt_def)
  have rest: "fst (cutAt (CHR ''?'') (node @ CHR ''/'' # u)) = node @ CHR ''/'' # takeWhile (\<lambda>c. c \<noteq> CHR ''?'') u"
    unfolding cutAt_prefix[OF assms(5)] by (simp add: cutAt_def)
  have "fst (cutAt (CHR ''/'') (node @ CHR ''/'' # v)) = node" for v
    using assms(4) by (simp add: cutAt_append)
  moreover have "schemeFrom x (node @ v) [] = Some ([], x)" for v x using c node by simp
  ultimately show ?thesis
    unfolding urlHost_def u prod.case using assms(3) node c rest by (simp add: Let_def HasPrefix_def)
qed

text \<open>
  C27: A node that receives a synchronisation request reads exactly what was sent: for an address event
  the target, whatever bytes it has, and for a routing event every parameter; and the mark that
  keeps it from sending the event on.
\<close>

theorem sync_requests_read_back:
  assumes "CHR ''?'' \<notin> set node" "CHR ''#'' \<notin> set node" "endpoint \<in> {''blacklist'', ''whitelist''}"
  shows "queryGet (urlQuery (ipSyncURL endpoint ip node)) ''target'' = ip \<and>
    queryGet (urlQuery (ipSyncURL endpoint ip node)) ''sync'' = ''true'' \<and>
    (let q = urlQuery (routingSyncURL vip vport protocol backend tunnelType node) in
       queryGet q ''vip'' = vip \<and> ParseUint (queryGet q ''vport'') 16 = Some (uint vport) \<and>
       queryGet q ''protocol'' = protoName protocol \<and> queryGet q ''backend'' = backend \<and>
       queryGet q ''type'' = tunnelType \<and> queryGet q ''sync'' = ''true'')"
proof -
  have ep: "CHR ''?'' \<notin> set endpoint" "CHR ''#'' \<notin> set endpoint" using assms(3) by auto
  have "uint vport < 2 ^ 16" using uint_lt2p[of vport] by simp
  then have "ParseUint (itoa (uint vport)) 16 = Some (uint vport)" by (intro ParseUint_itoa) simp_all
  then show ?thesis
    unfolding ipSyncURL_query[OF assms(1,2) ep] routingSyncURL_query[OF assms(1,2)]
    by (simp add: queryGet_queryOf unreserved_texts)
qed

theorem sync_requests_read_back_witness:
  "queryGet (urlQuery (ipSyncURL ''blacklist'' ''10.0.0.0/8 &sync=x'' ''10.0.0.2:9090'')) ''target'' = ''10.0.0.0/8 &sync=x''"
  using sync_requests_read_back[of "''10.0.0.2:9090''" "''blacklist''" "''10.0.0.0/8 &sync=x''" _ 0 0] by simp

text \<open>
  Nodes given as an address and a port, without a scheme, never receive a change of the GeoIP policy:
  its URL is built from the address as it is and cannot be parsed.
\<close>

theorem policy_event_lost:
  assumes "\<forall>node \<in> set (clusterNodes cl). node \<noteq> [] \<and> isDigit (hd node) \<and> CHR '':'' \<in> set node \<and>
      CHR ''/'' \<notin> set node \<and> CHR ''?'' \<notin> set node \<and> CHR ''#'' \<notin> set node"
  shows "syncGeoPolicyEvent os cl action w = []"
proof -
  have "urlHost (policySyncURL action node) = None" if "node \<in> set (clusterNodes cl)" for node
    using assms that urlHost_numeric[of node "''api/rules/policy?action='' @ action @ ''&sync=true''"]
    by (simp add: policySyncURL_def)
  then show ?thesis by (auto simp: syncGeoPolicyEvent_def sendToNodes_def filter_empty_conv)
qed

definition refCluster :: cluster where
  "refCluster = \<lparr>clusterNodes = [''10.0.0.1:9090'', ''10.0.0.2:9090''], listenAddr = '':9090'', configuredAPIKey = ''k''\<rparr>"

text \<open>An address event does reach such a node.\<close>

lemma ip_event_sent:
  "syncIPEvent refOS refCluster ''blacklist'' ''POST'' ''1.2.3.4'' w
   = [\<lparr>OutMethod = ''POST'', OutURL = ''https://10.0.0.2:9090/api/blacklist?target=1.2.3.4&sync=true'', OutKey = ''k''\<rparr>]"
  by code_simp

theorem policy_event_lost_witness: "syncGeoPolicyEvent refOS refCluster ''1'' emptyWorld = []"
  by (rule policy_event_lost) (simp add: refCluster_def isDigit_def digitVal_def)

text \<open>
  The address localhost is recognised as this machine when it is written with a scheme, but not as
  localhost and a port: there localhost is taken for the scheme, and the node sends its events to
  itself.
\<close>

theorem localhost_without_scheme:
  assumes "InterfaceIPs os w = Some addrs" "[] \<notin> set addrs" "Hostname os w \<noteq> Some []" "list_all isDigit port"
  shows "isLocalAddress os listen_addr ''http://localhost'' w \<and>
    \<not> isLocalAddress os listen_addr (''localhost:'' @ port) w"
proof
  have "urlHost ''http://localhost'' = Some ''localhost''" by code_simp
  moreover have "splitOrWhole ''localhost'' = (''localhost'', [])" by code_simp
  ultimately show "isLocalAddress os listen_addr ''http://localhost'' w"
    by (simp add: isLocalAddress_def isHostAndPortLocal_def)
next
  let ?u = "''localhost:'' @ port"
  have digits: "\<forall>c \<in> set port. isDigit c" using assms(4) by (simp add: list_all_iff)
  then have d: "c \<noteq> CHR ''#''" "c \<noteq> CHR ''?''" "c \<noteq> CHR ''/''" "\<not> (byteVal c < 32 \<or> byteVal c = 127)"
    if "c \<in> set port" for c
    using that by (auto simp: isDigit_def digitVal_def byteVal_def Let_def)
  have "cutAt (CHR ''#'') ?u = (?u, [])" using d(1) by (intro cutAt_none) auto
  moreover have "\<not> list_ex (\<lambda>c. byteVal c < 32 \<or> byteVal c = 127) ?u"
    using d(4) by (auto simp: list_ex_iff byteVal_def)
  moreover have "schemeFrom ?u ?u [] = Some (''localhost'', port)"
    by (simp add: isLetter_def byteVal_def isDigitChar_def digitVal_def Let_def)
  moreover have "fst (cutAt (CHR ''?'') port) = port" using d(2) by (subst cutAt_none) auto
  moreover have "\<not> HasPrefix port ''/''" using d(3) by (cases port) (auto simp: HasPrefix_def)
  ultimately have "urlHost ?u = Some []" by (simp add: urlHost_def Let_def)
  moreover have "splitOrWhole [] = ([], [])" by code_simp
  ultimately show "\<not> isLocalAddress os listen_addr ?u w"
    using assms(1-3) by (auto simp: isLocalAddress_def isHostAndPortLocal_def)
qed

theorem localhost_without_scheme_witness: "\<not> isLocalAddress refOS '':9090'' ''localhost:9090'' emptyWorld"
  using localhost_without_scheme[of refOS emptyWorld "[''127.0.0.1'', ''10.0.0.1'']" "''9090''" "'':9090''"]
  by (simp add: refOS_def isDigit_def digitVal_def)

end
