(* ===== verification/Handlers.thy ===== *)
theory Handlers
  imports Cluster Persist
begin

text \<open>
  The HTTP API (\<open>main.go\<close>): the middlewares that limit and authenticate requests and the eight
  handlers behind them.  A handler maps a request and the state (the variables of the process the
  handlers share, and the world) to a reply and the state after it.  Requests are handled one at a
  time here (the theory Interleave takes them apart); the goroutines that send synchronisation
  requests are entries of the list \<open>sent\<close>.

  A reply keeps what the answer is made of; the (Vietnamese) wording is left out.
\<close>

subsection \<open>Requests, replies and state\<close>

record request =
  ReqMethod :: string
  RawQuery :: string
  APIKeyHeader :: string
  RemoteAddr :: string

datatype reply =
    Failed nat
  | FailedWith go_error
  | Targets "string list"
  | Changed nat string
  | Routes "RoutingEntry list"
  | RouteSet string string string
  | RouteRemoved string
  | Counters u64 u64
  | Policy u64
  | PolicySet u64
  | LogLines "string list"
  | NullBody
  | EmptyBody
  | GeoHealth bool bool string int int string string
  | Reloaded

fun statusCode :: "reply \<Rightarrow> nat" where
  "statusCode (Failed n) = n"
| "statusCode (FailedWith e) = 500"
| "statusCode _ = 200"

record limit_entry =
  count :: nat
  resetAt :: int

record ('r, 'w) server =
  stateFile :: string
  clusterInfo :: cluster
  manager :: "'w MapManager option"
  geo :: "'r GeoIPManager option"
  limiter :: "(string \<times> limit_entry) list"
  sent :: "out_request list"

type_synonym ('r, 'w) state = "('r, 'w) server \<times> 'w"

type_synonym ('r, 'w) handler = "request \<Rightarrow> ('r, 'w) state \<Rightarrow> reply \<times> ('r, 'w) state"

abbreviation param :: "request \<Rightarrow> string \<Rightarrow> string" where
  "param r \<equiv> queryGet (RawQuery r)"

subsection \<open>Middlewares\<close>

definition authMiddleware :: "('r, 'w) handler \<Rightarrow> ('r, 'w) handler" where
  "authMiddleware next_handler r = (\<lambda>(s, w).
     let apiKey = configuredAPIKey (clusterInfo s) in
     if param r ''sync'' = ''true'' then
       (let syncKey = APIKeyHeader r in
        if syncKey \<noteq> apiKey then (Failed 401, s, w) else next_handler r (s, w))
     else
       (let key = APIKeyHeader r in
        if key \<noteq> apiKey then (Failed 401, s, w) else next_handler r (s, w)))"

definition minute :: int where
  "minute = 60000000000"

definition limitEntry :: "int \<Rightarrow> limit_entry option \<Rightarrow> limit_entry" where
  "limitEntry now stored =
     (let entry = (case stored of None \<Rightarrow> \<lparr>count = 0, resetAt = now + minute\<rparr> | Some e \<Rightarrow> e);
          entry' = (if now > resetAt entry then \<lparr>count = 0, resetAt = now + minute\<rparr> else entry)
      in entry'\<lparr>count := count entry' + 1\<rparr>)"

definition rateLimitMiddleware :: "'w goos \<Rightarrow> ('r, 'w) handler \<Rightarrow> ('r, 'w) handler" where
  "rateLimitMiddleware os next_handler r = (\<lambda>(s, w).
     let clientIP = RemoteAddr r;
         entry = limitEntry (NowNano os w) (map_of (limiter s) clientIP);
         s' = s\<lparr>limiter := AList.update clientIP entry (limiter s)\<rparr>
     in if count entry > 60 then (Failed 429, s', w) else next_handler r (s', w))"

subsection \<open>Blacklist and whitelist\<close>

text \<open>The blocks a target stands for, or the status of the error reply.\<close>

definition targetCIDRs ::
  "('r, 'i, 'w) maxmind \<Rightarrow> string \<Rightarrow> 'r GeoIPManager option \<Rightarrow> 'r GeoIPManager option \<times> (nat + string list)" where
  "targetCIDRs db target g =
     (if isCountryCode target then
        (case g of
           None \<Rightarrow> (None, Inl 503)
         | Some gm \<Rightarrow>
             (case resolveCountry db (ToUpper target) gm of
                (gm', resolved) \<Rightarrow> (Some gm', if resolved = [] then Inl 404 else Inr resolved)))
      else if \<not> Contains target ''/'' then (g, Inr [target @ ''/32''])
      else (g, Inr [target]))"

definition succeeded :: "'w \<times> go_error option \<Rightarrow> 'w \<times> bool" where
  "succeeded we = (fst we, snd we = None)"

definition isSync :: "request \<Rightarrow> bool" where
  "isSync r \<longleftrightarrow> param r ''sync'' = ''true''"

text \<open>The target parameter of a request, by either of its names.\<close>

definition targetParam :: "request \<Rightarrow> string" where
  "targetParam r = (if param r ''target'' = [] then param r ''ip'' else param r ''target'')"

definition blacklistPost ::
  "'w goos \<Rightarrow> 'w MapManager \<Rightarrow> string \<Rightarrow> string list \<Rightarrow> ('r, 'w) handler" where
  "blacklistPost os m target cidrs r = (\<lambda>(s, w).
     case count_ok (\<lambda>c w. succeeded (BlockCIDR os m c w)) cidrs (w, 0) of
       (w1, successCount) \<Rightarrow>
         (case AddBlacklistTarget target (m, w1) of
            (m2, w2) \<Rightarrow>
              (let w3 = saveRulesState os (stateFile s) (Some m2) w2;
                   w4 = writeMitigationLog os ''BLACKLIST_ADD'' target ''User manually blacklisted'' 0 w3;
                   events = (if isSync r then []
                             else syncIPEvent os (clusterInfo s) ''blacklist'' ''POST'' target w4)
               in (Changed successCount target, s\<lparr>manager := Some m2, sent := sent s @ events\<rparr>, w4))))"

definition blacklistDelete ::
  "'w goos \<Rightarrow> 'w MapManager \<Rightarrow> string \<Rightarrow> string list \<Rightarrow> ('r, 'w) handler" where
  "blacklistDelete os m target cidrs r = (\<lambda>(s, w).
     case count_ok (\<lambda>c w. succeeded (AllowCIDR m c w)) cidrs (w, 0) of
       (w1, successCount) \<Rightarrow>
         (case RemoveBlacklistTarget target (m, w1) of
            (m2, w2) \<Rightarrow>
              (let w3 = saveRulesState os (stateFile s) (Some m2) w2;
                   w4 = writeMitigationLog os ''BLACKLIST_REMOVE'' target ''User manually un-blacklisted'' 0 w3;
                   events = (if isSync r then []
                             else syncIPEvent os (clusterInfo s) ''blacklist'' ''DELETE'' target w4)
               in (Changed successCount target, s\<lparr>manager := Some m2, sent := sent s @ events\<rparr>, w4))))"

definition handleBlacklist :: "'w goos \<Rightarrow> ('r, 'i, 'w) maxmind \<Rightarrow> ('r, 'w) handler" where
  "handleBlacklist os db r = (\<lambda>(s, w).
     case manager s of
       None \<Rightarrow> (Failed 503, s, w)
     | Some m \<Rightarrow>
         (if ReqMethod r = ''GET'' then (Targets (GetBlacklistTargets os (m, w)), s, w)
          else let target = targetParam r in
            (if target = [] then (Failed 400, s, w)
             else case targetCIDRs db target (geo s) of
               (g, Inl code) \<Rightarrow> (Failed code, s\<lparr>geo := g\<rparr>, w)
             | (g, Inr cidrs) \<Rightarrow>
                 (let s1 = s\<lparr>geo := g\<rparr> in
                  if ReqMethod r = ''POST'' then blacklistPost os m target cidrs r (s1, w)
                  else if ReqMethod r = ''DELETE'' then blacklistDelete os m target cidrs r (s1, w)
                  else (Failed 405, s1, w)))))"

definition whitelistPost ::
  "'w goos \<Rightarrow> 'w MapManager \<Rightarrow> string \<Rightarrow> string list \<Rightarrow> ('r, 'w) handler" where
  "whitelistPost os m target cidrs r = (\<lambda>(s, w).
     case count_ok (\<lambda>c w. succeeded (AddWhitelistCIDR m c w)) cidrs (w, 0) of
       (w1, successCount) \<Rightarrow>
         (case AddWhitelistTarget target (m, w1) of
            (m2, w2) \<Rightarrow>
              (let w3 = saveRulesState os (stateFile s) (Some m2) w2;
                   w4 = writeMitigationLog os ''WHITELIST_ADD'' target ''User added to whitelist'' 0 w3;
                   events = (if isSync r then []
                             else syncIPEvent os (clusterInfo s) ''whitelist'' ''POST'' target w4)
               in (Changed successCount target, s\<lparr>manager := Some m2, sent := sent s @ events\<rparr>, w4))))"

definition fallbackReason :: string where
  "fallbackReason = ''Auto fallback to blacklist (Default Pass) because whitelist is empty''"

definition whitelistDelete ::
  "'w goos \<Rightarrow> 'w MapManager \<Rightarrow> string \<Rightarrow> string list \<Rightarrow> ('r, 'w) handler" where
  "whitelistDelete os m target cidrs r = (\<lambda>(s, w).
     case count_ok (\<lambda>c w. succeeded (RemoveWhitelistCIDR m c w)) cidrs (w, 0) of
       (w1, successCount) \<Rightarrow>
         (case RemoveWhitelistTarget target (m, w1) of
            (m2, w2) \<Rightarrow>
              (let whitelistEmpty = (length (GetWhitelistTargets os (m2, w2)) = 0);
                   w3 = (if whitelistEmpty
                         then writeMitigationLog os ''POLICY_UPDATE'' ''0'' fallbackReason 0
                                (fst (SetGeoIPPolicy m2 0 w2))
                         else w2);
                   w4 = saveRulesState os (stateFile s) (Some m2) w3;
                   w5 = writeMitigationLog os ''WHITELIST_REMOVE'' target ''User removed from whitelist'' 0 w4;
                   events = (if isSync r then []
                             else syncIPEvent os (clusterInfo s) ''whitelist'' ''DELETE'' target w5
                               @ (if whitelistEmpty then syncGeoPolicyEvent os (clusterInfo s) ''0'' w5 else []))
               in (Changed successCount target, s\<lparr>manager := Some m2, sent := sent s @ events\<rparr>, w5))))"

definition handleWhitelist :: "'w goos \<Rightarrow> ('r, 'i, 'w) maxmind \<Rightarrow> ('r, 'w) handler" where
  "handleWhitelist os db r = (\<lambda>(s, w).
     case manager s of
       None \<Rightarrow> (Failed 503, s, w)
     | Some m \<Rightarrow>
         (if ReqMethod r = ''GET'' then (Targets (GetWhitelistTargets os (m, w)), s, w)
          else let target = targetParam r in
            (if target = [] then (Failed 400, s, w)
             else case targetCIDRs db target (geo s) of
               (g, Inl code) \<Rightarrow> (Failed code, s\<lparr>geo := g\<rparr>, w)
             | (g, Inr cidrs) \<Rightarrow>
                 (let s1 = s\<lparr>geo := g\<rparr> in
                  if ReqMethod r = ''POST'' then whitelistPost os m target cidrs r (s1, w)
                  else if ReqMethod r = ''DELETE'' then whitelistDelete os m target cidrs r (s1, w)
                  else (Failed 405, s1, w)))))"

subsection \<open>Routing\<close>

text \<open>
  The handler calls \<open>AddBackendVIP\<close> with five and \<open>RemoveBackendVIP\<close> with five arguments; the map
  manager declares them with seven and six.  What these calls are meant to be cannot be read off the
  source, so they are parameters of the handler.
\<close>

type_synonym 'w route_call =
  "'w MapManager \<Rightarrow> string \<Rightarrow> u16 \<Rightarrow> u8 \<Rightarrow> string \<Rightarrow> string \<Rightarrow> 'w \<Rightarrow> 'w \<times> go_error option"

definition vportParam :: "request \<Rightarrow> u16" where
  "vportParam r =
     (let vp = param r ''vport'' in
      if vp \<noteq> [] then (case ParseUint vp 16 of None \<Rightarrow> 0 | Some p \<Rightarrow> of_int p) else 0)"

definition protocolParam :: "request \<Rightarrow> u16 \<Rightarrow> u8" where
  "protocolParam r vport =
     (let p0 = ToLower (param r ''protocol'');
          protoStr = (if p0 = [] then ToLower (param r ''proto'') else p0)
      in if protoStr = ''tcp'' then 6
         else if protoStr = ''udp'' then 17
         else if vport \<noteq> 0 then 6 else 0)"

definition handleRouting ::
  "'w goos \<Rightarrow> 'w route_call \<Rightarrow> 'w route_call \<Rightarrow> ('r, 'w) handler" where
  "handleRouting os addCall removeCall r = (\<lambda>(s, w).
     case manager s of
       None \<Rightarrow> (Failed 503, s, w)
     | Some m \<Rightarrow>
         (let vip = param r ''vip''; backend = param r ''backend''; tunnelType = param r ''type'';
              vport = vportParam r; protocol = protocolParam r vport in
          if ReqMethod r = ''GET'' then
            (case GetRoutingMap m w of
               (routes, Some err) \<Rightarrow> (FailedWith err, s, w)
             | (routes, None) \<Rightarrow> (Routes routes, s, w))
          else if ReqMethod r = ''POST'' then
            (if vip = [] \<or> backend = [] then (Failed 400, s, w)
             else case addCall m vip vport protocol backend tunnelType w of
               (w1, Some err) \<Rightarrow> (FailedWith err, s, w1)
             | (w1, None) \<Rightarrow>
                 (let events = (if isSync r then []
                        else syncRoutingEvent os (clusterInfo s) ''POST'' vip vport protocol backend tunnelType w1)
                  in (RouteSet vip backend tunnelType, s\<lparr>sent := sent s @ events\<rparr>, w1)))
          else if ReqMethod r = ''DELETE'' then
            (if vip = [] then (Failed 400, s, w)
             else case removeCall m vip vport protocol backend tunnelType w of
               (w1, Some err) \<Rightarrow> (FailedWith err, s, w1)
             | (w1, None) \<Rightarrow>
                 (let events = (if isSync r then []
                        else syncRoutingEvent os (clusterInfo s) ''DELETE'' vip vport protocol backend tunnelType w1)
                  in (RouteRemoved vip, s\<lparr>sent := sent s @ events\<rparr>, w1)))
          else (Failed 405, s, w)))"

subsection \<open>GeoIP policy, counters, log and databases\<close>

definition policyOf :: "string \<Rightarrow> u64 option" where
  "policyOf action =
     (if action = ''1'' \<or> action = ''drop'' then Some 1
      else if action = ''0'' \<or> action = ''pass'' then Some 0 else None)"

definition handleRulesPolicy :: "'w goos \<Rightarrow> ('r, 'w) handler" where
  "handleRulesPolicy os r = (\<lambda>(s, w).
     case manager s of
       None \<Rightarrow> (Failed 503, s, w)
     | Some m \<Rightarrow>
         (if ReqMethod r = ''GET'' then
            (case GetGeoIPPolicy m w of
               (_, Some err) \<Rightarrow> (FailedWith err, s, w)
             | (policy, None) \<Rightarrow> (Policy policy, s, w))
          else if ReqMethod r = ''POST'' then
            (case policyOf (param r ''action'') of
               None \<Rightarrow> (Failed 400, s, w)
             | Some policy \<Rightarrow>
                 (case SetGeoIPPolicy m policy w of
                    (w1, Some err) \<Rightarrow> (FailedWith err, s, w1)
                  | (w1, None) \<Rightarrow>
                      (let w2 = saveRulesState os (stateFile s) (Some m) w1;
                           w3 = writeMitigationLog os ''POLICY_UPDATE'' (itoa (uint policy))
                                  ''User updated GeoIP Policy'' 0 w2;
                           events = (if isSync r then []
                                     else syncGeoPolicyEvent os (clusterInfo s) (itoa (uint policy)) w3)
                       in (PolicySet policy, s\<lparr>sent := sent s @ events\<rparr>, w3))))
          else (Failed 405, s, w)))"

definition handleStats :: "('r, 'w) handler" where
  "handleStats r = (\<lambda>(s, w).
     case manager s of
       None \<Rightarrow> (Failed 503, s, w)
     | Some m \<Rightarrow>
         (case GetStats m w of
            Inl err \<Rightarrow> (FailedWith err, s, w)
          | Inr (passed, dropped) \<Rightarrow> (Counters passed dropped, s, w)))"

text \<open>The loop over the lines of the log, from the last one, until there are 100 results.\<close>

fun collectLogs :: "string list \<Rightarrow> string list \<Rightarrow> string list" where
  "collectLogs [] result = result"
| "collectLogs (l # ls) result =
     (if length result < 100 then
        (let line = TrimSpace l in collectLogs ls (if line \<noteq> [] then result @ [line] else result))
      else result)"

definition logLines :: "string \<Rightarrow> string list" where
  "logLines content = collectLogs (rev (splitOn newline (TrimSpace content))) []"

text \<open>
  The encoder checks every raw line; on the first that is no JSON it fails and writes nothing.  A list
  nothing was appended to is a nil slice, which it writes as \<open>null\<close>.
\<close>

definition handleLogs :: "'w goos \<Rightarrow> ('r, 'w) handler" where
  "handleLogs os r = (\<lambda>(s, w).
     let logPath = resolvePath os ''logs'' w @ ''/mitigation.log'' in
     if NotExist os logPath w then (LogLines [], s, w)
     else case ReadFile os logPath w of
       None \<Rightarrow> (Failed 500, s, w)
     | Some content \<Rightarrow>
         (let result = logLines content in
          (if result = [] then NullBody
           else if list_all (\<lambda>l. parseJson l \<noteq> None) result then LogLines result else EmptyBody, s, w)))"

definition handleGeoIPHealth :: "('r, 'w) handler" where
  "handleGeoIPHealth r = (\<lambda>(s, w).
     case geo s of
       None \<Rightarrow> (Failed 503, s, w)
     | Some g \<Rightarrow>
         (GeoHealth (asnLoaded g) (countryLoaded g) (lastReloadTime g) (asnSize g) (countrySize g)
            (asnVersion g) (countryVersion g), s, w))"

definition handleGeoIPReload :: "'w goos \<Rightarrow> ('r, 'i, 'w) maxmind \<Rightarrow> ('r, 'w) handler" where
  "handleGeoIPReload os db r = (\<lambda>(s, w).
     if ReqMethod r \<noteq> ''POST'' then (Failed 405, s, w)
     else case geo s of
       None \<Rightarrow> (Failed 503, s, w)
     | Some g \<Rightarrow> (case Reload os db (g, w) of (g', w') \<Rightarrow> (Reloaded, s\<lparr>geo := Some g'\<rparr>, w')))"

subsection \<open>The routes of the server\<close>

datatype endpoint =
    Blacklist | Routing | Stats | GeoIPHealth | GeoIPReload | Whitelist | RulesPolicy | Logs

fun endpointPath :: "endpoint \<Rightarrow> string" where
  "endpointPath Blacklist = ''/api/blacklist''"
| "endpointPath Routing = ''/api/routing''"
| "endpointPath Stats = ''/api/stats''"
| "endpointPath GeoIPHealth = ''/api/geoip/health''"
| "endpointPath GeoIPReload = ''/api/geoip/reload''"
| "endpointPath Whitelist = ''/api/whitelist''"
| "endpointPath RulesPolicy = ''/api/rules/policy''"
| "endpointPath Logs = ''/api/logs''"

text \<open>What the handlers are given: the system, the database package and the two route calls.\<close>

record ('r, 'i, 'w) api_env =
  system_os :: "'w goos"
  geo_db :: "('r, 'i, 'w) maxmind"
  add_route :: "'w route_call"
  remove_route :: "'w route_call"

fun handlerOf :: "('r, 'i, 'w) api_env \<Rightarrow> endpoint \<Rightarrow> ('r, 'w) handler" where
  "handlerOf env Blacklist = handleBlacklist (system_os env) (geo_db env)"
| "handlerOf env Routing = handleRouting (system_os env) (add_route env) (remove_route env)"
| "handlerOf env Stats = handleStats"
| "handlerOf env GeoIPHealth = handleGeoIPHealth"
| "handlerOf env GeoIPReload = handleGeoIPReload (system_os env) (geo_db env)"
| "handlerOf env Whitelist = handleWhitelist (system_os env) (geo_db env)"
| "handlerOf env RulesPolicy = handleRulesPolicy (system_os env)"
| "handlerOf env Logs = handleLogs (system_os env)"

definition serveAPI :: "('r, 'i, 'w) api_env \<Rightarrow> endpoint \<Rightarrow> ('r, 'w) handler" where
  "serveAPI env ep = rateLimitMiddleware (system_os env) (authMiddleware (handlerOf env ep))"

end
