(* ===== verification/Api.thy ===== *)
theory Api
  imports Handlers
begin

text \<open>
  What the API guarantees: who is served and how often, what the handlers change, that requests from
  other nodes are not sent on, and what the log endpoint shows.
\<close>

subsection \<open>What every handler leaves alone\<close>

lemma blacklistPost_server:
  "blacklistPost os m t cs r (s, w) = (rep, s', w') \<Longrightarrow>
   limiter s' = limiter s \<and> clusterInfo s' = clusterInfo s \<and> (isSync r \<longrightarrow> sent s' = sent s)"
  by (auto simp: blacklistPost_def Let_def split: prod.splits)

lemma blacklistDelete_server:
  "blacklistDelete os m t cs r (s, w) = (rep, s', w') \<Longrightarrow>
   limiter s' = limiter s \<and> clusterInfo s' = clusterInfo s \<and> (isSync r \<longrightarrow> sent s' = sent s)"
  by (auto simp: blacklistDelete_def Let_def split: prod.splits)

lemma whitelistPost_server:
  "whitelistPost os m t cs r (s, w) = (rep, s', w') \<Longrightarrow>
   limiter s' = limiter s \<and> clusterInfo s' = clusterInfo s \<and> (isSync r \<longrightarrow> sent s' = sent s)"
  by (auto simp: whitelistPost_def Let_def split: prod.splits)

lemma whitelistDelete_server:
  "whitelistDelete os m t cs r (s, w) = (rep, s', w') \<Longrightarrow>
   limiter s' = limiter s \<and> clusterInfo s' = clusterInfo s \<and> (isSync r \<longrightarrow> sent s' = sent s)"
  by (auto simp: whitelistDelete_def Let_def split: prod.splits)

lemmas write_server =
  blacklistPost_server blacklistDelete_server whitelistPost_server whitelistDelete_server

lemma handler_server:
  "handlerOf env ep r (s, w) = (rep, s', w') \<Longrightarrow>
   limiter s' = limiter s \<and> clusterInfo s' = clusterInfo s \<and> (isSync r \<longrightarrow> sent s' = sent s)"
proof (cases ep)
  case Blacklist
  assume "handlerOf env ep r (s, w) = (rep, s', w')"
  with Blacklist show ?thesis
    by (auto simp: handleBlacklist_def Let_def dest!: write_server
        split: option.splits if_splits prod.splits sum.splits)
next
  case Whitelist
  assume "handlerOf env ep r (s, w) = (rep, s', w')"
  with Whitelist show ?thesis
    by (auto simp: handleWhitelist_def Let_def dest!: write_server
        split: option.splits if_splits prod.splits sum.splits)
next
  case Routing
  assume "handlerOf env ep r (s, w) = (rep, s', w')"
  with Routing show ?thesis
    by (auto simp: handleRouting_def Let_def split: option.splits if_splits prod.splits)
next
  case RulesPolicy
  assume "handlerOf env ep r (s, w) = (rep, s', w')"
  with RulesPolicy show ?thesis
    by (auto simp: handleRulesPolicy_def Let_def split: option.splits if_splits prod.splits)
qed (auto simp: handleStats_def handleGeoIPHealth_def handleGeoIPReload_def handleLogs_def Let_def
    split: option.splits if_splits prod.splits sum.splits)

lemma targetCIDRs_status: "targetCIDRs db t g = (g', Inl code) \<Longrightarrow> code = 404 \<or> code = 503"
  by (auto simp: targetCIDRs_def split: if_splits option.splits prod.splits)

subsection \<open>The middlewares\<close>

lemma authMiddleware_eq:
  "authMiddleware h r (s, w) =
     (if APIKeyHeader r = configuredAPIKey (clusterInfo s) then h r (s, w) else (Failed 401, s, w))"
  by (simp add: authMiddleware_def Let_def)

lemma serveAPI_eq:
  "serveAPI env ep r (s, w) =
     (let entry = limitEntry (NowNano (system_os env) w) (map_of (limiter s) (RemoteAddr r));
          s' = s\<lparr>limiter := AList.update (RemoteAddr r) entry (limiter s)\<rparr>
      in if count entry > 60 then (Failed 429, s', w)
         else if APIKeyHeader r = configuredAPIKey (clusterInfo s) then handlerOf env ep r (s', w)
         else (Failed 401, s', w))"
  by (simp add: serveAPI_def rateLimitMiddleware_def authMiddleware_eq Let_def)

lemma serveAPI_limiter:
  assumes "serveAPI env ep r (s, w) = (rep, s', w')"
  shows "map_of (limiter s') =
      (map_of (limiter s))(RemoteAddr r \<mapsto>
         limitEntry (NowNano (system_os env) w) (map_of (limiter s) (RemoteAddr r)))"
    "count (limitEntry (NowNano (system_os env) w) (map_of (limiter s) (RemoteAddr r))) > 60 \<Longrightarrow>
     rep = Failed 429"
proof -
  let ?e = "limitEntry (NowNano (system_os env) w) (map_of (limiter s) (RemoteAddr r))"
  have "limiter s' = AList.update (RemoteAddr r) ?e (limiter s)"
    using assms handler_server[of env ep r] by (auto simp: serveAPI_eq Let_def split: if_splits)
  then show "map_of (limiter s') = (map_of (limiter s))(RemoteAddr r \<mapsto> ?e)"
    by (simp add: update_conv')
  show "count ?e > 60 \<Longrightarrow> rep = Failed 429"
    using assms by (simp add: serveAPI_eq Let_def)
qed

text \<open>
  How many more requests of an address can pass up to a minute after \<open>t\<close>: an entry whose window ends
  within that minute can still be reset once.
\<close>

definition budget :: "int \<Rightarrow> limit_entry option \<Rightarrow> nat" where
  "budget t stored =
     (case stored of
        None \<Rightarrow> 60
      | Some e \<Rightarrow> (60 - count e) + (if t + minute \<le> resetAt e then 0 else 60))"

lemma budget_step:
  assumes "t \<le> now" "now \<le> t + minute"
  shows "budget t (Some (limitEntry now stored)) + (if count (limitEntry now stored) \<le> 60 then 1 else 0)
    \<le> budget t stored"
  using assms by (auto simp: budget_def limitEntry_def Let_def minute_def split: option.splits)

text \<open>Requests arriving one after the other, each in the world at its arrival.\<close>

fun serveAll ::
  "('r, 'i, 'w) api_env \<Rightarrow> (endpoint \<times> request \<times> 'w) list \<Rightarrow> ('r, 'w) server \<Rightarrow> reply list" where
  "serveAll env [] s = []"
| "serveAll env ((ep, r, w) # xs) s =
     (case serveAPI env ep r (s, w) of (rep, s', w') \<Rightarrow> rep # serveAll env xs s')"

definition passedFrom :: "string \<Rightarrow> (endpoint \<times> request \<times> 'w) list \<Rightarrow> reply list \<Rightarrow> nat" where
  "passedFrom addr xs reps =
     length (filter (\<lambda>((ep, r, w), rep). RemoteAddr r = addr \<and> statusCode rep \<noteq> 429) (zip xs reps))"

lemma passedFrom_Cons:
  "passedFrom addr ((ep, r, w) # xs) (rep # reps) =
     (if RemoteAddr r = addr \<and> statusCode rep \<noteq> 429 then 1 else 0) + passedFrom addr xs reps"
  by (simp add: passedFrom_def)

lemma passedFrom_budget:
  assumes "\<forall>(ep, r, w) \<in> set xs. t \<le> NowNano (system_os env) w \<and> NowNano (system_os env) w \<le> t + minute"
  shows "passedFrom addr xs (serveAll env xs s) \<le> budget t (map_of (limiter s) addr)"
  using assms
proof (induction xs arbitrary: s)
  case (Cons x xs)
  obtain ep r w where x: "x = (ep, r, w)" by (metis prod.collapse)
  obtain rep s' w' where run: "serveAPI env ep r (s, w) = (rep, s', w')" by (metis prod.collapse)
  let ?e = "limitEntry (NowNano (system_os env) w) (map_of (limiter s) (RemoteAddr r))"
  have IH: "passedFrom addr xs (serveAll env xs s') \<le> budget t (map_of (limiter s') addr)"
    using Cons by auto
  have now: "t \<le> NowNano (system_os env) w" "NowNano (system_os env) w \<le> t + minute"
    using Cons.prems x by auto
  show ?case
  proof (cases "RemoteAddr r = addr")
    case True
    then have "map_of (limiter s') addr = Some ?e" using serveAPI_limiter(1)[OF run] by simp
    with IH budget_step[OF now, of "map_of (limiter s) addr"] serveAPI_limiter(2)[OF run] True x run show ?thesis
      by (cases "count ?e \<le> 60") (simp_all add: passedFrom_Cons)
  next
    case False
    then have "map_of (limiter s') addr = map_of (limiter s) addr" using serveAPI_limiter(1)[OF run] by simp
    with IH False x run show ?thesis by (simp add: passedFrom_Cons)
  qed
qed (simp add: passedFrom_def)

lemma budget_bounds: "budget t stored \<le> 120" "budget t None = 60"
  by (auto simp: budget_def split: option.splits)

subsection \<open>Counted writes\<close>

definition denotes :: "string \<Rightarrow> LpmTrieKey \<Rightarrow> bool" where
  "denotes c k \<longleftrightarrow> parseCIDR c = Inr (Data k, PrefixLen k) \<and> canonicalKey k"

text \<open>
  An operation on one trie: it fails and changes nothing, or it gives the key its text denotes a value
  (or no value) with the property \<open>P\<close>.
\<close>

definition writes_key ::
  "(string \<Rightarrow> 'w \<Rightarrow> 'w \<times> bool) \<Rightarrow> ('w \<Rightarrow> kernel_view) \<Rightarrow> (kernel_view \<Rightarrow> LpmTrieKey \<Rightarrow> u64 option)
   \<Rightarrow> ((LpmTrieKey \<Rightarrow> u64 option) \<Rightarrow> kernel_view \<Rightarrow> kernel_view) \<Rightarrow> (u64 option \<Rightarrow> bool) \<Rightarrow> bool" where
  "writes_key f view sel upd P \<longleftrightarrow>
     (\<forall>c w w' ok. f c w = (w', ok) \<longrightarrow>
        (if ok then \<exists>k v. denotes c k \<and> P v \<and> view w' = upd ((sel (view w))(k := v)) (view w)
         else view w' = view w))"

definition lens :: "('v \<Rightarrow> 'a) \<Rightarrow> ('a \<Rightarrow> 'v \<Rightarrow> 'v) \<Rightarrow> bool" where
  "lens sel upd \<longleftrightarrow>
     (\<forall>a v. sel (upd a v) = a) \<and> (\<forall>a b v. upd a (upd b v) = upd a v) \<and> (\<forall>v. upd (sel v) v = v)"

lemma count_writes:
  assumes wr: "writes_key f view sel upd P" and ln: "lens sel upd"
    and run: "count_ok f cs (w, n) = (w', n')"
  shows "view w' = upd (sel (view w')) (view w) \<and>
    (\<forall>k. sel (view w') k = sel (view w) k \<or> P (sel (view w') k) \<and> (\<exists>c \<in> set cs. denotes c k)) \<and>
    n' \<le> n + length cs \<and>
    (n' = n + length cs \<longrightarrow> (\<forall>c \<in> set cs. \<exists>k. denotes c k \<and> P (sel (view w') k)))"
  using run
proof (induction cs arbitrary: w n)
  case Nil
  with ln show ?case by (auto simp: lens_def)
next
  case (Cons c cs)
  obtain w1 ok where f: "f c w = (w1, ok)" by fastforce
  have run: "count_ok f cs (w1, if ok then Suc n else n) = (w', n')" using Cons.prems f by simp
  note IH = Cons.IH[OF run]
  show ?case
  proof (cases ok)
    case False
    then have v: "view w1 = view w" using wr f unfolding writes_key_def by meson
    from IH False show ?thesis by (auto simp: v)
  next
    case True
    then obtain k0 v0 where k0: "denotes c k0" "P v0" "view w1 = upd ((sel (view w))(k0 := v0)) (view w)"
      using wr f unfolding writes_key_def by meson
    then have sel1: "sel (view w1) = (sel (view w))(k0 := v0)" using ln by (simp add: lens_def)
    have "view w' = upd (sel (view w')) (view w)"
      using IH k0(3) ln unfolding lens_def by metis
    moreover note IH2 = IH[THEN conjunct2, THEN conjunct1, unfolded sel1, rule_format]
    moreover have "sel (view w') k = sel (view w) k \<or>
        P (sel (view w') k) \<and> (\<exists>c \<in> set (c # cs). denotes c k)" for k
      using IH2[of k] k0(1,2) by (cases "k = k0") auto
    moreover have "P (sel (view w') k0)"
      using IH2[of k0] k0(2) by auto
    ultimately show ?thesis using IH k0(1) True by auto
  qed
qed

text \<open>A delete leaves the trie without the key, whether it was there or not.\<close>

lemma count_deletes:
  assumes wr: "writes_key f view sel upd (\<lambda>v. v = None)" and ln: "lens sel upd"
    and del: "\<And>c w k. denotes c k \<Longrightarrow> sel (view (fst (f c w))) k = None"
    and run: "count_ok f cs (w, n) = (w', n')" and c: "c \<in> set cs" "denotes c k"
  shows "sel (view w') k = None"
  using run c(1)
proof (induction cs arbitrary: w n)
  case (Cons d cs)
  obtain w1 ok where f: "f d w = (w1, ok)" by fastforce
  have run: "count_ok f cs (w1, if ok then Suc n else n) = (w', n')" using Cons.prems(1) f by simp
  show ?case
  proof (cases "c \<in> set cs")
    case True
    with Cons.IH[OF run] show ?thesis by simp
  next
    case False
    with Cons.prems(2) have "d = c" by simp
    then have "sel (view w1) k = None" using del[OF c(2), of w] f by simp
    with count_writes[OF wr ln run] show ?thesis by (metis (no_types, lifting))
  qed
qed simp

lemma blacklist_lens: "lens vBlacklist (\<lambda>f. vBlacklist_update (\<lambda>_. f))"
  by (simp add: lens_def)

lemma whitelist_lens: "lens vWhitelist (\<lambda>f. vWhitelist_update (\<lambda>_. f))"
  by (simp add: lens_def)

lemma block_writes:
  assumes "kernel_contract (objs m) view"
  shows "writes_key (\<lambda>c w. succeeded (BlockCIDR os m c w)) view vBlacklist (\<lambda>f. vBlacklist_update (\<lambda>_. f))
    (\<lambda>v. v \<noteq> None)"
  unfolding writes_key_def
proof (intro allI impI)
  fix c w w' ok assume f: "succeeded (BlockCIDR os m c w) = (w', ok)"
  obtain w1 e where r: "BlockCIDR os m c w = (w1, e)" by fastforce
  from block_run[OF assms r] f r
  show "if ok then \<exists>k v. denotes c k \<and> v \<noteq> None \<and>
      view w' = vBlacklist_update (\<lambda>_. (vBlacklist (view w))(k := v)) (view w) else view w' = view w"
    by (auto simp: succeeded_def denotes_def split: option.splits)
qed

lemma allow_writes:
  assumes "kernel_contract (objs m) view"
  shows "writes_key (\<lambda>c w. succeeded (AllowCIDR m c w)) view vBlacklist (\<lambda>f. vBlacklist_update (\<lambda>_. f))
    (\<lambda>v. v = None)"
  unfolding writes_key_def
proof (intro allI impI)
  fix c w w' ok assume f: "succeeded (AllowCIDR m c w) = (w', ok)"
  obtain w1 e where r: "AllowCIDR m c w = (w1, e)" by fastforce
  from allow_run[OF assms r] f r
  show "if ok then \<exists>k v. denotes c k \<and> v = None \<and>
      view w' = vBlacklist_update (\<lambda>_. (vBlacklist (view w))(k := v)) (view w) else view w' = view w"
    by (auto simp: succeeded_def denotes_def split: option.splits)
qed

lemma allow_deletes:
  assumes "kernel_contract (objs m) view" "kernel_deletes (objs m) view" "denotes c k"
  shows "vBlacklist (view (fst (succeeded (AllowCIDR m c w)))) k = None"
  using assms(3) blacklist_delete[OF assms(1,2), of k w]
  by (cases k) (auto simp: denotes_def AllowCIDR_def succeeded_def split: prod.splits)

lemma whitelist_add_writes:
  assumes "kernel_contract (objs m) view"
  shows "writes_key (\<lambda>c w. succeeded (AddWhitelistCIDR m c w)) view vWhitelist (\<lambda>f. vWhitelist_update (\<lambda>_. f))
    (\<lambda>v. v \<noteq> None)"
  unfolding writes_key_def
proof (intro allI impI)
  fix c w w' ok assume f: "succeeded (AddWhitelistCIDR m c w) = (w', ok)"
  obtain w1 e where r: "AddWhitelistCIDR m c w = (w1, e)" by fastforce
  from whitelist_add_run[OF assms r] f r
  show "if ok then \<exists>k v. denotes c k \<and> v \<noteq> None \<and>
      view w' = vWhitelist_update (\<lambda>_. (vWhitelist (view w))(k := v)) (view w) else view w' = view w"
    by (auto simp: succeeded_def denotes_def split: option.splits)
qed

lemma whitelist_remove_writes:
  assumes "kernel_contract (objs m) view"
  shows "writes_key (\<lambda>c w. succeeded (RemoveWhitelistCIDR m c w)) view vWhitelist
    (\<lambda>f. vWhitelist_update (\<lambda>_. f)) (\<lambda>v. v = None)"
  unfolding writes_key_def
proof (intro allI impI)
  fix c w w' ok assume f: "succeeded (RemoveWhitelistCIDR m c w) = (w', ok)"
  obtain w1 e where r: "RemoveWhitelistCIDR m c w = (w1, e)" by fastforce
  from whitelist_remove_run[OF assms r] f r
  show "if ok then \<exists>k v. denotes c k \<and> v = None \<and>
      view w' = vWhitelist_update (\<lambda>_. (vWhitelist (view w))(k := v)) (view w) else view w' = view w"
    by (auto simp: succeeded_def denotes_def split: option.splits)
qed

lemma whitelist_remove_deletes:
  assumes "kernel_contract (objs m) view" "kernel_deletes (objs m) view" "denotes c k"
  shows "vWhitelist (view (fst (succeeded (RemoveWhitelistCIDR m c w)))) k = None"
  using assms(3) whitelist_delete[OF assms(1,2), of k w]
  by (cases k) (auto simp: denotes_def RemoveWhitelistCIDR_def succeeded_def split: prod.splits)

subsection \<open>The four changes of a list\<close>

text \<open>The blacklist was changed only at keys the texts denote, to values with the property \<open>P\<close>.\<close>

definition changedAt ::
  "(kernel_view \<Rightarrow> LpmTrieKey \<Rightarrow> u64 option) \<Rightarrow> (u64 option \<Rightarrow> bool) \<Rightarrow> string list
   \<Rightarrow> kernel_view \<Rightarrow> kernel_view \<Rightarrow> bool" where
  "changedAt sel P cs v v' \<longleftrightarrow>
     (\<forall>k. sel v' k = sel v k \<or> P (sel v' k) \<and> (\<exists>c \<in> set cs. denotes c k))"

definition allAt ::
  "(kernel_view \<Rightarrow> LpmTrieKey \<Rightarrow> u64 option) \<Rightarrow> (u64 option \<Rightarrow> bool) \<Rightarrow> string list \<Rightarrow> kernel_view \<Rightarrow> bool" where
  "allAt sel P cs v' \<longleftrightarrow> (\<forall>c \<in> set cs. \<exists>k. denotes c k \<and> P (sel v' k))"

lemma blacklistPost_run:
  assumes kc: "kernel_contract (objs m) view" and fr: "os_frame os view"
    and run: "blacklistPost os m t cs r (s, w) = (rep, s', w')"
  shows "\<exists>n. rep = Changed n t \<and> n \<le> length cs \<and>
    manager s' = Some (m\<lparr>BlacklistTargets := finsert t (BlacklistTargets m)\<rparr>) \<and> geo s' = geo s \<and>
    view w' = vBlacklist_update (\<lambda>_. vBlacklist (view w')) (view w) \<and>
    changedAt vBlacklist (\<lambda>v. v \<noteq> None) cs (view w) (view w') \<and>
    (n = length cs \<longrightarrow> allAt vBlacklist (\<lambda>v. v \<noteq> None) cs (view w'))"
proof -
  obtain w1 n where c: "count_ok (\<lambda>c w. succeeded (BlockCIDR os m c w)) cs (w, 0) = (w1, n)" by fastforce
  from run c have r: "rep = Changed n t"
      "manager s' = Some (m\<lparr>BlacklistTargets := finsert t (BlacklistTargets m)\<rparr>)" "geo s' = geo s"
      "view w' = view w1"
    by (auto simp: blacklistPost_def AddBlacklistTarget_def Let_def
        writeMitigationLog_view[OF fr] saveRulesState_view[OF fr])
  from count_writes[OF block_writes[OF kc] blacklist_lens c] r show ?thesis
    by (simp add: changedAt_def allAt_def)
qed

lemma blacklistDelete_run:
  assumes kc: "kernel_contract (objs m) view" and kd: "kernel_deletes (objs m) view" and fr: "os_frame os view"
    and run: "blacklistDelete os m t cs r (s, w) = (rep, s', w')"
  shows "\<exists>n. rep = Changed n t \<and> n \<le> length cs \<and>
    manager s' = Some (m\<lparr>BlacklistTargets := BlacklistTargets m |-| {|t|}\<rparr>) \<and> geo s' = geo s \<and>
    view w' = vBlacklist_update (\<lambda>_. vBlacklist (view w')) (view w) \<and>
    changedAt vBlacklist (\<lambda>v. v = None) cs (view w) (view w') \<and>
    (\<forall>c \<in> set cs. \<forall>k. denotes c k \<longrightarrow> vBlacklist (view w') k = None)"
proof -
  obtain w1 n where c: "count_ok (\<lambda>c w. succeeded (AllowCIDR m c w)) cs (w, 0) = (w1, n)" by fastforce
  from run c have r: "rep = Changed n t"
      "manager s' = Some (m\<lparr>BlacklistTargets := BlacklistTargets m |-| {|t|}\<rparr>)" "geo s' = geo s"
      "view w' = view w1"
    by (auto simp: blacklistDelete_def RemoveBlacklistTarget_def Let_def
        writeMitigationLog_view[OF fr] saveRulesState_view[OF fr])
  from count_writes[OF allow_writes[OF kc] blacklist_lens c] r
    count_deletes[OF allow_writes[OF kc] blacklist_lens allow_deletes[OF kc kd] c]
  show ?thesis by (simp add: changedAt_def)
qed

lemma whitelistPost_run:
  assumes kc: "kernel_contract (objs m) view" and fr: "os_frame os view"
    and run: "whitelistPost os m t cs r (s, w) = (rep, s', w')"
  shows "\<exists>n. rep = Changed n t \<and> n \<le> length cs \<and>
    manager s' = Some (m\<lparr>WhitelistTargets := finsert t (WhitelistTargets m)\<rparr>) \<and> geo s' = geo s \<and>
    view w' = vWhitelist_update (\<lambda>_. vWhitelist (view w')) (view w) \<and>
    changedAt vWhitelist (\<lambda>v. v \<noteq> None) cs (view w) (view w') \<and>
    (n = length cs \<longrightarrow> allAt vWhitelist (\<lambda>v. v \<noteq> None) cs (view w'))"
proof -
  obtain w1 n where c: "count_ok (\<lambda>c w. succeeded (AddWhitelistCIDR m c w)) cs (w, 0) = (w1, n)" by fastforce
  from run c have r: "rep = Changed n t"
      "manager s' = Some (m\<lparr>WhitelistTargets := finsert t (WhitelistTargets m)\<rparr>)" "geo s' = geo s"
      "view w' = view w1"
    by (auto simp: whitelistPost_def AddWhitelistTarget_def Let_def
        writeMitigationLog_view[OF fr] saveRulesState_view[OF fr])
  from count_writes[OF whitelist_add_writes[OF kc] whitelist_lens c] r show ?thesis
    by (simp add: changedAt_def allAt_def)
qed

text \<open>Removing a whitelist target also resets the policy when no target is left.\<close>

lemma whitelistDelete_run:
  assumes kc: "kernel_contract (objs m) view" and kd: "kernel_deletes (objs m) view" and fr: "os_frame os view"
    and mo: "map_order_contract os" and run: "whitelistDelete os m t cs r (s, w) = (rep, s', w')"
  shows "\<exists>n w2. rep = Changed n t \<and> n \<le> length cs \<and>
    manager s' = Some (m\<lparr>WhitelistTargets := WhitelistTargets m |-| {|t|}\<rparr>) \<and> geo s' = geo s \<and>
    view w2 = vWhitelist_update (\<lambda>_. vWhitelist (view w2)) (view w) \<and>
    changedAt vWhitelist (\<lambda>v. v = None) cs (view w) (view w2) \<and>
    (\<forall>c \<in> set cs. \<forall>k. denotes c k \<longrightarrow> vWhitelist (view w2) k = None) \<and>
    view w' = (if WhitelistTargets m |-| {|t|} = {||} then view (fst (SetGeoIPPolicy m 0 w2)) else view w2)"
proof -
  let ?m2 = "m\<lparr>WhitelistTargets := WhitelistTargets m |-| {|t|}\<rparr>"
  obtain w1 n where c: "count_ok (\<lambda>c w. succeeded (RemoveWhitelistCIDR m c w)) cs (w, 0) = (w1, n)" by fastforce
  have rem: "RemoveWhitelistTarget t (m, w1) = (?m2, w1)" by (simp add: RemoveWhitelistTarget_def)
  have empty: "GetWhitelistTargets os (?m2, w1) = [] \<longleftrightarrow> WhitelistTargets m |-| {|t|} = {||}"
    using wt.empty_list[OF mo, of "(?m2, w1)"] by simp
  have policy: "SetGeoIPPolicy ?m2 0 w1 = SetGeoIPPolicy m 0 w1" by (simp add: SetGeoIPPolicy_def)
  from run c rem have r: "rep = Changed n t" "manager s' = Some ?m2" "geo s' = geo s"
      "view w' = (if GetWhitelistTargets os (?m2, w1) = [] then view (fst (SetGeoIPPolicy m 0 w1)) else view w1)"
    by (auto simp: whitelistDelete_def Let_def policy
        writeMitigationLog_view[OF fr] saveRulesState_view[OF fr])
  note r(4)[unfolded empty]
  from this count_writes[OF whitelist_remove_writes[OF kc] whitelist_lens c] r(1-3)
    count_deletes[OF whitelist_remove_writes[OF kc] whitelist_lens whitelist_remove_deletes[OF kc kd] c]
  show ?thesis by (intro exI[of _ n] exI[of _ w1]) (simp add: changedAt_def)
qed

subsection \<open>Failures\<close>

lemma write_status:
  "blacklistPost os m t cs r sw = (rep, sw') \<Longrightarrow> statusCode rep = 200"
  "blacklistDelete os m t cs r sw = (rep, sw') \<Longrightarrow> statusCode rep = 200"
  "whitelistPost os m t cs r sw = (rep, sw') \<Longrightarrow> statusCode rep = 200"
  "whitelistDelete os m t cs r sw = (rep, sw') \<Longrightarrow> statusCode rep = 200"
  by (auto simp: blacklistPost_def blacklistDelete_def whitelistPost_def whitelistDelete_def Let_def
      split: prod.splits)

lemma failed_policy:
  assumes "kernel_contract (objs m) view" "SetGeoIPPolicy m p w = (w', Some e)"
  shows "view w' = view w"
proof -
  obtain w1 ok where put: "Put (ConfigMap (objs m)) 2 p w = (w1, ok)" by fastforce
  from config_put[OF assms(1) put] assms(2) put show ?thesis
    by (auto simp: SetGeoIPPolicy_def split: if_splits)
qed

lemma failed_handler:
  assumes kc: "\<And>m. manager s = Some m \<Longrightarrow> kernel_contract (objs m) view"
    and routes: "\<And>m vip vport p b t w w' e. manager s = Some m \<Longrightarrow>
        add_route env m vip vport p b t w = (w', Some e) \<Longrightarrow> view w' = view w"
      "\<And>m vip vport p b t w w' e. manager s = Some m \<Longrightarrow>
        remove_route env m vip vport p b t w = (w', Some e) \<Longrightarrow> view w' = view w"
    and run: "handlerOf env ep r (s, w) = (rep, s', w')" and status: "statusCode rep \<ge> 400"
  shows "view w' = view w \<and> manager s' = manager s \<and> sent s' = sent s"
proof (cases ep)
  case Blacklist
  with run status show ?thesis
    by (auto simp: handleBlacklist_def Let_def dest!: write_status
        split: option.splits if_splits prod.splits sum.splits)
next
  case Whitelist
  with run status show ?thesis
    by (auto simp: handleWhitelist_def Let_def dest!: write_status
        split: option.splits if_splits prod.splits sum.splits)
next
  case Routing
  have "\<forall>m vip vport p b t w1 e. manager s = Some m \<longrightarrow>
      (add_route env m vip vport p b t w = (w1, Some e) \<longrightarrow> view w1 = view w) \<and>
      (remove_route env m vip vport p b t w = (w1, Some e) \<longrightarrow> view w1 = view w)"
    using routes by blast
  with Routing run status show ?thesis
    by (auto simp: handleRouting_def Let_def split: option.splits if_splits prod.splits)
next
  case RulesPolicy
  have "\<forall>m p w1 e. manager s = Some m \<longrightarrow> SetGeoIPPolicy m p w = (w1, Some e) \<longrightarrow> view w1 = view w"
    using failed_policy[where view = view] kc by blast
  with RulesPolicy run status show ?thesis
    by (auto simp: handleRulesPolicy_def Let_def split: option.splits if_splits prod.splits)
qed (use run status in \<open>auto simp: handleStats_def handleGeoIPHealth_def handleGeoIPReload_def
    handleLogs_def Let_def split: option.splits if_splits prod.splits sum.splits\<close>)

end
