(* ===== verification/ApiProps.thy ===== *)
theory ApiProps
  imports Api
begin

text \<open>The properties of the API, with a server the witnesses run requests on.\<close>

definition refServer :: "(string \<times> ref_network list, world) server" where
  "refServer =
     \<lparr>stateFile = ''rules.json'', clusterInfo = refCluster, manager = Some refManager, geo = Some refGeo,
      limiter = [], sent = []\<rparr>"

definition refEnv :: "(string \<times> ref_network list, ref_network, world) api_env" where
  "refEnv =
     \<lparr>system_os = refOS, geo_db = refDB,
      add_route = (\<lambda>m vip vport protocol backend tunnelType w.
        AddBackendVIP refOS m vip vport protocol backend tunnelType [] [] w),
      remove_route = (\<lambda>m vip vport protocol backend tunnelType w.
        RemoveBackendVIP refOS m vip vport protocol backend tunnelType [] w)\<rparr>"

definition sampleRequest :: "string \<Rightarrow> string \<Rightarrow> request" where
  "sampleRequest meth query =
     \<lparr>ReqMethod = meth, RawQuery = query, APIKeyHeader = ''k'', RemoteAddr = ''192.0.2.7:4711''\<rparr>"

text \<open>
  What the limiter is meant to do for an address: it is over its limit when its window still runs and
  has had 60 requests; each request is counted, in a new window when there is none running.
\<close>

definition overLimit :: "int \<Rightarrow> limit_entry option \<Rightarrow> bool" where
  "overLimit now stored \<longleftrightarrow> (\<exists>e. stored = Some e \<and> now \<le> resetAt e \<and> 60 \<le> count e)"

definition countedOnce :: "int \<Rightarrow> limit_entry option \<Rightarrow> limit_entry" where
  "countedOnce now stored =
     (case stored of
        None \<Rightarrow> \<lparr>count = 1, resetAt = now + minute\<rparr>
      | Some e \<Rightarrow>
          (if now \<le> resetAt e then \<lparr>count = count e + 1, resetAt = resetAt e\<rparr>
           else \<lparr>count = 1, resetAt = now + minute\<rparr>))"

lemma limitEntry_counts: "limitEntry now stored = countedOnce now stored"
  by (simp add: limitEntry_def countedOnce_def Let_def split: option.split)

lemma over_counted: "60 < count (countedOnce now stored) \<longleftrightarrow> overLimit now stored"
  by (auto simp: countedOnce_def overLimit_def split: option.splits)

text \<open>
  C7: A request without the right key, synchronisation requests included, and a request of a sender
  over its limit are refused on every endpoint: with 429 exactly when the sender is over its limit,
  else with 401, and nothing is changed but the sender's own counter.  With the right key and below
  the limit the handler is reached.  In every case the sender's counter counts this request and the
  counter of every other address stays as it was.
\<close>

theorem unauthorized_changes_nothing:
  assumes "serveAPI env ep r (s, w) = (rep, s', w')"
  shows "let now = NowNano (system_os env) w;
      stored = map_of (limiter s) (RemoteAddr r);
      limits = (map_of (limiter s))(RemoteAddr r \<mapsto> countedOnce now stored)
    in map_of (limiter s') = limits \<and>
      (if overLimit now stored then rep = Failed 429 \<and> w' = w \<and> s' = s\<lparr>limiter := limiter s'\<rparr>
       else if APIKeyHeader r \<noteq> configuredAPIKey (clusterInfo s)
       then rep = Failed 401 \<and> w' = w \<and> s' = s\<lparr>limiter := limiter s'\<rparr>
       else \<exists>l. map_of l = limits \<and> handlerOf env ep r (s\<lparr>limiter := l\<rparr>, w) = (rep, s', w'))"
proof -
  let ?now = "NowNano (system_os env) w" and ?st = "map_of (limiter s) (RemoteAddr r)"
  let ?l = "AList.update (RemoteAddr r) (countedOnce ?now ?st) (limiter s)"
  have l: "map_of ?l = (map_of (limiter s))(RemoteAddr r \<mapsto> countedOnce ?now ?st)" by (simp add: update_conv')
  have run: "(rep, s', w') =
      (if overLimit ?now ?st then (Failed 429, s\<lparr>limiter := ?l\<rparr>, w)
       else if APIKeyHeader r = configuredAPIKey (clusterInfo s) then handlerOf env ep r (s\<lparr>limiter := ?l\<rparr>, w)
       else (Failed 401, s\<lparr>limiter := ?l\<rparr>, w))"
    using assms by (simp add: serveAPI_eq Let_def limitEntry_counts over_counted)
  have lim: "map_of (limiter s') = (map_of (limiter s))(RemoteAddr r \<mapsto> countedOnce ?now ?st)"
    using serveAPI_limiter(1)[OF assms] by (simp add: limitEntry_counts)
  show ?thesis
  proof (cases "overLimit ?now ?st \<or> APIKeyHeader r \<noteq> configuredAPIKey (clusterInfo s)")
    case True
    with run lim show ?thesis by (auto simp: Let_def split: if_splits)
  next
    case False
    with run have "handlerOf env ep r (s\<lparr>limiter := ?l\<rparr>, w) = (rep, s', w')" by simp
    with l have "\<exists>l. map_of l = (map_of (limiter s))(RemoteAddr r \<mapsto> countedOnce ?now ?st) \<and>
        handlerOf env ep r (s\<lparr>limiter := l\<rparr>, w) = (rep, s', w')" by blast
    with False lim show ?thesis by (simp add: Let_def)
  qed
qed

theorem unauthorized_changes_nothing_witness:
  "fst (serveAPI refEnv Blacklist (sampleRequest ''POST'' ''target=1.2.3.4''\<lparr>APIKeyHeader := ''x''\<rparr>)
     (refServer, emptyWorld)) = Failed 401"
proof -
  let ?r = "sampleRequest ''POST'' ''target=1.2.3.4''\<lparr>APIKeyHeader := ''x''\<rparr>"
  obtain rep s' w' where run: "serveAPI refEnv Blacklist ?r (refServer, emptyWorld) = (rep, s', w')"
    by (metis prod.collapse)
  from unauthorized_changes_nothing[OF run] run show ?thesis
    by (simp add: sampleRequest_def refServer_def refCluster_def overLimit_def Let_def)
qed

text \<open>
  C26: In any minute at most 120 requests from one address are let through, whatever endpoints they go
  to (two windows of 60 can meet in a minute); at most 60 when the address was not seen before.
\<close>

theorem request_limit:
  assumes "\<forall>(ep, r, w) \<in> set xs. t \<le> NowNano (system_os env) w \<and> NowNano (system_os env) w \<le> t + minute"
  shows "passedFrom addr xs (serveAll env xs s) \<le> (if map_of (limiter s) addr = None then 60 else 120)"
  using passedFrom_budget[OF assms, of addr s]
  by (auto simp: budget_bounds intro: order_trans[OF _ budget_bounds(1)])

theorem request_limit_witness:
  "passedFrom ''192.0.2.7:4711''
     (replicate 70 (GeoIPHealth, sampleRequest ''GET'' [], emptyWorld))
     (serveAll refEnv (replicate 70 (GeoIPHealth, sampleRequest ''GET'' [], emptyWorld)) refServer) \<le> 60"
  using request_limit[where xs = "replicate 70 (GeoIPHealth, sampleRequest ''GET'' [], emptyWorld)"
      and t = "1700000000000000000" and env = refEnv and addr = "''192.0.2.7:4711''" and s = refServer]
  by (simp add: refEnv_def refOS_def emptyWorld_def minute_def refServer_def)

text \<open>
  A request another node sent to synchronise is never sent on, so an event makes one hop and no loop
  of nodes keeps it alive.
\<close>

theorem sync_not_forwarded:
  assumes "param r ''sync'' = ''true''" "serveAPI env ep r (s, w) = (rep, s', w')"
  shows "sent s' = sent s"
  using assms handler_server[of env ep r] by (auto simp: serveAPI_eq isSync_def Let_def split: if_splits)

theorem sync_not_forwarded_witness:
  "sent (fst (snd (serveAPI refEnv Blacklist
     (sampleRequest ''POST'' (urlQuery (ipSyncURL ''blacklist'' ''198.51.100.7'' ''10.0.0.1:9090'')))
     (refServer, emptyWorld)))) = []"
proof -
  let ?r = "sampleRequest ''POST'' (urlQuery (ipSyncURL ''blacklist'' ''198.51.100.7'' ''10.0.0.1:9090''))"
  obtain rep s' w' where run: "serveAPI refEnv Blacklist ?r (refServer, emptyWorld) = (rep, s', w')"
    by (metis prod.collapse)
  have "param ?r ''sync'' = ''true''" unfolding sampleRequest_def request.simps by code_simp
  from sync_not_forwarded[OF this run] run show ?thesis by (simp add: refServer_def)
qed

text \<open>
  C9: Adding to the blacklist: the target is listed afterwards beside the earlier ones, the blacklist is
  changed only at blocks the target stands for, no other map is touched, the reply counts at most
  the blocks of the target, and when it counts all of them every one of them is blocked.
\<close>

theorem blacklist_add_request:
  assumes kc: "kernel_contract (objs m) view" and fr: "os_frame os view" and mo: "map_order_contract os"
    and "manager s = Some m" "ReqMethod r = ''POST''"
    and "handleBlacklist os db r (s, w) = (rep, s', w')" "statusCode rep = 200"
  shows "\<exists>cs n m'. targetCIDRs db (targetParam r) (geo s) = (geo s', Inr cs) \<and>
    rep = Changed n (targetParam r) \<and> n \<le> length cs \<and> manager s' = Some m' \<and>
    set (GetBlacklistTargets os (m', w')) = insert (targetParam r) (set (GetBlacklistTargets os (m, w))) \<and>
    (\<forall>k. vBlacklist (view w') k = vBlacklist (view w) k \<or>
       vBlacklist (view w') k \<noteq> None \<and> (\<exists>c \<in> set cs. denotes c k)) \<and>
    (n = length cs \<longrightarrow> (\<forall>c \<in> set cs. \<exists>k. denotes c k \<and> vBlacklist (view w') k \<noteq> None)) \<and>
    view w' = vBlacklist_update (\<lambda>_. vBlacklist (view w')) (view w)"
proof -
  from assms(4-7) obtain g cs where t: "targetCIDRs db (targetParam r) (geo s) = (g, Inr cs)"
    and post: "blacklistPost os m (targetParam r) cs r (s\<lparr>geo := g\<rparr>, w) = (rep, s', w')"
    by (auto simp: handleBlacklist_def Let_def dest: targetCIDRs_status split: if_splits prod.splits sum.splits)
  from blacklistPost_run[OF kc fr post] t show ?thesis
    by (auto simp: changedAt_def allAt_def bt.set_list[OF mo])
qed

theorem blacklist_add_request_witness:
  "\<exists>m'. manager (fst (snd (handleBlacklist refOS refDB (sampleRequest ''POST'' ''target=198.51.100.7'')
       (refServer, emptyWorld)))) = Some m' \<and> set (GetBlacklistTargets refOS (m', emptyWorld)) = {''198.51.100.7''}"
proof -
  let ?r = "sampleRequest ''POST'' ''target=198.51.100.7''"
  obtain rep s' w' where run: "handleBlacklist refOS refDB ?r (refServer, emptyWorld) = (rep, s', w')"
    by (metis prod.collapse)
  have "statusCode (fst (handleBlacklist refOS refDB ?r (refServer, emptyWorld))) = 200" by code_simp
  then have ok: "statusCode rep = 200" using run by simp
  have t: "targetParam ?r = ''198.51.100.7''" by code_simp
  have "manager refServer = Some refManager" "ReqMethod ?r = ''POST''"
    by (simp_all add: refServer_def sampleRequest_def)
  from blacklist_add_request[OF _ refOS_frame refOS_order this run ok] refObjs_contract run t
  show ?thesis by (auto simp: refManager_def NewMapManager_def GetBlacklistTargets_def refOS_def)
qed

text \<open>
  C8: Removing from the blacklist: the target is no longer listed, every block it stands for is
  unblocked, whether it was blocked or not, and nothing else is changed.
\<close>

theorem blacklist_remove_request:
  assumes kc: "kernel_contract (objs m) view" and kd: "kernel_deletes (objs m) view"
    and fr: "os_frame os view" and mo: "map_order_contract os"
    and "manager s = Some m" "ReqMethod r = ''DELETE''"
    and "handleBlacklist os db r (s, w) = (rep, s', w')" "statusCode rep = 200"
  shows "\<exists>cs n m'. targetCIDRs db (targetParam r) (geo s) = (geo s', Inr cs) \<and>
    rep = Changed n (targetParam r) \<and> n \<le> length cs \<and> manager s' = Some m' \<and>
    set (GetBlacklistTargets os (m', w')) = set (GetBlacklistTargets os (m, w)) - {targetParam r} \<and>
    (\<forall>c \<in> set cs. \<forall>k. denotes c k \<longrightarrow> vBlacklist (view w') k = None) \<and>
    (\<forall>k. (\<forall>c \<in> set cs. \<not> denotes c k) \<longrightarrow> vBlacklist (view w') k = vBlacklist (view w) k) \<and>
    view w' = vBlacklist_update (\<lambda>_. vBlacklist (view w')) (view w)"
proof -
  from assms(5-8) obtain g cs where t: "targetCIDRs db (targetParam r) (geo s) = (g, Inr cs)"
    and delete: "blacklistDelete os m (targetParam r) cs r (s\<lparr>geo := g\<rparr>, w) = (rep, s', w')"
    by (auto simp: handleBlacklist_def Let_def dest: targetCIDRs_status split: if_splits prod.splits sum.splits)
  from blacklistDelete_run[OF kc kd fr delete] t show ?thesis
    by (auto simp: changedAt_def bt.set_list[OF mo]) blast
qed

definition blockedServer :: "(string \<times> ref_network list, world) server" where
  "blockedServer = refServer\<lparr>manager := Some (refManager\<lparr>BlacklistTargets := {|''198.51.100.7''|}\<rparr>)\<rparr>"

definition blockedWorld :: world where
  "blockedWorld = emptyWorld\<lparr>wBlacklist := [(\<lparr>PrefixLen = 32, Data = 0x076433C6\<rparr>, 9)]\<rparr>"

theorem blacklist_remove_request_witness:
  "\<exists>m'. manager (fst (snd (handleBlacklist refOS refDB (sampleRequest ''DELETE'' ''target=198.51.100.7'')
       (blockedServer, blockedWorld)))) = Some m' \<and> set (GetBlacklistTargets refOS (m', emptyWorld)) = {}"
proof -
  let ?r = "sampleRequest ''DELETE'' ''target=198.51.100.7''"
  obtain rep s' w' where run: "handleBlacklist refOS refDB ?r (blockedServer, blockedWorld) = (rep, s', w')"
    by (metis prod.collapse)
  have "statusCode (fst (handleBlacklist refOS refDB ?r (blockedServer, blockedWorld))) = 200" by code_simp
  then have ok: "statusCode rep = 200" using run by simp
  have t: "targetParam ?r = ''198.51.100.7''" by code_simp
  have m: "manager blockedServer = Some (refManager\<lparr>BlacklistTargets := {|''198.51.100.7''|}\<rparr>)"
    "ReqMethod ?r = ''DELETE''"
    by (simp_all add: blockedServer_def sampleRequest_def)
  from blacklist_remove_request[OF _ _ refOS_frame refOS_order m run ok] refObjs_contract refObjs_deletes run t
  show ?thesis by (auto simp: GetBlacklistTargets_def refOS_def)
qed

text \<open>
  C10: Removing the last whitelist target falls back to the open policy: nothing is whitelisted under a
  block of the target any more, and if the kernel lets the policy be written it is 0 afterwards;
  while other targets remain, the policy stays as it was.
\<close>

theorem whitelist_removal_fallback:
  assumes kc: "kernel_contract (objs m) view" and kd: "kernel_deletes (objs m) view"
    and fr: "os_frame os view" and mo: "map_order_contract os"
    and slot: "slot_writable (ConfigMap (objs m)) view 2" "\<not> is_nil (ConfigMap (objs m))"
      "vConfig (view w) 2 \<noteq> None"
    and "manager s = Some m" "ReqMethod r = ''DELETE''"
    and "handleWhitelist os db r (s, w) = (rep, s', w')" "statusCode rep = 200"
  shows "\<exists>cs m'. targetCIDRs db (targetParam r) (geo s) = (geo s', Inr cs) \<and> manager s' = Some m' \<and>
    set (GetWhitelistTargets os (m', w')) = set (GetWhitelistTargets os (m, w)) - {targetParam r} \<and>
    (\<forall>c \<in> set cs. \<forall>k. denotes c k \<longrightarrow> vWhitelist (view w') k = None) \<and>
    GetGeoIPPolicy m' w' =
      (if GetWhitelistTargets os (m', w') = [] then (0, None) else GetGeoIPPolicy m w)"
proof -
  let ?t = "targetParam r"
  from assms(8-11) obtain g cs where t: "targetCIDRs db ?t (geo s) = (g, Inr cs)"
    and delete: "whitelistDelete os m ?t cs r (s\<lparr>geo := g\<rparr>, w) = (rep, s', w')"
    by (auto simp: handleWhitelist_def Let_def dest: targetCIDRs_status split: if_splits prod.splits sum.splits)
  let ?m = "m\<lparr>WhitelistTargets := WhitelistTargets m |-| {|?t|}\<rparr>"
  from whitelistDelete_run[OF kc kd fr mo delete] obtain w2 where
    m': "manager s' = Some ?m" "geo s' = g" and w2: "view w2 = vWhitelist_update (\<lambda>_. vWhitelist (view w2)) (view w)"
      "\<forall>c \<in> set cs. \<forall>k. denotes c k \<longrightarrow> vWhitelist (view w2) k = None"
    and w': "view w' = (if WhitelistTargets m |-| {|?t|} = {||} then view (fst (SetGeoIPPolicy m 0 w2)) else view w2)"
    by auto
  have cfg: "vConfig (view w2) = vConfig (view w)" using w2(1) by (metis kernel_view.select_convs(5) kernel_view.surjective kernel_view.update_convs(2))
  obtain w3 where put: "Put (ConfigMap (objs m)) 2 0 w2 = (w3, True)"
    using slot cfg unfolding slot_writable_def by (metis prod.collapse)
  then have set: "SetGeoIPPolicy m 0 w2 = (w3, None)" using slot(2) by (simp add: SetGeoIPPolicy_def)
  have v3: "view w3 = vConfig_update (\<lambda>_. (vConfig (view w2))(2 \<mapsto> 0)) (view w2)"
    using config_put[OF kc put] by simp
  have empty: "GetWhitelistTargets os (?m, w') = [] \<longleftrightarrow> WhitelistTargets m |-| {|?t|} = {||}"
    using wt.empty_list[OF mo, of "(?m, w')"] by simp
  have read: "GetGeoIPPolicy mm ww = (case vConfig (view ww) 2 of None \<Rightarrow> (0, None) | Some v \<Rightarrow> (v, None))"
    if "objs mm = objs m" for mm ww
    using that config_read[of mm view 2 ww] kc slot(2) by (simp add: GetGeoIPPolicy_def)
  have "GetGeoIPPolicy ?m w' = (if GetWhitelistTargets os (?m, w') = [] then (0, None) else GetGeoIPPolicy m w)"
    unfolding empty using w' v3 set cfg by (simp add: read split: if_splits)
  moreover have "vWhitelist (view w') = vWhitelist (view w2)" using w' v3 set by (simp split: if_splits)
  ultimately show ?thesis
    using t m' w2(2) by (auto simp: wt.set_list[OF mo])
qed

text \<open>
  C25: A request that is refused or fails, on any endpoint, leaves the kernel maps, the target lists and
  the outgoing requests as they were (given that the route calls leave the kernel alone when they
  fail).
\<close>

theorem failed_request_changes_nothing:
  assumes kc: "\<And>m. manager s = Some m \<Longrightarrow> kernel_contract (objs m) view"
    and routes: "\<And>m vip vport p b t w w' e. manager s = Some m \<Longrightarrow>
        add_route env m vip vport p b t w = (w', Some e) \<Longrightarrow> view w' = view w"
      "\<And>m vip vport p b t w w' e. manager s = Some m \<Longrightarrow>
        remove_route env m vip vport p b t w = (w', Some e) \<Longrightarrow> view w' = view w"
    and run: "serveAPI env ep r (s, w) = (rep, s', w')" and status: "statusCode rep \<ge> 400"
  shows "view w' = view w \<and> manager s' = manager s \<and> sent s' = sent s"
proof -
  have kc': "\<And>m l. manager (s\<lparr>limiter := l\<rparr>) = Some m \<Longrightarrow> kernel_contract (objs m) view" using kc by simp
  have "view w' = view w \<and> manager s' = manager s \<and> sent s' = sent s"
    if "handlerOf env ep r (s\<lparr>limiter := l\<rparr>, w) = (rep, s', w')" for l
    using failed_handler[where s = "s\<lparr>limiter := l\<rparr>" and view = view and env = env, OF kc' _ _ that status]
      routes by simp
  with run show ?thesis by (auto simp: serveAPI_eq Let_def split: if_splits)
qed

theorem failed_request_changes_nothing_witness:
  "case serveAPI refEnv Routing (sampleRequest ''POST'' ''vip=x&backend=10.8.0.2'') (refServer, emptyWorld) of
     (rep, s', w') \<Rightarrow> statusCode rep = 500 \<and> refView w' = refView emptyWorld \<and> sent s' = []"
proof -
  let ?r = "sampleRequest ''POST'' ''vip=x&backend=10.8.0.2''"
  obtain rep s' w' where run: "serveAPI refEnv Routing ?r (refServer, emptyWorld) = (rep, s', w')"
    by (metis prod.collapse)
  have "statusCode (fst (serveAPI refEnv Routing ?r (refServer, emptyWorld))) = 500" by code_simp
  then have status: "statusCode rep = 500" using run by simp
  have m: "manager refServer = Some refManager" by (simp add: refServer_def)
  have add: "refView w1 = refView w0" if "AddBackendVIP refOS refManager vip vport p b t [] [] w0 = (w1, Some e)"
    for vip vport p b t w0 w1 e
    using add_backend_run[where view = refView, OF _ refOS_frame that] refObjs_contract by simp
  have remove: "refView w1 = refView w0" if "RemoveBackendVIP refOS refManager vip vport p b t [] w0 = (w1, Some e)"
    for vip vport p b t w0 w1 e
    using remove_backend_run[where m = refManager and view = refView and os = refOS and vip = vip and vport = vport
        and protocol = p and backend = b and tunnelType = t and pubkey = "[]" and w = w0]
      refObjs_contract refObjs_deletes refOS_frame that by simp
  from failed_request_changes_nothing[where view = refView, OF _ _ _ run] status m refObjs_contract run
    add remove
  show ?thesis by (auto simp: refEnv_def refServer_def)
qed

theorem whitelist_removal_fallback_witness:
  "case handleWhitelist refOS refDB (sampleRequest ''DELETE'' ''target=10.0.0.0/8'')
       (refServer\<lparr>manager := Some savedManager\<rparr>, emptyWorld) of
     (rep, s', w') \<Rightarrow> \<exists>m'. manager s' = Some m' \<and> GetWhitelistTargets refOS (m', w') = [] \<and>
       GetGeoIPPolicy m' w' = (0, None)"
proof -
  let ?r = "sampleRequest ''DELETE'' ''target=10.0.0.0/8''" and ?s = "refServer\<lparr>manager := Some savedManager\<rparr>"
  obtain rep s' w' where run: "handleWhitelist refOS refDB ?r (?s, emptyWorld) = (rep, s', w')"
    by (metis prod.collapse)
  have "statusCode (fst (handleWhitelist refOS refDB ?r (?s, emptyWorld))) = 200" by code_simp
  then have ok: "statusCode rep = 200" using run by simp
  have t: "targetParam ?r = ''10.0.0.0/8''" by code_simp
  have m: "manager ?s = Some savedManager" "ReqMethod ?r = ''DELETE''" "objs savedManager = refObjs"
    by (simp_all add: sampleRequest_def savedManager_def)
  have slot: "slot_writable (ConfigMap refObjs) refView 2" "\<not> is_nil (ConfigMap refObjs)"
      "vConfig (refView emptyWorld) 2 \<noteq> None"
    by (auto simp: slot_writable_def refObjs_def ref_map_def refView_def Let_def)
       (simp add: entries_def emptyWorld_def)
  from whitelist_removal_fallback[OF _ _ refOS_frame refOS_order _ _ slot(3) m(1,2) run ok] slot(1,2) m(3)
    refObjs_contract refObjs_deletes
  obtain m' where m': "manager s' = Some m'"
      "set (GetWhitelistTargets refOS (m', w')) = set (GetWhitelistTargets refOS (savedManager, emptyWorld)) - {targetParam ?r}"
      "GetGeoIPPolicy m' w' = (if GetWhitelistTargets refOS (m', w') = [] then (0, None) else GetGeoIPPolicy savedManager emptyWorld)"
    by auto
  have "GetWhitelistTargets refOS (savedManager, emptyWorld) = [''10.0.0.0/8'']" by code_simp
  with m'(2) t have "GetWhitelistTargets refOS (m', w') = []" by simp
  with m' run show ?thesis by simp
qed

end
