(* ===== verification/EventLog.thy ===== *)
theory EventLog
  imports ApiProps
begin

text \<open>
  What the log endpoint shows of the mitigation log: the lines it selects, and that the event written
  last is the first one shown, as the JSON document that was written.
\<close>

subsection \<open>The lines selected\<close>

lemma collectLogs_full: "100 \<le> length res \<Longrightarrow> collectLogs ls res = res"
  by (cases ls) simp_all

lemma collectLogs_eq:
  "length res \<le> 100 \<Longrightarrow>
   collectLogs ls res = res @ take (100 - length res) (filter (\<lambda>l. l \<noteq> []) (map TrimSpace ls))"
proof (induction ls arbitrary: res)
  case (Cons l ls)
  show ?case
  proof (cases "length res < 100")
    case True
    then obtain n where n: "100 - length res = Suc n" by (cases "100 - length res") auto
    then have n': "100 - Suc (length res) = n" by simp
    show ?thesis using True n n' Cons.IH[of res] Cons.IH[of "res @ [TrimSpace l]"] by (simp add: Let_def)
  next
    case False
    with Cons.prems show ?thesis by simp
  qed
qed simp

lemma logLines_eq:
  "logLines content =
     take 100 (filter (\<lambda>l. l \<noteq> []) (map TrimSpace (rev (splitOn newline (TrimSpace content)))))"
  by (simp add: logLines_def collectLogs_eq)

subsection \<open>A written event is one line\<close>

lemma runeLen_bytes:
  assumes "runeLen s \<noteq> 0" "c \<in> set (take (runeLen s) s)"
  shows "128 \<le> byteVal c"
  using assms
  by (cases s rule: runeLen.cases) (auto simp: Let_def continuation_def split: if_splits list.splits)

lemma newline_value: "byteVal newline = 10"
  by (simp add: newline_def byteVal_def)

lemma escapeByte_newline: "newline \<notin> set (escapeByte c)"
proof (cases "c \<in> fst ` set named")
  case True
  then obtain e where ce: "(c, e) \<in> set named" by auto
  then have "e \<noteq> newline" by (auto simp: named_def newline_def backslash_def quote_def)
  with named_escapes[OF ce] show ?thesis by (simp add: newline_def backslash_def)
next
  case False
  then have c: "c \<noteq> newline" by (auto simp: named_def newline_def)
  have hex: "hexDigit d \<noteq> newline" if "0 \<le> d" "d < 16" for d
    using hexVal_hexDigit[OF that] by (auto simp: newline_def hexVal_def)
  have "hexDigit (byteVal c div 16) \<noteq> newline" "hexDigit (byteVal c mod 16) \<noteq> newline"
    using byteVal_bounds[of c] by (simp_all add: hex)
  moreover have "newline \<notin> {backslash, CHR ''u'', CHR ''0''}" by (simp add: newline_def backslash_def)
  ultimately show ?thesis
    unfolding escapeByte_other[OF False] using c by simp
qed

lemma jsonChars_newline: "newline \<notin> set (jsonChars s)"
proof (induction s rule: jsonChars.induct)
  case (2 c cs)
  have b: "newline \<notin> set (take (runeLen (c # cs)) (c # cs))" if "runeLen (c # cs) \<noteq> 0"
    using runeLen_bytes[OF that, of newline] newline_value by auto
  have e: "newline \<notin> set (backslash # ''ufffd'')" "newline \<notin> set (backslash # ''u2028'')"
    "newline \<notin> set (backslash # ''u2029'')" by (simp_all add: newline_def backslash_def)
  show ?case
    using 2 b e escapeByte_newline[of c] by (simp add: Let_def)
qed simp

lemma jsonString_newline [simp]: "newline \<notin> set (jsonString s)"
  using jsonChars_newline by (simp add: jsonString_def newline_def quote_def)

lemma marshalEvent_shape:
  "\<exists>mid. marshalEvent ev = CHR ''{'' # mid @ ''}'' \<and> newline \<notin> set (marshalEvent ev)"
proof -
  have n: "newline \<notin> set ''{:,}''" by (simp add: newline_def)
  have "newline \<notin> set (itoa (uint (EventValue ev)))"
    using isDigit_itoa[of "uint (EventValue ev)" newline] by (auto simp: isDigit_def digitVal_def newline_def)
  with n show ?thesis unfolding marshalEvent_def jsonMember_def by auto
qed

subsection \<open>Trimming the log\<close>

lemma space_bytes: "p \<in> set go_spaces \<Longrightarrow> CHR ''{'' \<notin> set p \<and> CHR ''}'' \<notin> set p"
  by (auto simp: go_spaces_def)

lemma leadingSpace_brace:
  assumes "leadingSpace (a @ CHR ''{'' # b) = Some p"
  shows "prefix p a" "p \<noteq> []"
proof -
  have p: "prefix p (a @ CHR ''{'' # b)" "p \<in> set go_spaces"
    using assms by (auto simp: leadingSpace_def find_Some_iff)
  with space_bytes[OF p(2)] show "prefix p a" "p \<noteq> []"
    using go_spaces_nonempty[OF p(2)] by (auto simp: prefix_append prefix_Cons)
qed

lemma trimLeftSpace_brace: "\<exists>a'. suffix a' a \<and> trimLeftSpace (a @ CHR ''{'' # b) = a' @ CHR ''{'' # b"
proof (induction "length a" arbitrary: a rule: less_induct)
  case less
  show ?case
  proof (cases "leadingSpace (a @ CHR ''{'' # b)")
    case None
    then show ?thesis by (intro exI[of _ a]) (simp add: trimLeftSpace.simps)
  next
    case (Some p)
    from leadingSpace_brace[OF this] obtain a1 where a: "a = p @ a1" "p \<noteq> []" by (auto simp: prefix_def)
    then have "length a1 < length a" by simp
    from less[OF this] a Some show ?thesis
      by (subst trimLeftSpace.simps) (auto intro: suffix_appendI)
  qed
qed

lemma trimRightSpace_brace: "trimRightSpace (a @ ''}'') = a @ ''}''"
proof -
  have "\<not> suffix p (a @ ''}'')" if "p \<in> set go_spaces" for p
  proof
    assume "suffix p (a @ ''}'')"
    then obtain zs where "a @ ''}'' = zs @ p" by (auto simp: suffix_def)
    then have "last p = CHR ''}''" using go_spaces_nonempty[OF that] by (metis last_appendR last_snoc)
    then show False using space_bytes[OF that] go_spaces_nonempty[OF that] last_in_set[of p] by auto
  qed
  then have "trailingSpace (a @ ''}'') = None" by (simp add: trailingSpace_def find_None_iff)
  then show ?thesis by (simp add: trimRightSpace.simps)
qed

lemma trimRightSpace_newline: "trimRightSpace (s @ [newline]) = trimRightSpace s"
proof -
  have "trailingSpace (s @ [newline]) = Some [newline]"
    by (simp add: trailingSpace_def go_spaces_def newline_def suffix_def)
  then show ?thesis by (subst trimRightSpace.simps) simp
qed

lemma TrimSpace_object: "TrimSpace (CHR ''{'' # mid @ ''}'') = CHR ''{'' # mid @ ''}''"
proof -
  obtain a' where "suffix a' []" "trimLeftSpace ([] @ CHR ''{'' # mid @ ''}'') = a' @ CHR ''{'' # mid @ ''}''"
    using trimLeftSpace_brace[of "[]"] by blast
  then show ?thesis using trimRightSpace_brace[of "CHR ''{'' # mid"] by (simp add: TrimSpace_def)
qed

text \<open>
  No encoding of a space is the beginning or the end of another, none but the newline itself contains a
  newline, and none begins with a byte that another goes on with.
\<close>

lemma spaces_free:
  "list_all (\<lambda>p. list_all (\<lambda>q. (prefix p q \<longrightarrow> p = q) \<and> (suffix p q \<longrightarrow> p = q) \<and> hd p \<notin> set (tl q)) go_spaces) go_spaces"
  "list_all (\<lambda>p. p = [newline] \<or> newline \<notin> set p) go_spaces"
  by code_simp+

lemma spaces_prefix: "p \<in> set go_spaces \<Longrightarrow> q \<in> set go_spaces \<Longrightarrow> prefix p s \<Longrightarrow> prefix q s \<Longrightarrow> p = q"
  using spaces_free(1) prefix_same_cases[of p s q] by (force simp: list_all_iff)

lemma spaces_suffix: "p \<in> set go_spaces \<Longrightarrow> q \<in> set go_spaces \<Longrightarrow> suffix p s \<Longrightarrow> suffix q s \<Longrightarrow> p = q"
  using spaces_free(1) suffix_same_cases[of p s q] by (force simp: list_all_iff)

lemma leadingSpace_iff: "leadingSpace s = Some p \<longleftrightarrow> p \<in> set go_spaces \<and> prefix p s"
proof
  show "leadingSpace s = Some p \<Longrightarrow> p \<in> set go_spaces \<and> prefix p s"
    by (auto simp: leadingSpace_def find_Some_iff)
  assume p: "p \<in> set go_spaces \<and> prefix p s"
  then obtain q where q: "leadingSpace s = Some q"
    by (cases "leadingSpace s") (auto simp: leadingSpace_def find_None_iff)
  then have "q \<in> set go_spaces \<and> prefix q s" by (auto simp: leadingSpace_def find_Some_iff)
  with p q spaces_prefix show "leadingSpace s = Some p" by metis
qed

lemma trailingSpace_iff: "trailingSpace s = Some p \<longleftrightarrow> p \<in> set go_spaces \<and> suffix p s"
proof
  show "trailingSpace s = Some p \<Longrightarrow> p \<in> set go_spaces \<and> suffix p s"
    by (auto simp: trailingSpace_def find_Some_iff)
  assume p: "p \<in> set go_spaces \<and> suffix p s"
  then obtain q where q: "trailingSpace s = Some q"
    by (cases "trailingSpace s") (auto simp: trailingSpace_def find_None_iff)
  then have "q \<in> set go_spaces \<and> suffix q s" by (auto simp: trailingSpace_def find_Some_iff)
  with p q spaces_suffix show "trailingSpace s = Some p" by metis
qed

lemma trimLeft_space: "p \<in> set go_spaces \<Longrightarrow> trimLeftSpace (p @ s) = trimLeftSpace s"
  using leadingSpace_iff[of "p @ s" p] by (subst trimLeftSpace.simps) simp

lemma trimRight_space: "p \<in> set go_spaces \<Longrightarrow> trimRightSpace (s @ p) = trimRightSpace s"
  using trailingSpace_iff[of "s @ p" p] by (subst trimRightSpace.simps) (simp add: suffix_def)

lemma trimLeft_Nil [simp]: "trimLeftSpace [] = []"
  using leadingSpace_SomeD[of "[]"] by (subst trimLeftSpace.simps) (auto split: option.split)

lemma leadingSpace_append:
  assumes "s \<noteq> []" "p \<in> set go_spaces"
  shows "leadingSpace (s @ p) = leadingSpace s"
proof -
  have "prefix q s" if q: "q \<in> set go_spaces" "prefix q (s @ p)" for q
  proof (rule ccontr)
    assume "\<not> prefix q s"
    with q(2) obtain r where r: "q = s @ r" "prefix r p" "r \<noteq> []" by (auto simp: prefix_append)
    then have "hd p \<in> set (tl q)" using assms(1) by (cases s; cases r) (auto simp: prefix_def)
    with spaces_free(1) q(1) assms(2) show False by (force simp: list_all_iff)
  qed
  then have "leadingSpace (s @ p) = Some q \<longleftrightarrow> leadingSpace s = Some q" for q
    unfolding leadingSpace_iff by (auto simp: prefix_append)
  then show ?thesis by (metis not_Some_eq)
qed

lemma trimLeft_append:
  assumes "p \<in> set go_spaces"
  shows "trimLeftSpace (s @ p) = (if trimLeftSpace s = [] then [] else trimLeftSpace s @ p)"
proof (induction "length s" arbitrary: s rule: less_induct)
  case less
  show ?case
  proof (cases "s = []")
    case True
    then show ?thesis using trimLeft_space[OF assms, of "[]"] by simp
  next
    case ne: False
    show ?thesis
    proof (cases "leadingSpace s")
      case None
      then show ?thesis using ne leadingSpace_append[OF ne assms] by (simp add: trimLeftSpace.simps)
    next
      case (Some q)
      then obtain r where r: "s = q @ r" "q \<in> set go_spaces" "q \<noteq> []"
        using leadingSpace_SomeD[OF Some] by (auto simp: leadingSpace_iff prefix_def)
      then have "length r < length s" by simp
      from less[OF this] r show ?thesis by (simp add: trimLeft_space)
    qed
  qed
qed

lemma TrimSpace_space_right: "p \<in> set go_spaces \<Longrightarrow> TrimSpace (s @ p) = TrimSpace s"
  by (auto simp: TrimSpace_def trimLeft_append trimRight_space)

lemma TrimSpace_space_left: "p \<in> set go_spaces \<Longrightarrow> TrimSpace (p @ s) = TrimSpace s"
  by (simp add: TrimSpace_def trimLeft_space)

subsection \<open>The entries of a log\<close>

definition logEntries :: "string \<Rightarrow> string list" where
  "logEntries s = filter (\<lambda>l. l \<noteq> []) (map TrimSpace (splitOn newline s))"

lemma TrimSpace_Nil [simp]: "TrimSpace [] = []"
  by (simp add: TrimSpace_def) (subst trimRightSpace.simps, auto dest: trailingSpace_SomeD split: option.split)

lemma logEntries_append: "logEntries (a @ newline # b) = logEntries a @ logEntries b"
  by (simp add: logEntries_def splitOn_append)

lemma logEntries_line: "newline \<notin> set l \<Longrightarrow> logEntries l = (if TrimSpace l = [] then [] else [TrimSpace l])"
  by (simp add: logEntries_def splitOn_no_sep)

lemma first_line: "newline \<in> set s \<Longrightarrow> \<exists>l r. s = l @ newline # r \<and> newline \<notin> set l"
  by (metis split_list_first)

lemma last_line: "newline \<in> set s \<Longrightarrow> \<exists>r l. s = r @ newline # l \<and> newline \<notin> set l"
  by (metis split_list_last)

lemma logEntries_space:
  assumes "p \<in> set go_spaces"
  shows "logEntries (p @ s) = logEntries s" "logEntries (s @ p) = logEntries s"
proof -
  have nl: "logEntries ([newline] @ s) = logEntries s" "logEntries (s @ [newline]) = logEntries s"
    using logEntries_append[of "[]" s] logEntries_append[of s "[]"] logEntries_line[of "[]"] by simp_all
  consider "p = [newline]" | "newline \<notin> set p" using spaces_free(2) assms by (auto simp: list_all_iff)
  then show "logEntries (p @ s) = logEntries s"
  proof cases
    case 2
    show ?thesis
    proof (cases "newline \<in> set s")
      case True
      then obtain l r where s: "s = l @ newline # r" "newline \<notin> set l" using first_line by blast
      with 2 have "logEntries (p @ l) = logEntries l" by (simp add: logEntries_line TrimSpace_space_left[OF assms])
      then show ?thesis using logEntries_append[of "p @ l" r] logEntries_append[of l r] s(1) by simp
    qed (use 2 in \<open>simp add: logEntries_line TrimSpace_space_left[OF assms]\<close>)
  qed (use nl in simp)
  consider "p = [newline]" | "newline \<notin> set p" using spaces_free(2) assms by (auto simp: list_all_iff)
  then show "logEntries (s @ p) = logEntries s"
  proof cases
    case 2
    show ?thesis
    proof (cases "newline \<in> set s")
      case True
      then obtain r l where s: "s = r @ newline # l" "newline \<notin> set l" using last_line by blast
      with 2 have "logEntries (l @ p) = logEntries l" by (simp add: logEntries_line TrimSpace_space_right[OF assms])
      then show ?thesis using logEntries_append[of r "l @ p"] logEntries_append[of r l] s(1) by simp
    qed (use 2 in \<open>simp add: logEntries_line TrimSpace_space_right[OF assms]\<close>)
  qed (use nl in simp)
qed

lemma logEntries_trimLeft: "logEntries (trimLeftSpace s) = logEntries s"
proof (induction "length s" arbitrary: s rule: less_induct)
  case less
  show ?case
  proof (cases "leadingSpace s")
    case None
    then show ?thesis by (simp add: trimLeftSpace.simps)
  next
    case (Some q)
    then obtain r where r: "s = q @ r" "q \<in> set go_spaces" "q \<noteq> []"
      using leadingSpace_SomeD[OF Some] by (auto simp: leadingSpace_iff prefix_def)
    then have "length r < length s" by simp
    from less[OF this] r show ?thesis by (simp add: trimLeft_space logEntries_space)
  qed
qed

lemma logEntries_trimRight: "logEntries (trimRightSpace s) = logEntries s"
proof (induction "length s" arbitrary: s rule: less_induct)
  case less
  show ?case
  proof (cases "trailingSpace s")
    case None
    then show ?thesis by (simp add: trimRightSpace.simps)
  next
    case (Some q)
    then obtain r where r: "s = r @ q" "q \<in> set go_spaces" "q \<noteq> []"
      using trailingSpace_SomeD[OF Some] by (auto simp: trailingSpace_iff suffix_def)
    then have "length r < length s" by simp
    from less[OF this] r show ?thesis by (simp add: trimRight_space logEntries_space)
  qed
qed

text \<open>The endpoint selects the newest hundred entries, the newest first.\<close>

lemma logLines_entries: "logLines content = take 100 (rev (logEntries content))"
proof -
  have "logEntries (TrimSpace content) = logEntries content"
    by (simp add: TrimSpace_def logEntries_trimLeft logEntries_trimRight)
  moreover have "logLines content = take 100 (rev (logEntries (TrimSpace content)))"
    by (simp add: logLines_eq logEntries_def rev_map rev_filter)
  ultimately show ?thesis by simp
qed

lemma logEntries_event:
  assumes "old = [] \<or> last old = newline"
  shows "logEntries (old @ marshalEvent ev @ [newline]) = logEntries old @ [marshalEvent ev]"
proof -
  obtain mid where ev: "marshalEvent ev = CHR ''{'' # mid @ ''}''" "newline \<notin> set (marshalEvent ev)"
    using marshalEvent_shape by blast
  have "TrimSpace (marshalEvent ev) = marshalEvent ev" unfolding ev(1) by (rule TrimSpace_object)
  with ev have line: "logEntries (marshalEvent ev @ [newline]) = [marshalEvent ev]"
    using logEntries_append[of "marshalEvent ev" "[]"] logEntries_line[of "[]"] by (simp add: logEntries_line)
  show ?thesis
  proof (cases "old = []")
    case True
    with line show ?thesis using logEntries_line[of "[]"] by simp
  next
    case False
    with assms obtain b where b: "old = b @ [newline]" by (metis append_butlast_last_id)
    then show ?thesis
      using line logEntries_append[of b "marshalEvent ev @ [newline]"] logEntries_append[of b "[]"]
        logEntries_line[of "[]"] by simp
  qed
qed

subsection \<open>Reading an event back\<close>

lemma lexTokens_itoa_brace:
  assumes "0 \<le> n"
  shows "lexTokens (itoa n @ ''}'') = Some [TNum (itoa n), TRBrace]"
proof -
  obtain c cs where i: "itoa n = c # cs" by (cases "itoa n") auto
  have c: "isDigit c" using isDigit_itoa[OF assms, of c] i by simp
  then have d: "punct c = None" "c \<noteq> quote" "\<not> isBlank c" "c \<noteq> CHR ''t''" "c \<noteq> CHR ''f''" "c \<noteq> CHR ''n''"
    by (auto simp: isDigit_def digitVal_def punct_def quote_def isBlank_def)
  have "lexNumber (itoa n @ ''}'') = Some (itoa n, ''}'')"
    using assms by (intro lexNumber_itoa) (simp_all add: isDigit_def digitVal_def)
  with d i have "lexToken (itoa n @ ''}'') = Some (TNum (itoa n), ''}'')"
    by (simp add: lexToken_def HasPrefix_def)
  from lexTokens_token[OF this] d i show ?thesis by (simp add: lex_simps)
qed

lemma parseJson_marshalEvent:
  "parseJson (marshalEvent ev) = Some (JObj
     [(utf8Clean ''timestamp'', JStr (utf8Clean (Timestamp ev))), (utf8Clean ''event'', JStr (utf8Clean (Event ev))),
      (utf8Clean ''ip'', JStr (utf8Clean (EventIP ev))), (utf8Clean ''reason'', JStr (utf8Clean (Reason ev))),
      (utf8Clean ''value'', JNum (itoa (uint (EventValue ev))))])"
proof -
  have "lexTokens (marshalEvent ev) = Some
     [TLBrace, TStr (utf8Clean ''timestamp''), TColon, TStr (utf8Clean (Timestamp ev)), TComma,
      TStr (utf8Clean ''event''), TColon, TStr (utf8Clean (Event ev)), TComma,
      TStr (utf8Clean ''ip''), TColon, TStr (utf8Clean (EventIP ev)), TComma,
      TStr (utf8Clean ''reason''), TColon, TStr (utf8Clean (Reason ev)), TComma,
      TStr (utf8Clean ''value''), TColon, TNum (itoa (uint (EventValue ev))), TRBrace]"
    by (simp add: marshalEvent_def jsonMember_def lex_simps lexTokens_itoa_brace del: utf8Clean.simps)
  then show ?thesis
    by (simp add: parseJson_def beginValue_def openFrame_def maxNestingDepth_def del: utf8Clean.simps)
qed

lemma utf8Clean_names:
  "utf8Clean ''timestamp'' = ''timestamp''" "utf8Clean ''event'' = ''event''" "utf8Clean ''ip'' = ''ip''"
  "utf8Clean ''reason'' = ''reason''" "utf8Clean ''value'' = ''value''"
  by code_simp+

subsection \<open>Properties\<close>

text \<open>
  C39: The log endpoint shows the event written last first, and after it the 99 entries before it, the
  newest first, as they are in the log (its lines that are not blank, trimmed): all of them when they
  are JSON texts, and otherwise (a line torn by a crash, say) an empty reply.  The first line shown is
  the JSON object of the event: its five members with their values.
\<close>

theorem newest_event_shown_first:
  assumes "\<not> NotExist os (resolvePath os ''logs'' w @ ''/mitigation.log'') w"
    and "ReadFile os (resolvePath os ''logs'' w @ ''/mitigation.log'') w = Some (old @ marshalEvent ev @ [newline])"
    and "old = [] \<or> last old = newline"
  shows "handleLogs os r (s, w) =
      (if list_all (\<lambda>l. parseJson l \<noteq> None) (take 99 (rev (logEntries old)))
       then LogLines (marshalEvent ev # take 99 (rev (logEntries old))) else EmptyBody, s, w) \<and>
    parseJson (marshalEvent ev) = Some (JObj
      [(''timestamp'', JStr (utf8Clean (Timestamp ev))), (''event'', JStr (utf8Clean (Event ev))),
       (''ip'', JStr (utf8Clean (EventIP ev))), (''reason'', JStr (utf8Clean (Reason ev))),
       (''value'', JNum (itoa (uint (EventValue ev))))])"
proof
  have "logLines (old @ marshalEvent ev @ [newline]) = marshalEvent ev # take 99 (rev (logEntries old))"
    unfolding logLines_entries logEntries_event[OF assms(3)] by (simp add: numeral_eq_Suc)
  with assms(1,2) parseJson_marshalEvent[of ev]
  show "handleLogs os r (s, w) =
      (if list_all (\<lambda>l. parseJson l \<noteq> None) (take 99 (rev (logEntries old)))
       then LogLines (marshalEvent ev # take 99 (rev (logEntries old))) else EmptyBody, s, w)"
    by (simp add: handleLogs_def Let_def del: append_assoc append.simps)
  show "parseJson (marshalEvent ev) = Some (JObj
      [(''timestamp'', JStr (utf8Clean (Timestamp ev))), (''event'', JStr (utf8Clean (Event ev))),
       (''ip'', JStr (utf8Clean (EventIP ev))), (''reason'', JStr (utf8Clean (Reason ev))),
       (''value'', JNum (itoa (uint (EventValue ev))))])"
    using parseJson_marshalEvent[of ev, unfolded utf8Clean_names] .
qed

definition sampleEvent :: MitigationEvent where
  "sampleEvent = \<lparr>Timestamp = ''2023-11-14T22:13:20Z'', Event = ''auto_unblock'', EventIP = ''198.51.100.7'',
     Reason = ''Blacklist TTL expired'', EventValue = 0\<rparr>"

definition logWorld :: world where
  "logWorld = emptyWorld\<lparr>wFiles := [(''logs/mitigation.log'', marshalEvent sampleEvent @ [newline])]\<rparr>"

theorem newest_event_shown_first_witness:
  "handleLogs refOS (sampleRequest ''GET'' []) (refServer, logWorld) =
     (LogLines [marshalEvent sampleEvent], refServer, logWorld)"
proof -
  have path: "resolvePath refOS ''logs'' logWorld @ ''/mitigation.log'' = ''logs/mitigation.log''" by code_simp
  have log: "ReadFile refOS ''logs/mitigation.log'' logWorld = Some ([] @ marshalEvent sampleEvent @ [newline])"
    "\<not> NotExist refOS ''logs/mitigation.log'' logWorld"
    by (simp_all add: refOS_def logWorld_def)
  have "logEntries [] = []" by (simp add: logEntries_line)
  then show ?thesis
    using newest_event_shown_first[where os = refOS and w = logWorld and old = "[]" and ev = sampleEvent
      and r = "sampleRequest ''GET'' []" and s = refServer, unfolded path, OF log(2,1)] by simp
qed

end
