(* ===== verification/Startup.thy ===== *)
theory Startup
  imports ApiProps
begin

text \<open>
  From the start of the process to the point where requests are served and the engine runs: the
  configuration (\<open>config.go\<close>), loading and attaching the XDP program (\<open>loader.go\<close>), the reputation
  list, and the order in which \<open>main\<close> sets the data path up.
\<close>

subsection \<open>Configuration\<close>

record config =
  AsnDBPath :: string
  CountryDBPath :: string
  Key :: string
  Listen :: string

definition zeroConfig :: config where
  "zeroConfig = \<lparr>AsnDBPath = [], CountryDBPath = [], Key = [], Listen = []\<rparr>"

definition decodeGeoIP :: "string \<Rightarrow> json \<Rightarrow> config \<Rightarrow> config \<times> bool" where
  "decodeGeoIP name v c =
     (if name = foldName ''asn_db_path'' then
        (case decodeString v (AsnDBPath c) of (x, ok) \<Rightarrow> (c\<lparr>AsnDBPath := x\<rparr>, ok))
      else if name = foldName ''country_db_path'' then
        (case decodeString v (CountryDBPath c) of (x, ok) \<Rightarrow> (c\<lparr>CountryDBPath := x\<rparr>, ok))
      else (c, True))"

definition decodeAPI :: "string \<Rightarrow> json \<Rightarrow> config \<Rightarrow> config \<times> bool" where
  "decodeAPI name v c =
     (if name = foldName ''api_key'' then
        (case decodeString v (Key c) of (x, ok) \<Rightarrow> (c\<lparr>Key := x\<rparr>, ok))
      else if name = foldName ''listen'' then
        (case decodeString v (Listen c) of (x, ok) \<Rightarrow> (c\<lparr>Listen := x\<rparr>, ok))
      else (c, True))"

definition decodeConfig :: "string \<Rightarrow> json \<Rightarrow> config \<Rightarrow> config \<times> bool" where
  "decodeConfig name v c =
     (if name = foldName ''geoip'' then decodeStruct decodeGeoIP v c
      else if name = foldName ''api'' then decodeStruct decodeAPI v c
      else (c, True))"

text \<open>\<open>hex.EncodeToString\<close>.\<close>

definition hexText :: "u8 list \<Rightarrow> string" where
  "hexText bs = concat (map (\<lambda>b. [hexDigit (uint b div 16), hexDigit (uint b mod 16)]) bs)"

text \<open>The configuration, and whether the error is nil.\<close>

definition LoadConfig :: "'w goos \<Rightarrow> string \<Rightarrow> 'w \<Rightarrow> config \<times> bool" where
  "LoadConfig os filePath w =
     (case ReadFile os filePath w of
        None \<Rightarrow> (zeroConfig, False)
      | Some text \<Rightarrow>
          (case Unmarshal (decodeStruct decodeConfig) text zeroConfig of
             (c, ok) \<Rightarrow>
               (let c1 = (if Key c = [] then
                            (case RandomBytes os 32 w of None \<Rightarrow> c | Some key \<Rightarrow> c\<lparr>Key := hexText key\<rparr>)
                          else c);
                    c2 = (if Listen c1 = [] then c1\<lparr>Listen := '':8080''\<rparr> else c1)
                in (c2, ok))))"

text \<open>What \<open>main\<close> goes on with.\<close>

definition mainConfig :: "'w goos \<Rightarrow> 'w \<Rightarrow> config" where
  "mainConfig os w =
     (case LoadConfig os (resolvePath os ''conf/config.json'' w) w of
        (c, True) \<Rightarrow> c
      | (c, False) \<Rightarrow>
          c\<lparr>AsnDBPath := ''data/geoip/GeoLite2-ASN.mmdb'',
            CountryDBPath := ''data/geoip/GeoLite2-Country.mmdb''\<rparr>)"

subsection \<open>The XDP program\<close>

text \<open>
  The packages \<open>cilium/ebpf\<close> and \<open>netlink\<close>, as far as loading uses them: finding the interface,
  reading the object file, loading it (the objects and the descriptor of the program), setting the
  program of an interface with flags, pinning a map and removing a directory.
\<close>

record ('l, 'w) xdp_api =
  LinkByName :: "string \<Rightarrow> 'w \<Rightarrow> 'l option"
  LoadCollectionSpec :: "string \<Rightarrow> 'w \<Rightarrow> bool"
  LoadAndAssign :: "string \<Rightarrow> string \<Rightarrow> 'w \<Rightarrow> 'w \<times> ('w bpfObjects \<times> int) option"
  LinkSetXdpFdWithFlags :: "'l \<Rightarrow> int \<Rightarrow> nat \<Rightarrow> 'w \<Rightarrow> 'w \<times> bool"
  PinMap :: "string \<Rightarrow> string \<Rightarrow> 'w \<Rightarrow> 'w"
  RemoveAll :: "string \<Rightarrow> 'w \<Rightarrow> 'w"

record 'w XDPProgram =
  prog_objs :: "'w bpfObjects"
  ifaceName :: string

datatype load_error = NoInterface | BadObjectFile | LoadFailed | AttachFailed

definition pinDir :: string where
  "pinDir = ''/sys/fs/bpf/shield_core''"

definition pinShared :: "('l, 'w) xdp_api \<Rightarrow> 'w \<Rightarrow> 'w" where
  "pinShared x w =
     fold (\<lambda>name. PinMap x name (pinDir @ ''/'' @ name))
       [''xsks_map'', ''a2s_info'', ''cidr_blacklist_map'', ''cidr_whitelist_map'', ''ring_stats_map''] w"

definition detachOld :: "('l, 'w) xdp_api \<Rightarrow> 'l \<Rightarrow> 'w \<Rightarrow> 'w" where
  "detachOld x link w = fst (LinkSetXdpFdWithFlags x link (- 1) 0 w)"

definition SKB_MODE :: nat where
  "SKB_MODE = 2"

definition DRV_MODE :: nat where
  "DRV_MODE = 4"

text \<open>Driver mode first, then generic mode.\<close>

definition attachXDP :: "('l, 'w) xdp_api \<Rightarrow> 'l \<Rightarrow> int \<Rightarrow> 'w \<Rightarrow> 'w \<times> bool" where
  "attachXDP x link fd w =
     (case LinkSetXdpFdWithFlags x link fd DRV_MODE w of
        (w1, True) \<Rightarrow> (w1, True)
      | (w1, False) \<Rightarrow> LinkSetXdpFdWithFlags x link fd SKB_MODE w1)"

definition LoadXDPProgram ::
  "'w goos \<Rightarrow> ('l, 'w) xdp_api \<Rightarrow> string \<Rightarrow> string \<Rightarrow> 'w \<Rightarrow> 'w \<times> (load_error + 'w XDPProgram)" where
  "LoadXDPProgram os x iface objPath w =
     (case LinkByName x iface w of
        None \<Rightarrow> (w, Inl NoInterface)
      | Some link \<Rightarrow>
          (if \<not> LoadCollectionSpec x objPath w then (w, Inl BadObjectFile)
           else case LoadAndAssign x objPath pinDir w of
             (w1, None) \<Rightarrow> (w1, Inl LoadFailed)
           | (w1, Some (os_maps, fd)) \<Rightarrow>
               (let w2 = detachOld x link (detachOld x link w1);
                    w3 = fst (MkdirAll os pinDir w2);
                    w4 = detachOld x link (pinShared x w3)
                in case attachXDP x link fd w4 of
                  (w5, False) \<Rightarrow> (w5, Inl AttachFailed)
                | (w5, True) \<Rightarrow> (w5, Inr \<lparr>prog_objs = os_maps, ifaceName = iface\<rparr>))))"

definition CloseXDP :: "('l, 'w) xdp_api \<Rightarrow> 'w XDPProgram \<Rightarrow> 'w \<Rightarrow> 'w" where
  "CloseXDP x prog w =
     (if ifaceName prog \<noteq> [] then
        (case LinkByName x (ifaceName prog) w of
           None \<Rightarrow> w
         | Some link \<Rightarrow> fst (LinkSetXdpFdWithFlags x link (- 1) 0 w))
      else w)"

definition UnpinMaps :: "('l, 'w) xdp_api \<Rightarrow> 'w \<Rightarrow> 'w" where
  "UnpinMaps x w = RemoveAll x pinDir w"

subsection \<open>Reputation list\<close>

record ReputationItem =
  CIDR :: string
  Score :: int
  Description :: string

definition zeroItem :: ReputationItem where
  "zeroItem = \<lparr>CIDR = [], Score = 0, Description = []\<rparr>"

definition decodeItem :: "string \<Rightarrow> json \<Rightarrow> ReputationItem \<Rightarrow> ReputationItem \<times> bool" where
  "decodeItem name v item =
     (if name = foldName ''cidr'' then
        (case decodeString v (CIDR item) of (x, ok) \<Rightarrow> (item\<lparr>CIDR := x\<rparr>, ok))
      else if name = foldName ''score'' then
        (case decodeInt v (Score item) of (x, ok) \<Rightarrow> (item\<lparr>Score := x\<rparr>, ok))
      else if name = foldName ''description'' then
        (case decodeString v (Description item) of (x, ok) \<Rightarrow> (item\<lparr>Description := x\<rparr>, ok))
      else (item, True))"

definition unmarshalItems :: "string \<Rightarrow> ReputationItem list option" where
  "unmarshalItems text =
     (case Unmarshal (decodeSlice (decodeStruct decodeItem) zeroItem) text ([], []) of
        (items, ok) \<Rightarrow> if ok then Some (fst items) else None)"

text \<open>The loop over the items, with the number of blocks loaded.\<close>

fun loadItems :: "'w goos \<Rightarrow> 'w MapManager \<Rightarrow> ReputationItem list \<Rightarrow> 'w \<times> nat \<Rightarrow> 'w \<times> nat" where
  "loadItems os m [] (w, loadedCount) = (w, loadedCount)"
| "loadItems os m (item # items) (w, loadedCount) =
     (if Score item \<ge> 80 then
        (case BlockCIDR os m (CIDR item) w of
           (w1, Some err) \<Rightarrow> loadItems os m items (w1, loadedCount)
         | (w1, None) \<Rightarrow> loadItems os m items (w1, loadedCount + 1))
      else loadItems os m items (w, loadedCount))"

definition loadReputationDatabase :: "'w goos \<Rightarrow> 'w MapManager option \<Rightarrow> string \<Rightarrow> 'w \<Rightarrow> 'w" where
  "loadReputationDatabase os mapMgr filePath w =
     (case mapMgr of
        None \<Rightarrow> w
      | Some m \<Rightarrow>
          (case ReadFile os filePath w of
             None \<Rightarrow> w
           | Some text \<Rightarrow>
               (case unmarshalItems text of
                  None \<Rightarrow> w
                | Some items \<Rightarrow> fst (loadItems os m items (w, 0)))))"

subsection \<open>Setting up\<close>

text \<open>The branch of \<open>main\<close> taken when the program is loaded.\<close>

definition startDatapath ::
  "'w goos \<Rightarrow> ('r, 'i, 'w) maxmind \<Rightarrow> 'w bpfObjects \<Rightarrow> ('r, 'w) server \<times> 'w \<Rightarrow> ('r, 'w) server \<times> 'w" where
  "startDatapath os db prog = (\<lambda>(s, w).
     let m = NewMapManager prog;
         w1 = fst (UpdateRateLimits m 5000 (10 * 1024 * 1024) w);
         w2 = loadReputationDatabase os (Some m) (resolvePath os ''conf/reputation.json'' w1) w1;
         cl = clusterInfo s;
         nodes = loadClusterNodes os (resolvePath os ''conf/nodes.json'' w2) w2 (clusterNodes cl);
         path = initPersistence os w2
     in case restoreRulesState os db path (Some m, geo s, w2) of
          (mm, g, w3) \<Rightarrow>
            (s\<lparr>manager := mm, geo := g, clusterInfo := cl\<lparr>clusterNodes := nodes\<rparr>, stateFile := path\<rparr>, w3))"

definition startServer ::
  "'w goos \<Rightarrow> ('r, 'i, 'w) maxmind \<Rightarrow> ('l, 'w) xdp_api \<Rightarrow> config \<Rightarrow> string \<Rightarrow> 'w
   \<Rightarrow> (('r, 'w) server \<times> 'w XDPProgram option) \<times> 'w" where
  "startServer os db x c iface w =
     (case InitGeoIPManager os db (AsnDBPath c) (CountryDBPath c) w of
        (g, w1) \<Rightarrow>
          (let s = \<lparr>stateFile = [],
                    clusterInfo = \<lparr>clusterNodes = [], listenAddr = Listen c, configuredAPIKey = Key c\<rparr>,
                    manager = None, geo = Some g, limiter = [], sent = []\<rparr>
           in case LoadXDPProgram os x iface (resolvePath os ''src/bpf/xdp_main.o'' w1) w1 of
             (w2, Inl err) \<Rightarrow> ((s, None), w2)
           | (w2, Inr prog) \<Rightarrow>
               (case startDatapath os db (prog_objs prog) (s, w2) of (s', w3) \<Rightarrow> ((s', Some prog), w3))))"

subsection \<open>Lemmas\<close>

lemma loadItems_count:
  "loadItems os m items (w, n) =
     count_ok (\<lambda>c w. succeeded (BlockCIDR os m c w)) (map CIDR (filter (\<lambda>i. Score i \<ge> 80) items)) (w, n)"
  by (induction items arbitrary: w n) (auto simp: succeeded_def split: option.splits prod.splits)

lemma loadReputation_grows:
  assumes "kernel_contract (objs m) view"
  shows "grows (view w) (view (loadReputationDatabase os (Some m) f w))"
proof -
  have "grows (view w) (view (fst (loadItems os m items (w, 0))))" for items
  proof -
    obtain w' n where r: "loadItems os m items (w, 0) = (w', n)" by fastforce
    from count_writes[OF block_writes[OF assms] blacklist_lens, OF r[unfolded loadItems_count]]
    have v: "view w' = vBlacklist_update (\<lambda>_. vBlacklist (view w')) (view w)"
      and c: "vBlacklist (view w') k = vBlacklist (view w) k \<or> vBlacklist (view w') k \<noteq> None" for k by auto
    have "dom (vBlacklist (view w)) \<subseteq> dom (vBlacklist (view w'))" using c by (force simp: dom_def)
    moreover have "vWhitelist (view w') = vWhitelist (view w)" "vIpStats (view w') = vIpStats (view w)"
      "vBackend (view w') = vBackend (view w)" "vConfig (view w') = vConfig (view w)"
      by (subst v; simp)+
    ultimately show ?thesis using r by (simp add: grows_def)
  qed
  then show ?thesis by (simp add: loadReputationDatabase_def split: option.splits)
qed

lemma restore_any_grows:
  assumes kc: "kernel_contract (objs m0) view"
    and run: "restoreRulesState os db f (Some m0, g, w) = (mm, g', w')"
  shows "\<exists>m'. mm = Some m' \<and> objs m' = objs m0 \<and>
    (\<exists>p w1. (w1 = w \<or> w1 = fst (SetGeoIPPolicy m0 p w)) \<and> grows (view w1) (view w'))"
proof (cases "f = [] \<or> ReadFile os f w = None")
  case True
  with run have "mm = Some m0" "w' = w" by (auto simp: restoreRulesState_def split: if_splits)
  then show ?thesis using grows_refl[of "view w"] by blast
next
  case False
  then obtain content where t: "f \<noteq> []" "ReadFile os f w = Some content" by auto
  show ?thesis
  proof (cases "unmarshalState content")
    case None
    with t run have "mm = Some m0" "w' = w" by (simp_all add: restoreRulesState_def)
    then show ?thesis using grows_refl[of "view w"] by blast
  next
    case (Some st)
    from restore_run[OF kc t Some run] show ?thesis by blast
  qed
qed

lemma hexText_props: "length (hexText bs) = 2 * length bs" "\<forall>c \<in> set (hexText bs). hexVal c \<noteq> None"
proof -
  show "length (hexText bs) = 2 * length bs" by (induction bs) (simp_all add: hexText_def)
  have "hexVal (hexDigit (uint b div 16)) \<noteq> None" "hexVal (hexDigit (uint b mod 16)) \<noteq> None" for b :: u8
  proof -
    have "uint b < 256" using uint_lt2p[of b] by simp
    then have "uint b div 16 < 16" "uint b mod 16 < 16" "0 \<le> uint b div 16"
      by (simp_all add: pos_imp_zdiv_nonneg_iff)
    then show "hexVal (hexDigit (uint b div 16)) \<noteq> None" "hexVal (hexDigit (uint b mod 16)) \<noteq> None"
      using hexVal_hexDigit[of "uint b div 16"] hexVal_hexDigit[of "uint b mod 16"] by simp_all
  qed
  then show "\<forall>c \<in> set (hexText bs). hexVal c \<noteq> None" by (auto simp: hexText_def)
qed

subsection \<open>Properties\<close>

text \<open>
  When the configuration file can be read, and the random source works, the process never runs
  with an empty key or an empty address, even if the file is no valid JSON; a generated key has 64
  hexadecimal digits.
\<close>

theorem config_complete:
  assumes "ReadFile os f w = Some text" "RandomBytes os 32 w = Some bs" "length bs = 32"
  shows "Key (fst (LoadConfig os f w)) \<noteq> [] \<and> Listen (fst (LoadConfig os f w)) \<noteq> [] \<and>
    (Key (fst (Unmarshal (decodeStruct decodeConfig) text zeroConfig)) = [] \<longrightarrow>
       length (Key (fst (LoadConfig os f w))) = 64 \<and>
       (\<forall>c \<in> set (Key (fst (LoadConfig os f w))). hexVal c \<noteq> None))"
proof -
  have len: "length (hexText bs) = 64" using hexText_props(1)[of bs] assms(3) by simp
  then have "hexText bs \<noteq> []" by auto
  with len hexText_props(2)[of bs] assms show ?thesis
    by (auto simp: LoadConfig_def Let_def split: prod.splits if_splits)
qed

theorem config_complete_witness:
  "length (Key (fst (LoadConfig refOS ''c.json'' (emptyWorld\<lparr>wFiles := [(''c.json'', ''{}'')]\<rparr>)))) = 64"
proof -
  let ?w = "emptyWorld\<lparr>wFiles := [(''c.json'', ''{}'')]\<rparr>"
  have "ReadFile refOS ''c.json'' ?w = Some ''{}''" "RandomBytes refOS 32 ?w = Some (replicate 32 7)"
    by (simp_all add: refOS_def)
  moreover have "Key (fst (Unmarshal (decodeStruct decodeConfig) ''{}'' zeroConfig)) = []" by code_simp
  ultimately show ?thesis
    using config_complete[of refOS "''c.json''" ?w "''{}''" "replicate 32 7"] by (simp only: length_replicate)
qed

text \<open>
  C40: When the configuration file cannot be read, the key is empty, and every request without a key
  header passes the authentication on every endpoint; the address to listen on is empty as well.
\<close>

theorem missing_config_opens_api:
  assumes "ReadFile os (resolvePath os ''conf/config.json'' w0) w0 = None"
    and "configuredAPIKey (clusterInfo s) = Key (mainConfig os w0)" "APIKeyHeader r = []"
    and "serveAPI env ep r (s, w) = (rep, s', w')" "rep \<noteq> Failed 429"
  shows "(\<exists>l. handlerOf env ep r (s\<lparr>limiter := l\<rparr>, w) = (rep, s', w')) \<and> Listen (mainConfig os w0) = []"
proof -
  have "mainConfig os w0 = zeroConfig\<lparr>AsnDBPath := ''data/geoip/GeoLite2-ASN.mmdb'',
      CountryDBPath := ''data/geoip/GeoLite2-Country.mmdb''\<rparr>"
    using assms(1) by (simp add: mainConfig_def LoadConfig_def)
  with assms(2-5) show ?thesis
    by (auto simp: serveAPI_eq zeroConfig_def Let_def split: if_splits)
qed

definition openServer :: "(string \<times> ref_network list, world) server" where
  "openServer = refServer\<lparr>clusterInfo := refCluster\<lparr>configuredAPIKey := Key (mainConfig refOS emptyWorld)\<rparr>\<rparr>"

theorem missing_config_opens_api_witness:
  "\<exists>l. handlerOf refEnv RulesPolicy (sampleRequest ''POST'' ''action=0''\<lparr>APIKeyHeader := []\<rparr>) (openServer\<lparr>limiter := l\<rparr>, emptyWorld)
     = serveAPI refEnv RulesPolicy (sampleRequest ''POST'' ''action=0''\<lparr>APIKeyHeader := []\<rparr>) (openServer, emptyWorld)"
proof -
  let ?r = "sampleRequest ''POST'' ''action=0''\<lparr>APIKeyHeader := []\<rparr>"
  obtain rep s' w' where run: "serveAPI refEnv RulesPolicy ?r (openServer, emptyWorld) = (rep, s', w')"
    by (metis prod.collapse)
  have "fst (serveAPI refEnv RulesPolicy ?r (openServer, emptyWorld)) \<noteq> Failed 429" by code_simp
  then have n: "rep \<noteq> Failed 429" using run by simp
  have "ReadFile refOS (resolvePath refOS ''conf/config.json'' emptyWorld) emptyWorld = None" by code_simp
  from missing_config_opens_api[OF this _ _ run n] run show ?thesis
    by (simp add: openServer_def)
qed

text \<open>
  C28: Setting the data path up writes the initial rate limits (if the kernel accepts them) and never
  removes a block or a whitelist entry that is in the kernel, whatever the reputation list and the
  state file hold; the manager works on the maps that were loaded.
\<close>

theorem startup_datapath:
  assumes kc: "kernel_contract prog view"
    and limits: "snd (UpdateRateLimits (NewMapManager prog) 5000 (10 * 1024 * 1024) w) = None"
    and run: "startDatapath os db prog (s, w) = (s', w')"
  shows "(\<exists>m. manager s' = Some m \<and> objs m = prog) \<and>
    vConfig (view w') 0 = Some 5000 \<and> vConfig (view w') 1 = Some 10485760 \<and>
    dom (vBlacklist (view w)) \<subseteq> dom (vBlacklist (view w')) \<and>
    dom (vWhitelist (view w)) \<subseteq> dom (vWhitelist (view w'))"
proof -
  let ?m = "NewMapManager prog"
  have km: "kernel_contract (objs ?m) view" using kc by (simp add: NewMapManager_def)
  obtain w1 where w1: "UpdateRateLimits ?m 5000 (10 * 1024 * 1024) w = (w1, None)"
    using limits by (metis prod.collapse)
  have v1: "view w1 = vConfig_update (\<lambda>_. (vConfig (view w))(0 \<mapsto> 5000, 1 \<mapsto> 10485760)) (view w)"
    using rate_limits_run[OF km, where pps = 5000 and bps = "10 * 1024 * 1024" and w = w] w1 by simp
  let ?w2 = "loadReputationDatabase os (Some ?m) (resolvePath os ''conf/reputation.json'' w1) w1"
  have g2: "grows (view w1) (view ?w2)" by (rule loadReputation_grows[OF km])
  obtain mm g w3 where r: "restoreRulesState os db (initPersistence os ?w2) (Some ?m, geo s, ?w2) = (mm, g, w3)"
    by (metis prod.collapse)
  from restore_any_grows[OF km r] obtain m p u where m: "mm = Some m" "objs m = prog"
    and u: "u = ?w2 \<or> u = fst (SetGeoIPPolicy ?m p ?w2)" "grows (view u) (view w3)"
    by (auto simp: NewMapManager_def)
  have s': "manager s' = Some m" "w' = w3" using run w1 r m by (auto simp: startDatapath_def Let_def)
  obtain u1 e where sp: "SetGeoIPPolicy ?m p ?w2 = (u1, e)" by fastforce
  have gu: "grows (view ?w2) (view u\<lparr>vConfig := vConfig (view ?w2)\<rparr>)"
    using u(1) set_policy_run(1)[OF km sp] sp by auto
  have "vConfig (view u) 0 = vConfig (view ?w2) 0 \<and> vConfig (view u) 1 = vConfig (view ?w2) 1"
    using u(1) config_put[OF km, of 2 p ?w2] by (auto simp: SetGeoIPPolicy_def split: prod.splits)
  with v1 g2 u(2) have "vConfig (view w3) 0 = Some 5000 \<and> vConfig (view w3) 1 = Some 10485760"
    by (simp add: grows_def)
  moreover have "dom (vBlacklist (view w)) \<subseteq> dom (vBlacklist (view w3))"
      "dom (vWhitelist (view w)) \<subseteq> dom (vWhitelist (view w3))"
    using v1 g2 gu u(2) by (simp_all add: grows_def) (meson subset_trans)+
  ultimately show ?thesis using s' m(2) by simp
qed

theorem startup_datapath_witness:
  "vConfig (refView (snd (startDatapath refOS refDB refObjs (refServer, emptyWorld)))) 0 = Some 5000"
proof -
  obtain s' w' where run: "startDatapath refOS refDB refObjs (refServer, emptyWorld) = (s', w')" by fastforce
  have "snd (UpdateRateLimits (NewMapManager refObjs) 5000 (10 * 1024 * 1024) emptyWorld) = None" by code_simp
  from startup_datapath[OF refObjs_contract this run] run show ?thesis by simp
qed

end
