(* ===== verification/System.thy ===== *)
theory System
  imports AutoMitigation Startup
begin

text \<open>
  The control plane as a whole: the API and the mitigation engine share the map manager, the GeoIP
  manager and the kernel.  A step is one tick of the engine, one request, or a change of the world
  by anything else; the invariants hold in every state such steps can reach from the start.
\<close>

record ('r, 'w) system =
  api :: "('r, 'w) server"
  eng :: "'w engine"

definition eventRequests :: "'w goos \<Rightarrow> cluster \<Rightarrow> 'w \<Rightarrow> sync_event \<Rightarrow> out_request list" where
  "eventRequests os cl w ev =
     (case ev of SyncIP endpoint meth ip \<Rightarrow> syncIPEvent os cl endpoint meth ip w)"

definition systemTick :: "'w goos \<Rightarrow> string \<Rightarrow> ('r, 'w) system \<times> 'w \<Rightarrow> ('r, 'w) system \<times> 'w" where
  "systemTick os iface = (\<lambda>(sys, w).
     let s = api sys in
     case engineTick os iface (stateFile s) ((eng sys)\<lparr>mapMgr := manager s, outbox := []\<rparr>, w) of
       (e, w') \<Rightarrow>
         (\<lparr>api = s\<lparr>manager := mapMgr e,
                   sent := sent s @ concat (map (eventRequests os (clusterInfo s) w') (outbox e))\<rparr>,
           eng = e\<rparr>, w'))"

definition systemRequest ::
  "('r, 'i, 'w) api_env \<Rightarrow> endpoint \<Rightarrow> request \<Rightarrow> ('r, 'w) system \<times> 'w \<Rightarrow> reply \<times> ('r, 'w) system \<times> 'w" where
  "systemRequest env ep r = (\<lambda>(sys, w).
     case serveAPI env ep r (api sys, w) of (rep, s, w') \<Rightarrow> (rep, sys\<lparr>api := s\<rparr>, w'))"

text \<open>
  The start, by the outcome \<open>load\<close> of loading the XDP program.  When that failed the process goes on in
  degraded mode: no manager, no engine (a tick of an engine without a manager does nothing), and the
  API answers.
\<close>

definition startSystem ::
  "('r, 'i, 'w) api_env \<Rightarrow> 'w bpfObjects option \<Rightarrow> string \<Rightarrow> ('r, 'w) server \<times> 'w \<Rightarrow> ('r, 'w) system \<times> 'w" where
  "startSystem env load iface = (\<lambda>(s, w).
     case load of
       None \<Rightarrow> (\<lparr>api = s\<lparr>manager := None\<rparr>, eng = startEngine (system_os env) iface None w\<rparr>, w)
     | Some prog \<Rightarrow>
         (case startDatapath (system_os env) (geo_db env) prog (s, w) of
            (s', w') \<Rightarrow> (\<lparr>api = s', eng = startEngine (system_os env) iface (manager s') w'\<rparr>, w')))"

lemma degraded_tick:
  "manager (api sys) = None \<Longrightarrow> systemTick os iface (sys, w) = (sys', w') \<Longrightarrow> api sys' = api sys \<and> w' = w"
  by (auto simp: systemTick_def engineTick_def Let_def)

inductive system_reachable ::
  "('r, 'i, 'w) api_env \<Rightarrow> 'w bpfObjects option \<Rightarrow> string \<Rightarrow> string \<Rightarrow> string \<Rightarrow> ('r, 'w) system \<Rightarrow> 'w \<Rightarrow> bool"
  for env :: "('r, 'i, 'w) api_env" and load :: "'w bpfObjects option" and iface asn_path country_path :: string where
  start: "InitGeoIPManager (system_os env) (geo_db env) asn_path country_path w = (g, w1) \<Longrightarrow>
    geo s = Some g \<Longrightarrow> startSystem env load iface (s, w1) = (sys, w2) \<Longrightarrow>
    system_reachable env load iface asn_path country_path sys w2"
| world: "system_reachable env load iface asn_path country_path sys w \<Longrightarrow>
    system_reachable env load iface asn_path country_path sys w'"
| tick: "system_reachable env load iface asn_path country_path sys w \<Longrightarrow>
    systemTick (system_os env) iface (sys, w) = (sys', w') \<Longrightarrow>
    system_reachable env load iface asn_path country_path sys' w'"
| request: "system_reachable env load iface asn_path country_path sys w \<Longrightarrow>
    systemRequest env ep r (sys, w) = (rep, sys', w') \<Longrightarrow>
    system_reachable env load iface asn_path country_path sys' w'"

subsection \<open>What the handlers keep of the managers\<close>

lemma geo_ok_resolve: "geo_ok db g \<Longrightarrow> geo_ok db (fst (resolveCountry db code g))"
proof -
  assume ok: "geo_ok db g"
  have a: "geo_ok db (fst (countryFast code g))" by (rule geo_ok_sections(1)[OF ok])
  then have b: "geo_ok db (fst (countrySlow db code (fst (countryFast code g))))" by (rule geo_ok_sections(2))
  have "geo_ok db (fst (GetCountryCIDRs db code g))"
    using a b by (cases "countryFast code g") (simp add: GetCountryCIDRs_def split: option.split)
  then show ?thesis
    by (cases "GetCountryCIDRs db code g") (auto simp: resolveCountry_def split: option.splits sum.splits)
qed

definition geo_part_ok :: "('r, 'i, 'w) maxmind \<Rightarrow> 'r GeoIPManager option \<Rightarrow> bool" where
  "geo_part_ok db g \<longleftrightarrow> (\<forall>x. g = Some x \<longrightarrow> geo_ok db x)"

lemma targetCIDRs_geo: "geo_part_ok db g \<Longrightarrow> geo_part_ok db (fst (targetCIDRs db t g))"
  using geo_ok_resolve[of db "the g" "ToUpper t"]
  by (cases "resolveCountry db (ToUpper t) (the g)")
     (auto simp: targetCIDRs_def geo_part_ok_def split: option.splits)

definition managers_ok :: "('r, 'i, 'w) maxmind \<Rightarrow> 'w bpfObjects option \<Rightarrow> ('r, 'w) server \<Rightarrow> bool" where
  "managers_ok db load s \<longleftrightarrow> map_option objs (manager s) = load \<and> geo_part_ok db (geo s)"

lemma write_managers:
  "blacklistPost os m t cs r (s, w) = (rep, s', w') \<Longrightarrow> geo s' = geo s \<and> (\<exists>m'. manager s' = Some m' \<and> objs m' = objs m)"
  "blacklistDelete os m t cs r (s, w) = (rep, s', w') \<Longrightarrow> geo s' = geo s \<and> (\<exists>m'. manager s' = Some m' \<and> objs m' = objs m)"
  "whitelistPost os m t cs r (s, w) = (rep, s', w') \<Longrightarrow> geo s' = geo s \<and> (\<exists>m'. manager s' = Some m' \<and> objs m' = objs m)"
  "whitelistDelete os m t cs r (s, w) = (rep, s', w') \<Longrightarrow> geo s' = geo s \<and> (\<exists>m'. manager s' = Some m' \<and> objs m' = objs m)"
  by (auto simp: blacklistPost_def blacklistDelete_def whitelistPost_def whitelistDelete_def Let_def
      AddBlacklistTarget_def RemoveBlacklistTarget_def AddWhitelistTarget_def RemoveWhitelistTarget_def
      split: prod.splits)

lemma handler_managers:
  assumes inv: "managers_ok (geo_db env) load s" and run: "handlerOf env ep r (s, w) = (rep, s', w')"
  shows "managers_ok (geo_db env) load s'"
proof (cases "manager s")
  case None
  have g: "geo_part_ok (geo_db env) (geo s)" and l: "load = None" using inv None by (auto simp: managers_ok_def)
  have "geo_ok (geo_db env) (fst (Reload (system_os env) (geo_db env) (x, w)))" if "geo s = Some x" for x
    using g that by (intro geo_ok_Reload geo_ok_loaded[where db = "geo_db env"]) (simp add: geo_part_ok_def)
  with run None g l show ?thesis
    by (cases ep) (auto simp: handleBlacklist_def handleWhitelist_def handleRouting_def handleRulesPolicy_def
        handleGeoIPReload_def handleStats_def handleGeoIPHealth_def handleLogs_def managers_ok_def geo_part_ok_def
        Let_def split: if_splits prod.splits option.splits sum.splits)
next
  case m: (Some m)
  have g: "geo_part_ok (geo_db env) (geo s)" and l: "load = Some (objs m)" using inv m by (auto simp: managers_ok_def)
  obtain g' res where t: "targetCIDRs (geo_db env) (targetParam r) (geo s) = (g', res)" by fastforce
  have g': "geo_part_ok (geo_db env) g'" using targetCIDRs_geo[OF g, of "targetParam r"] t by simp
  show ?thesis
  proof (cases ep)
    case Blacklist
    with run m l g g' t show ?thesis
      by (auto simp: handleBlacklist_def managers_ok_def Let_def dest!: write_managers
          split: if_splits sum.splits)
  next
    case Whitelist
    with run m l g g' t show ?thesis
      by (auto simp: handleWhitelist_def managers_ok_def Let_def dest!: write_managers
          split: if_splits sum.splits)
  next
    case Routing
    with run m l g show ?thesis
      by (auto simp: handleRouting_def managers_ok_def Let_def split: if_splits prod.splits option.splits)
  next
    case RulesPolicy
    with run m l g show ?thesis
      by (auto simp: handleRulesPolicy_def managers_ok_def Let_def split: if_splits prod.splits option.splits)
  next
    case GeoIPReload
    have "geo_ok (geo_db env) (fst (Reload (system_os env) (geo_db env) (x, w)))" if "geo s = Some x" for x
      using g that by (intro geo_ok_Reload geo_ok_loaded[where db = "geo_db env"]) (simp add: geo_part_ok_def)
    with GeoIPReload run m l g show ?thesis
      by (auto simp: handleGeoIPReload_def managers_ok_def geo_part_ok_def split: if_splits prod.splits option.splits)
  qed (use run m l g in \<open>auto simp: handleStats_def handleGeoIPHealth_def handleLogs_def managers_ok_def Let_def
      split: if_splits prod.splits option.splits sum.splits\<close>)
qed

lemma serveAPI_managers:
  assumes "managers_ok (geo_db env) load s" "serveAPI env ep r (s, w) = (rep, s', w')"
  shows "managers_ok (geo_db env) load s'"
proof -
  have "managers_ok (geo_db env) load (s\<lparr>limiter := l\<rparr>)" for l using assms(1) by (simp add: managers_ok_def)
  with assms(2) handler_managers show ?thesis by (fastforce simp: serveAPI_eq Let_def split: if_splits)
qed

subsection \<open>What a tick keeps of the manager\<close>

lemma forgetTarget_objs: "objs (fst (forgetTarget ip mw)) = objs (fst mw)"
  by (simp add: forgetTarget_def bt.objs_rem Let_def)

lemma reportExpired_objs: "objs (fst (reportExpired os ips (m, out, w))) = objs m"
proof (induction ips arbitrary: m out w)
  case (Cons ip ips)
  let ?w1 = "writeMitigationLog os ''auto_unblock'' ip ''Blacklist TTL expired'' 0 w"
  obtain m2 w2 where f: "forgetTarget ip (m, ?w1) = (m2, w2)" by fastforce
  with forgetTarget_objs[of ip "(m, ?w1)"] have "objs m2 = objs m" by simp
  with Cons f show ?case by (simp add: Let_def)
qed simp

lemma expirePart_objs:
  assumes "mapMgr s = Some m"
  shows "\<exists>m'. mapMgr (fst (expirePart os sf m (s, w))) = Some m' \<and> objs m' = objs m"
proof -
  let ?ttl = "effectiveTTL (currentLevel (machine s)) (GetBlacklistCount m w)"
  obtain cs e w1 where c: "CleanExpiredBlacklist os m ?ttl w = ((cs, e), w1)" by (metis prod.collapse)
  obtain m2 out2 w2 where r: "reportExpired os cs (m, outbox s, w1) = (m2, out2, w2)" by (metis prod.collapse)
  have "objs m2 = objs m" using reportExpired_objs[of os cs m "outbox s" w1] r by simp
  with assms c r show ?thesis by (auto simp: expirePart_def Let_def split: option.splits)
qed

lemma engineTick_objs:
  assumes "mapMgr s = Some m"
  shows "\<exists>m'. mapMgr (fst (engineTick os iface sf (s, w))) = Some m' \<and> objs m' = objs m"
proof (cases "warmupCycles s > 0")
  case True
  with assms show ?thesis by (simp add: engineTick_def)
next
  case False
  obtain x s1 where sn: "sense os iface m w s = (x, s1)" by fastforce
  let ?l = "currentLevel (fsmStep x (machine s1))"
  let ?w1 = "fst (UpdateRateLimits m (ppsThreshold ?l) (bpsThreshold ?l) w)"
  obtain ips e w2 where sc: "ScanAndMitigate os m (ppsThreshold ?l) (bpsThreshold ?l)
      (scanBudget ?l (cpuPercent x)) ?w1 = ((ips, e), w2)" by (metis prod.collapse)
  obtain out w3 where r: "reportBlocked os (ppsThreshold ?l) ips (outbox s1, w2) = (out, w3)" by fastforce
  have mgr: "mapMgr s1 = Some m" using sense_simps[OF sn] assms by simp
  have tick: "engineTick os iface sf (s, w) =
      (case e of Some _ \<Rightarrow> (transition x s1, w2)
       | None \<Rightarrow> expirePart os sf m (transition x s1\<lparr>outbox := out\<rparr>, w3))"
    using False assms sn sc r by (simp add: engineTick_def actPart_def blockPart_def Let_def split: option.splits)
  show ?thesis
    using tick mgr expirePart_objs[of "transition x s1\<lparr>outbox := out\<rparr>" m os sf w3] by (cases e) simp_all
qed

subsection \<open>The invariant\<close>

definition system_ok :: "('r, 'i, 'w) maxmind \<Rightarrow> 'w bpfObjects option \<Rightarrow> ('r, 'w) system \<Rightarrow> bool" where
  "system_ok db load sys \<longleftrightarrow> managers_ok db load (api sys) \<and> fsm_inv (machine (eng sys))"

lemma restoreTargets_geo:
  "geo_part_ok db g \<Longrightarrow> restoreTargets os db wl ts (m, g, w) = (m', g', w') \<Longrightarrow>
   geo_part_ok db g' \<and> objs m' = objs m"
proof (induction ts arbitrary: m g w)
  case (Cons t ts)
  obtain m1 w1 where a: "(if wl then AddWhitelistTarget t (m, w) else AddBlacklistTarget t (m, w)) = (m1, w1)"
    by fastforce
  obtain g1 w2 where p: "applyTargetToMap os db m1 wl t (g, w1) = (g1, w2)" by fastforce
  have "geo_part_ok db g1"
    using p Cons.prems(1) geo_ok_resolve[of db "the g" "ToUpper t"]
    by (cases "resolveCountry db (ToUpper t) (the g)")
       (auto simp: applyTargetToMap_def geo_part_ok_def split: option.splits if_splits)
  moreover have "objs m1 = objs m"
    using a by (auto simp: AddWhitelistTarget_def AddBlacklistTarget_def split: if_splits)
  moreover have "restoreTargets os db wl ts (m1, g1, w2) = (m', g', w')" using Cons.prems(2) a p by simp
  ultimately show ?case using Cons.IH by metis
qed simp

lemma restore_managers:
  assumes "geo_part_ok db g" "restoreRulesState os db f (Some m, g, w) = (mm, g', w')"
  shows "geo_part_ok db g' \<and> (\<exists>m'. mm = Some m' \<and> objs m' = objs m)"
proof -
  have "geo_part_ok db g' \<and> (\<exists>m'. mm = Some m' \<and> objs m' = objs m)"
    if "restoreTargets os db True ws (restoreTargets os db False bs (m, g, w1)) = (m', g', w')" "mm = Some m'"
    for ws bs w1 m'
  proof -
    obtain m1 g1 w2 where b: "restoreTargets os db False bs (m, g, w1) = (m1, g1, w2)" by (metis prod.collapse)
    from restoreTargets_geo[OF assms(1) b] restoreTargets_geo[of db g1 os True ws m1 w2 m' g' w'] that b
    show ?thesis by simp
  qed
  with assms show ?thesis
    by (auto simp: restoreRulesState_def split: if_splits option.splits prod.splits)
qed

lemma startDatapath_managers:
  assumes "geo_part_ok db (geo s)" "startDatapath os db prog (s, w) = (s', w')"
  shows "managers_ok db (Some prog) s'"
proof -
  let ?m = "NewMapManager prog"
  let ?w1 = "fst (UpdateRateLimits ?m 5000 (10 * 1024 * 1024) w)"
  let ?w2 = "loadReputationDatabase os (Some ?m) (resolvePath os ''conf/reputation.json'' ?w1) ?w1"
  obtain mm g w3 where r: "restoreRulesState os db (initPersistence os ?w2) (Some ?m, geo s, ?w2) = (mm, g, w3)"
    by (metis prod.collapse)
  from restore_managers[OF assms(1) r] assms(2) r show ?thesis
    by (auto simp: startDatapath_def managers_ok_def NewMapManager_def Let_def)
qed

lemma systemTick_ok:
  assumes ok: "system_ok db load sys" and tick: "systemTick os iface (sys, w) = (sys', w')"
  shows "system_ok db load sys'"
proof -
  let ?s = "api sys" and ?e = "(eng sys)\<lparr>mapMgr := manager (api sys), outbox := []\<rparr>"
  have f: "fsm_inv (machine (eng sys))" and l: "map_option objs (manager ?s) = load" and g: "geo_part_ok db (geo ?s)"
    using ok by (auto simp: system_ok_def managers_ok_def)
  have fsm: "fsm_inv (machine (eng sys'))"
    using engineTick_inv[of ?e os iface "stateFile ?s" w] f tick by (auto simp: systemTick_def Let_def split: prod.splits)
  show ?thesis
  proof (cases "manager ?s")
    case None
    with degraded_tick[OF None tick] fsm l g show ?thesis by (simp add: system_ok_def managers_ok_def)
  next
    case (Some m)
    then have "mapMgr ?e = Some m" by simp
    from engineTick_objs[OF this, of os iface "stateFile ?s" w] fsm g l Some tick
    show ?thesis by (auto simp: systemTick_def system_ok_def managers_ok_def Let_def split: prod.splits)
  qed
qed

lemma system_reachable_ok:
  "system_reachable env load iface ap cp sys w \<Longrightarrow> system_ok (geo_db env) load sys"
proof (induction rule: system_reachable.induct)
  case (start w g w1 s sys w2)
  have "geo_ok (geo_db env) g"
    using geo_reachable_ok[OF geo_reachable.init[OF start(1)]] .
  with start(2) have g: "geo_part_ok (geo_db env) (geo s)" by (simp add: geo_part_ok_def)
  show ?case
  proof (cases load)
    case None
    with start(3) g show ?thesis
      by (auto simp: startSystem_def system_ok_def managers_ok_def startEngine_def fsm_inv_init)
  next
    case (Some prog)
    obtain s' w' where d: "startDatapath (system_os env) (geo_db env) prog (s, w1) = (s', w')" by fastforce
    from startDatapath_managers[OF g d] start(3) d Some show ?thesis
      by (auto simp: startSystem_def system_ok_def startEngine_def fsm_inv_init)
  qed
next
  case (tick sys w sys' w')
  show ?case by (rule systemTick_ok[OF tick(3,2)])
next
  case (request sys w ep r rep sys' w')
  obtain s' where "serveAPI env ep r (api sys, w) = (rep, s', w')" "sys' = sys\<lparr>api := s'\<rparr>"
    using request(2) by (auto simp: systemRequest_def split: prod.splits)
  with request(3) serveAPI_managers show ?case by (auto simp: system_ok_def)
qed

subsection \<open>Which request changes what\<close>

definition only_touches :: "endpoint \<Rightarrow> kernel_view \<Rightarrow> kernel_view \<Rightarrow> bool" where
  "only_touches ep v v' \<longleftrightarrow>
     (ep \<noteq> Blacklist \<longrightarrow> vBlacklist v' = vBlacklist v) \<and> (ep \<noteq> Whitelist \<longrightarrow> vWhitelist v' = vWhitelist v) \<and>
     (ep \<noteq> Routing \<longrightarrow> vBackend v' = vBackend v) \<and> vIpStats v' = vIpStats v \<and>
     (\<forall>k. k \<noteq> 2 \<or> ep \<noteq> Whitelist \<and> ep \<noteq> RulesPolicy \<longrightarrow> vConfig v' k = vConfig v k)"

lemma only_touches_refl [simp]: "only_touches ep v v"
  by (simp add: only_touches_def)

definition db_frame :: "('r, 'i, 'w) maxmind \<Rightarrow> ('w \<Rightarrow> kernel_view) \<Rightarrow> bool" where
  "db_frame db view \<longleftrightarrow> (\<forall>r w. view (CloseDB db r w) = view w)"

lemma Reload_view:
  assumes "db_frame db view"
  shows "view (snd (Reload os db (g, w))) = view w"
proof -
  have a: "view (snd (loadASN os db p (g, w))) = view w" for g p w
    using assms by (auto simp: loadASN_def db_frame_def closeOld_def Let_def split: option.splits)
  have c: "view (snd (loadCountry os db p (g, w))) = view w" for g p w
    using assms by (auto simp: loadCountry_def db_frame_def closeOld_def Let_def split: option.splits)
  show ?thesis
    unfolding Reload_def Let_def prod.case
    using a c by (metis prod.collapse)
qed

lemma set_policy_touches:
  assumes "kernel_contract (objs m) view" "SetGeoIPPolicy m p w = (w', e)"
  shows "only_touches RulesPolicy (view w) (view w')" "only_touches Whitelist (view w) (view w')"
proof -
  obtain w1 ok where put: "Put (ConfigMap (objs m)) 2 p w = (w1, ok)" by fastforce
  from config_put[OF assms(1) put] assms(2) put
  show "only_touches RulesPolicy (view w) (view w')" "only_touches Whitelist (view w) (view w')"
    by (auto simp: SetGeoIPPolicy_def only_touches_def split: if_splits)
qed

lemma blacklist_touches: "v' = vBlacklist_update (\<lambda>_. vBlacklist v') v \<Longrightarrow> only_touches Blacklist v v'"
  by (cases v; cases v') (simp add: only_touches_def)

lemma whitelist_touches: "v' = vWhitelist_update (\<lambda>_. vWhitelist v') v \<Longrightarrow> only_touches Whitelist v v'"
  by (cases v; cases v') (simp add: only_touches_def)

lemma backend_touches: "v' = vBackend_update (\<lambda>_. vBackend v') v \<Longrightarrow> only_touches Routing v v'"
  by (cases v; cases v') (simp add: only_touches_def)

lemma touches_trans: "only_touches ep u v \<Longrightarrow> only_touches ep v w \<Longrightarrow> only_touches ep u w"
  by (simp add: only_touches_def)

definition routes_frame :: "('r, 'i, 'w) api_env \<Rightarrow> ('w \<Rightarrow> kernel_view) \<Rightarrow> 'w MapManager \<Rightarrow> bool" where
  "routes_frame env view m \<longleftrightarrow>
     (\<forall>vip vport p b t w.
        (let v' = view (fst (add_route env m vip vport p b t w)) in v' = vBackend_update (\<lambda>_. vBackend v') (view w)) \<and>
        (let v' = view (fst (remove_route env m vip vport p b t w)) in v' = vBackend_update (\<lambda>_. vBackend v') (view w)))"

lemma write_touches:
  assumes kc: "kernel_contract (objs m) view" and kd: "kernel_deletes (objs m) view"
    and fr: "os_frame os view" and mo: "map_order_contract os"
  shows "only_touches Blacklist (view w) (view (snd (snd (blacklistPost os m t cs r (s, w)))))"
    "only_touches Blacklist (view w) (view (snd (snd (blacklistDelete os m t cs r (s, w)))))"
    "only_touches Whitelist (view w) (view (snd (snd (whitelistPost os m t cs r (s, w)))))"
    "only_touches Whitelist (view w) (view (snd (snd (whitelistDelete os m t cs r (s, w)))))"
proof -
  show "only_touches Blacklist (view w) (view (snd (snd (blacklistPost os m t cs r (s, w)))))"
    using blacklistPost_run[OF kc fr] blacklist_touches by (metis prod.collapse)
  show "only_touches Blacklist (view w) (view (snd (snd (blacklistDelete os m t cs r (s, w)))))"
    using blacklistDelete_run[OF kc kd fr] blacklist_touches by (metis prod.collapse)
  show "only_touches Whitelist (view w) (view (snd (snd (whitelistPost os m t cs r (s, w)))))"
    using whitelistPost_run[OF kc fr] whitelist_touches by (metis prod.collapse)
  obtain rep s' w' where run: "whitelistDelete os m t cs r (s, w) = (rep, s', w')" by (metis prod.collapse)
  from whitelistDelete_run[OF kc kd fr mo run] obtain w2 where
    w2: "view w2 = vWhitelist_update (\<lambda>_. vWhitelist (view w2)) (view w)" and
    w': "view w' = view (fst (SetGeoIPPolicy m 0 w2)) \<or> view w' = view w2" by metis
  obtain w3 e where sp: "SetGeoIPPolicy m 0 w2 = (w3, e)" by fastforce
  from touches_trans[OF whitelist_touches[OF w2] set_policy_touches(2)[OF kc sp]] whitelist_touches[OF w2] w' sp
  have "only_touches Whitelist (view w) (view w')" by auto
  with run show "only_touches Whitelist (view w) (view (snd (snd (whitelistDelete os m t cs r (s, w)))))" by simp
qed

lemma handler_touches:
  assumes kc: "kernel_contract (objs m) view" and kd: "kernel_deletes (objs m) view"
    and fr: "os_frame (system_os env) view" and mo: "map_order_contract (system_os env)"
    and df: "db_frame (geo_db env) view" and rf: "routes_frame env view m"
    and m: "manager s = Some m"
  shows "only_touches ep (view w) (view (snd (snd (handlerOf env ep r (s, w)))))"
proof -
  obtain g res where t: "targetCIDRs (geo_db env) (targetParam r) (geo s) = (g, res)" by fastforce
  note wt = write_touches[OF kc kd fr mo]
  show ?thesis
  proof (cases ep)
    case Blacklist
    with m t wt(1,2) show ?thesis by (auto simp: handleBlacklist_def Let_def split: sum.split)
  next
    case Whitelist
    with m t wt(3,4) show ?thesis by (auto simp: handleWhitelist_def Let_def split: sum.split)
  next
    case Routing
    let ?a = "add_route env m (param r ''vip'') (vportParam r) (protocolParam r (vportParam r)) (param r ''backend'') (param r ''type'') w"
    let ?d = "remove_route env m (param r ''vip'') (vportParam r) (protocolParam r (vportParam r)) (param r ''backend'') (param r ''type'') w"
    have "only_touches Routing (view w) (view (fst ?a))" "only_touches Routing (view w) (view (fst ?d))"
      using rf unfolding routes_frame_def Let_def by (blast intro: backend_touches)+
    with Routing m show ?thesis
      by (cases ?a; cases ?d) (auto simp: handleRouting_def Let_def split: option.split prod.split)
  next
    case RulesPolicy
    have "only_touches RulesPolicy (view w) (view (fst (SetGeoIPPolicy m p w)))" for p
      using set_policy_touches(1)[OF kc] by (metis prod.collapse)
    with RulesPolicy m show ?thesis
      by (auto simp: handleRulesPolicy_def Let_def saveRulesState_view[OF fr] writeMitigationLog_view[OF fr]
          split: option.split prod.split) (metis fst_conv)+
  next
    case GeoIPReload
    with Reload_view[OF df] show ?thesis
      by (auto simp: handleGeoIPReload_def split: option.split prod.split) (metis only_touches_refl snd_conv)
  qed (auto simp: handleStats_def handleGeoIPHealth_def handleLogs_def m Let_def
      split: option.split sum.split prod.split)
qed

subsection \<open>Properties\<close>

text \<open>
  C12: In every state the running program can reach, whatever requests come in, however the engine ticks
  and whatever else happens in the world: if loading the XDP program succeeded at the start, the
  manager is there and still holds the maps of that program (no operation swaps a map), and if it
  failed the process stays in degraded mode without a manager; the cycles of the mitigation state
  machine are within their bounds, and the GeoIP caches hold only what a scan of the opened databases
  gives.
\<close>

theorem system_invariant:
  assumes "system_reachable env load iface asn_path country_path sys w"
  shows "map_option objs (manager (api sys)) = load \<and> fsm_inv (machine (eng sys)) \<and>
    (\<forall>g. geo (api sys) = Some g \<longrightarrow> geo_ok (geo_db env) g)"
  using system_reachable_ok[OF assms] by (simp add: system_ok_def managers_ok_def geo_part_ok_def)

text \<open>The server after a start, one tick and one request.\<close>

definition sampleStart :: "world bpfObjects option \<Rightarrow> (string \<times> ref_network list, world) system \<times> world" where
  "sampleStart load =
     (case InitGeoIPManager refOS refDB ''asn.mmdb'' ''country.mmdb'' geoWorld of
        (g, w) \<Rightarrow> startSystem refEnv load ''eth0'' (refServer\<lparr>manager := None, geo := Some g\<rparr>, w))"

definition sampleRun :: "world bpfObjects option \<Rightarrow> reply \<times> (string \<times> ref_network list, world) system \<times> world" where
  "sampleRun load =
     systemRequest refEnv Blacklist (sampleRequest ''POST'' ''target=VN'') (systemTick refOS ''eth0'' (sampleStart load))"

lemma sampleRun_reachable:
  "system_reachable refEnv load ''eth0'' ''asn.mmdb'' ''country.mmdb'' (fst (snd (sampleRun load))) (snd (snd (sampleRun load)))"
proof -
  have os: "system_os refEnv = refOS" "geo_db refEnv = refDB" by (simp_all add: refEnv_def)
  obtain g w1 where g: "InitGeoIPManager refOS refDB ''asn.mmdb'' ''country.mmdb'' geoWorld = (g, w1)" by fastforce
  obtain sys2 w2 where s: "sampleStart load = (sys2, w2)" by fastforce
  have init: "InitGeoIPManager (system_os refEnv) (geo_db refEnv) ''asn.mmdb'' ''country.mmdb'' geoWorld = (g, w1)"
    using g os by simp
  have "startSystem refEnv load ''eth0'' (refServer\<lparr>manager := None, geo := Some g\<rparr>, w1) = (sys2, w2)"
    using g s by (simp add: sampleStart_def)
  from system_reachable.start[OF init _ this]
  have "system_reachable refEnv load ''eth0'' ''asn.mmdb'' ''country.mmdb'' sys2 w2" by simp
  then have "system_reachable refEnv load ''eth0'' ''asn.mmdb'' ''country.mmdb''
      (fst (systemTick refOS ''eth0'' (sys2, w2))) (snd (systemTick refOS ''eth0'' (sys2, w2)))"
    by (rule system_reachable.tick) (simp add: os)
  then show ?thesis
    by (rule system_reachable.request[where ep = Blacklist and r = "sampleRequest ''POST'' ''target=VN''"
          and rep = "fst (sampleRun load)"]) (simp add: sampleRun_def s)
qed

theorem system_invariant_witness:
  "(\<exists>m. manager (api (fst (snd (sampleRun (Some refObjs))))) = Some m \<and> objs m = refObjs) \<and>
   manager (api (fst (snd (sampleRun None)))) = None"
  using system_invariant[OF sampleRun_reachable[of "Some refObjs"]] system_invariant[OF sampleRun_reachable[of None]]
  by auto

text \<open>
  C11: A request changes at most the map its endpoint is for, whatever it holds and whoever sends it: the
  blacklist only through the blacklist endpoint, the whitelist only through the whitelist endpoint,
  the routes only through the routing endpoint, of the configuration only the policy and only
  through the whitelist and policy endpoints, and the statistics not at all.
\<close>

theorem request_changes_only_its_map:
  assumes "kernel_contract (objs m) view" "kernel_deletes (objs m) view"
    and "os_frame (system_os env) view" "map_order_contract (system_os env)"
    and "db_frame (geo_db env) view" "routes_frame env view m" "manager s = Some m"
    and "serveAPI env ep r (s, w) = (rep, s', w')"
  shows "(vBlacklist (view w') \<noteq> vBlacklist (view w) \<longrightarrow> ep = Blacklist) \<and>
    (vWhitelist (view w') \<noteq> vWhitelist (view w) \<longrightarrow> ep = Whitelist) \<and>
    (vBackend (view w') \<noteq> vBackend (view w) \<longrightarrow> ep = Routing) \<and>
    (\<forall>k. vConfig (view w') k \<noteq> vConfig (view w) k \<longrightarrow> k = 2 \<and> ep \<in> {Whitelist, RulesPolicy}) \<and>
    vIpStats (view w') = vIpStats (view w)"
proof -
  have m: "manager (s\<lparr>limiter := l\<rparr>) = Some m" for l using assms(7) by simp
  have "only_touches ep (view w) (view (snd (snd (handlerOf env ep r (s\<lparr>limiter := l\<rparr>, w)))))" for l
    by (rule handler_touches[OF assms(1-6) m])
  with assms(8) have "only_touches ep (view w) (view w')"
    by (auto simp: serveAPI_eq Let_def split: if_splits) (metis snd_conv)
  then show ?thesis by (auto simp: only_touches_def)
qed

lemma refEnv_routes: "routes_frame refEnv refView refManager"
proof -
  have add: "let v' = refView (fst (AddBackendVIP refOS refManager vip vport p b t [] [] w)) in
      v' = vBackend_update (\<lambda>_. vBackend v') (refView w)" for vip vport p b t w
  proof -
    obtain w' e where run: "AddBackendVIP refOS refManager vip vport p b t [] [] w = (w', e)" by fastforce
    from add_backend_run[where view = refView, OF _ refOS_frame run] refObjs_contract run show ?thesis
      by (auto split: option.splits)
  qed
  have remove: "let v' = refView (fst (RemoveBackendVIP refOS refManager vip vport p b t [] w)) in
      v' = vBackend_update (\<lambda>_. vBackend v') (refView w)" for vip vport p b t w
    using remove_backend_run[where m = refManager and view = refView and os = refOS and vip = vip and vport = vport
        and protocol = p and backend = b and tunnelType = t and pubkey = "[]" and w = w]
      refObjs_contract refObjs_deletes refOS_frame
    by (auto simp: forgetVip_def split: prod.splits option.splits if_splits)
  show ?thesis using add remove by (simp add: routes_frame_def refEnv_def)
qed

theorem request_changes_only_its_map_witness:
  "vWhitelist (refView (snd (snd (serveAPI refEnv Blacklist (sampleRequest ''POST'' ''target=10.0.0.0/8'')
     (refServer, emptyWorld))))) = vWhitelist (refView emptyWorld)"
proof -
  let ?r = "sampleRequest ''POST'' ''target=10.0.0.0/8''"
  obtain rep s' w' where run: "serveAPI refEnv Blacklist ?r (refServer, emptyWorld) = (rep, s', w')"
    by (metis prod.collapse)
  have env: "os_frame (system_os refEnv) refView" "map_order_contract (system_os refEnv)"
    "db_frame (geo_db refEnv) refView" "manager refServer = Some refManager"
    using refOS_frame refOS_order by (simp_all add: refEnv_def db_frame_def refDB_def refServer_def)
  from request_changes_only_its_map[OF _ _ env(1-3) refEnv_routes env(4) run] refObjs_contract refObjs_deletes run
  show ?thesis by auto
qed

end
