(* ===== verification/RuleBook.thy ===== *)
theory RuleBook
  imports System
begin

text \<open>
  What the daemon promises about its rules, without any of its machinery: a rule book with two sets of
  targets and a policy, the operations on it, and the proof that every request and every tick is a
  sequence of them.
\<close>

record rule_book =
  blackRules :: "string fset"
  whiteRules :: "string fset"
  policyRule :: "u64 option"

datatype book_op = AddBlack string | DropBlack string | AddWhite string | DropWhite string | ChangePolicy u64 | Leave

fun bookStep :: "book_op \<Rightarrow> rule_book \<Rightarrow> rule_book" where
  "bookStep (AddBlack t) b = b\<lparr>blackRules := finsert t (blackRules b)\<rparr>"
| "bookStep (DropBlack t) b = b\<lparr>blackRules := blackRules b |-| {|t|}\<rparr>"
| "bookStep (AddWhite t) b = b\<lparr>whiteRules := finsert t (whiteRules b)\<rparr>"
| "bookStep (DropWhite t) b =
     (let ts = whiteRules b |-| {|t|} in
      b\<lparr>whiteRules := ts, policyRule := (if ts = {||} then Some 0 else policyRule b)\<rparr>)"
| "bookStep (ChangePolicy p) b = b\<lparr>policyRule := Some p\<rparr>"
| "bookStep Leave b = b"

text \<open>The rule book of a manager in a world: its target sets and the policy in the kernel.\<close>

definition bookOf :: "('w \<Rightarrow> kernel_view) \<Rightarrow> 'w MapManager \<Rightarrow> 'w \<Rightarrow> rule_book" where
  "bookOf view m w =
     \<lparr>blackRules = BlacklistTargets m, whiteRules = WhitelistTargets m, policyRule = vConfig (view w) 2\<rparr>"

text \<open>The operation a request is answered for.\<close>

definition opOf :: "endpoint \<Rightarrow> request \<Rightarrow> reply \<Rightarrow> book_op" where
  "opOf ep r rep =
     (case rep of
        Changed n t \<Rightarrow>
          (if ep = Blacklist then (if ReqMethod r = ''POST'' then AddBlack t else DropBlack t)
           else (if ReqMethod r = ''POST'' then AddWhite t else DropWhite t))
      | PolicySet p \<Rightarrow> ChangePolicy p
      | _ \<Rightarrow> Leave)"

subsection \<open>Requests\<close>

lemma view_config:
  "v' = vBlacklist_update (\<lambda>_. f) v \<Longrightarrow> vConfig v' = vConfig v"
  "v' = vWhitelist_update (\<lambda>_. g) v \<Longrightarrow> vConfig v' = vConfig v"
  "v' = vBackend_update (\<lambda>_. h) v \<Longrightarrow> vConfig v' = vConfig v"
  by simp_all

text \<open>The policy is an entry of an array map, so it is always there and can be written.\<close>

definition policy_slot :: "'w bpfObjects \<Rightarrow> ('w \<Rightarrow> kernel_view) \<Rightarrow> 'w \<Rightarrow> bool" where
  "policy_slot prog view w \<longleftrightarrow>
     \<not> is_nil (ConfigMap prog) \<and> slot_writable (ConfigMap prog) view 2 \<and> vConfig (view w) 2 \<noteq> None"

lemma set_policy_stored:
  assumes kc: "kernel_contract (objs m) view" and slot: "policy_slot (objs m) view w"
    and run: "SetGeoIPPolicy m p w = (w', e)"
  shows "e = None \<and> vConfig (view w') 2 = Some p"
proof -
  obtain w1 where put: "Put (ConfigMap (objs m)) 2 p w = (w1, True)"
    using slot unfolding policy_slot_def slot_writable_def by (metis prod.collapse)
  with config_put[OF kc put] slot run show ?thesis by (auto simp: SetGeoIPPolicy_def policy_slot_def)
qed

lemma write_books:
  assumes kc: "kernel_contract (objs m) view" and kd: "kernel_deletes (objs m) view"
    and fr: "os_frame os view" and mo: "map_order_contract os" and ps: "policy_slot (objs m) view w"
  shows "blacklistPost os m t cs r (s, w) = (rep, s', w') \<Longrightarrow>
      \<exists>m' n. rep = Changed n t \<and> manager s' = Some m' \<and> bookOf view m' w' = bookStep (AddBlack t) (bookOf view m w)"
    "blacklistDelete os m t cs r (s, w) = (rep, s', w') \<Longrightarrow>
      \<exists>m' n. rep = Changed n t \<and> manager s' = Some m' \<and> bookOf view m' w' = bookStep (DropBlack t) (bookOf view m w)"
    "whitelistPost os m t cs r (s, w) = (rep, s', w') \<Longrightarrow>
      \<exists>m' n. rep = Changed n t \<and> manager s' = Some m' \<and> bookOf view m' w' = bookStep (AddWhite t) (bookOf view m w)"
    "whitelistDelete os m t cs r (s, w) = (rep, s', w') \<Longrightarrow>
      \<exists>m' n. rep = Changed n t \<and> manager s' = Some m' \<and> bookOf view m' w' = bookStep (DropWhite t) (bookOf view m w)"
proof -
  show "\<exists>m' n. rep = Changed n t \<and> manager s' = Some m' \<and> bookOf view m' w' = bookStep (AddBlack t) (bookOf view m w)"
    if "blacklistPost os m t cs r (s, w) = (rep, s', w')"
    using blacklistPost_run[OF kc fr that] view_config(1) by (fastforce simp: bookOf_def)
  show "\<exists>m' n. rep = Changed n t \<and> manager s' = Some m' \<and> bookOf view m' w' = bookStep (DropBlack t) (bookOf view m w)"
    if "blacklistDelete os m t cs r (s, w) = (rep, s', w')"
    using blacklistDelete_run[OF kc kd fr that] view_config(1) by (fastforce simp: bookOf_def)
  show "\<exists>m' n. rep = Changed n t \<and> manager s' = Some m' \<and> bookOf view m' w' = bookStep (AddWhite t) (bookOf view m w)"
    if "whitelistPost os m t cs r (s, w) = (rep, s', w')"
    using whitelistPost_run[OF kc fr that] view_config(2) by (fastforce simp: bookOf_def)
  show "\<exists>m' n. rep = Changed n t \<and> manager s' = Some m' \<and> bookOf view m' w' = bookStep (DropWhite t) (bookOf view m w)"
    if run: "whitelistDelete os m t cs r (s, w) = (rep, s', w')"
  proof -
    from whitelistDelete_run[OF kc kd fr mo run] obtain n w2 where
      w2: "rep = Changed n t" "manager s' = Some (m\<lparr>WhitelistTargets := WhitelistTargets m |-| {|t|}\<rparr>)"
        "view w2 = vWhitelist_update (\<lambda>_. vWhitelist (view w2)) (view w)"
        "view w' = (if WhitelistTargets m |-| {|t|} = {||} then view (fst (SetGeoIPPolicy m 0 w2)) else view w2)"
      by auto
    have same: "vConfig (view w2) = vConfig (view w)" by (rule view_config(2)[OF w2(3)])
    with ps have "policy_slot (objs m) view w2" by (simp add: policy_slot_def)
    from set_policy_stored[OF kc this, of 0] have "vConfig (view (fst (SetGeoIPPolicy m 0 w2))) 2 = Some 0"
      by (metis prod.collapse)
    with w2(4) same
    have "vConfig (view w') 2 = (if WhitelistTargets m |-| {|t|} = {||} then Some 0 else vConfig (view w) 2)" by simp
    with w2(1,2) show ?thesis by (simp add: bookOf_def Let_def)
  qed
qed

lemma handler_book:
  assumes kc: "kernel_contract (objs m) view" and kd: "kernel_deletes (objs m) view"
    and fr: "os_frame (system_os env) view" and mo: "map_order_contract (system_os env)"
    and df: "db_frame (geo_db env) view" and rf: "routes_frame env view m" and ps: "policy_slot (objs m) view w"
    and m: "manager s = Some m" and run: "handlerOf env ep r (s, w) = (rep, s', w')"
  shows "\<exists>m'. manager s' = Some m' \<and> bookOf view m' w' = bookStep (opOf ep r rep) (bookOf view m w)"
proof -
  obtain g res where t: "targetCIDRs (geo_db env) (targetParam r) (geo s) = (g, res)" by fastforce
  note wb = write_books[OF kc kd fr mo ps]
  note touch = handler_touches[OF kc kd fr mo df rf m, of ep w r]
  show ?thesis
  proof (cases ep)
    case Blacklist
    with run m t show ?thesis
      by (auto simp: handleBlacklist_def opOf_def Let_def dest!: wb split: if_splits sum.splits)
  next
    case Whitelist
    with run m t show ?thesis
      by (auto simp: handleWhitelist_def opOf_def Let_def dest!: wb split: if_splits sum.splits)
  next
    case RulesPolicy
    with run m show ?thesis
      by (auto simp: handleRulesPolicy_def opOf_def Let_def bookOf_def saveRulesState_view[OF fr]
          writeMitigationLog_view[OF fr] dest!: set_policy_stored[OF kc ps]
          split: if_splits option.splits prod.splits)
  next
    case Routing
    with touch run have "vConfig (view w') 2 = vConfig (view w) 2" by (simp add: only_touches_def)
    with Routing run m show ?thesis
      by (auto simp: handleRouting_def opOf_def Let_def bookOf_def split: if_splits option.splits prod.splits)
  next
    case GeoIPReload
    with touch run have "vConfig (view w') 2 = vConfig (view w) 2" by (simp add: only_touches_def)
    with GeoIPReload run m show ?thesis
      by (auto simp: handleGeoIPReload_def opOf_def bookOf_def split: if_splits option.splits prod.splits)
  qed (use run m in \<open>auto simp: handleStats_def handleGeoIPHealth_def handleLogs_def opOf_def bookOf_def Let_def
      split: if_splits option.splits sum.splits prod.splits\<close>)
qed

subsection \<open>Ticks\<close>

lemma drop_all: "fold bookStep (map DropBlack ts) b = b\<lparr>blackRules := blackRules b |-| fset_of_list ts\<rparr>"
proof (induction ts arbitrary: b)
  case (Cons t ts)
  have "A |-| {|t|} |-| fset_of_list ts = A |-| finsert t (fset_of_list ts)" for A by auto
  with Cons show ?case by simp
qed simp

lemma engineTick_book:
  assumes kc: "kernel_contract (objs m) view" and kd: "kernel_deletes (objs m) view"
    and fr: "os_frame os view" and mgr: "mapMgr s = Some m"
    and tick: "engineTick os iface sf (s, w) = (s', w')"
  shows "\<exists>ks m'. mapMgr s' = Some m' \<and>
    (\<forall>k \<in> set ks. canonicalKey k \<and> expiredAt os iface view m (currentLevel (machine s')) s w k \<and>
       vBlacklist (view w') k = None) \<and>
    bookOf view m' w' = fold bookStep (map (DropBlack \<circ> formatLpmKey) ks) (bookOf view m w)"
proof -
  from engineTick_targets[OF kc kd mgr, of os iface sf w] tick fr obtain ks where
    ks: "mapMgr s' = Some (withoutTargets (fset_of_list (map formatLpmKey ks)) m)"
      "\<forall>k \<in> set ks. canonicalKey k \<and> expiredAt os iface view m (currentLevel (machine s')) s w k \<and>
         vBlacklist (view w') k = None" by auto
  have "vConfig (view w') 2 = vConfig (view w) 2" using engineTick_rest[OF kc kd fr mgr tick] by simp
  with drop_all[of "map formatLpmKey ks" "bookOf view m w"]
  have "bookOf view (withoutTargets (fset_of_list (map formatLpmKey ks)) m) w' =
      fold bookStep (map (DropBlack \<circ> formatLpmKey) ks) (bookOf view m w)"
    by (simp add: bookOf_def comp_def)
  with ks show ?thesis by blast
qed

subsection \<open>Properties\<close>

text \<open>
  C1: The daemon implements the rule book: a request makes exactly the one change it is answered for (none
  when it is refused), on the target sets and the policy in force in the kernel together; a tick of
  the engine only drops targets, and each of them is the text of a block that, when the sweep of the
  tick looked at it, was older than the time to live of the level the machine is then in (a block that
  stood before the tick, or one its own scan has just made), and that is gone from the kernel.
\<close>

theorem system_refines_rule_book:
  assumes "kernel_contract (objs m) view" "kernel_deletes (objs m) view"
    and "os_frame (system_os env) view" "map_order_contract (system_os env)"
    and "db_frame (geo_db env) view" "routes_frame env view m" "policy_slot (objs m) view w"
    and "manager (api sys) = Some m"
  shows "(systemRequest env ep r (sys, w) = (rep, sys1, w1) \<longrightarrow>
      (\<exists>m1. manager (api sys1) = Some m1 \<and> bookOf view m1 w1 = bookStep (opOf ep r rep) (bookOf view m w))) \<and>
    (systemTick (system_os env) iface (sys, w) = (sys2, w2) \<longrightarrow>
      (\<exists>m2 ks. manager (api sys2) = Some m2 \<and>
        (\<forall>k \<in> set ks. canonicalKey k \<and>
           expiredAt (system_os env) iface view m (currentLevel (machine (eng sys2))) (eng sys) w k \<and>
           vBlacklist (view w2) k = None) \<and>
        bookOf view m2 w2 = fold bookStep (map (DropBlack \<circ> formatLpmKey) ks) (bookOf view m w)))"
proof (intro conjI impI)
  assume req: "systemRequest env ep r (sys, w) = (rep, sys1, w1)"
  then obtain s' where s': "serveAPI env ep r (api sys, w) = (rep, s', w1)" "sys1 = sys\<lparr>api := s'\<rparr>"
    by (auto simp: systemRequest_def split: prod.splits)
  have "manager (api sys\<lparr>limiter := l\<rparr>) = Some m" for l using assms(8) by simp
  from handler_book[OF assms(1-7) this, of ep r] s'
  show "\<exists>m1. manager (api sys1) = Some m1 \<and> bookOf view m1 w1 = bookStep (opOf ep r rep) (bookOf view m w)"
    using assms(8) by (fastforce simp: serveAPI_eq opOf_def Let_def split: if_splits)
next
  assume tick: "systemTick (system_os env) iface (sys, w) = (sys2, w2)"
  let ?e = "(eng sys)\<lparr>mapMgr := manager (api sys), outbox := []\<rparr>"
  obtain e w' where t: "engineTick (system_os env) iface (stateFile (api sys)) (?e, w) = (e, w')" by fastforce
  have "mapMgr ?e = Some m" using assms(8) by simp
  from engineTick_book[OF assms(1-3) this t] obtain ks m2 where
    ks: "mapMgr e = Some m2" "\<forall>k \<in> set ks. canonicalKey k \<and>
        expiredAt (system_os env) iface view m (currentLevel (machine e)) ?e w k \<and> vBlacklist (view w') k = None"
      "bookOf view m2 w' = fold bookStep (map (DropBlack \<circ> formatLpmKey) ks) (bookOf view m w)" by blast
  from tick t have "w' = w2" "manager (api sys2) = mapMgr e" "eng sys2 = e" by (auto simp: systemTick_def Let_def)
  with ks show "\<exists>m2 ks. manager (api sys2) = Some m2 \<and>
      (\<forall>k \<in> set ks. canonicalKey k \<and>
         expiredAt (system_os env) iface view m (currentLevel (machine (eng sys2))) (eng sys) w k \<and>
         vBlacklist (view w2) k = None) \<and>
      bookOf view m2 w2 = fold bookStep (map (DropBlack \<circ> formatLpmKey) ks) (bookOf view m w)"
    by (intro exI[of _ m2] exI[of _ ks]) (simp add: expiredAt_def)
qed

definition bookSystem :: "(string \<times> ref_network list, world) system" where
  "bookSystem = \<lparr>api = refServer, eng = startEngine refOS ''eth0'' (Some refManager) emptyWorld\<rparr>"

theorem system_refines_rule_book_witness:
  "\<exists>m1. manager (api (fst (snd (systemRequest refEnv RulesPolicy (sampleRequest ''POST'' ''action=drop'') (bookSystem, emptyWorld)))))
     = Some m1 \<and> policyRule (bookOf refView m1
       (snd (snd (systemRequest refEnv RulesPolicy (sampleRequest ''POST'' ''action=drop'') (bookSystem, emptyWorld))))) = Some 1"
proof -
  let ?r = "sampleRequest ''POST'' ''action=drop''"
  obtain rep sys1 w1 where run: "systemRequest refEnv RulesPolicy ?r (bookSystem, emptyWorld) = (rep, sys1, w1)"
    by (metis prod.collapse)
  have "fst (serveAPI refEnv RulesPolicy ?r (refServer, emptyWorld)) = PolicySet 1" by code_simp
  with run have rep: "rep = PolicySet 1" by (auto simp: systemRequest_def bookSystem_def split: prod.splits)
  have env: "os_frame (system_os refEnv) refView" "map_order_contract (system_os refEnv)"
    "db_frame (geo_db refEnv) refView" "manager (api bookSystem) = Some refManager"
    using refOS_frame refOS_order by (simp_all add: refEnv_def db_frame_def refDB_def refServer_def bookSystem_def)
  have slot: "policy_slot (objs refManager) refView emptyWorld"
    by (auto simp: policy_slot_def slot_writable_def refManager_def NewMapManager_def refObjs_def ref_map_def refView_def Let_def)
       (simp add: entries_def emptyWorld_def)
  from system_refines_rule_book[OF _ _ env(1-3) refEnv_routes slot env(4)] refObjs_contract refObjs_deletes run rep
  show ?thesis by (fastforce simp: opOf_def)
qed

end
