(* ===== verification/Propagation.thy ===== *)
theory Propagation
  imports System
begin

text \<open>
  How an event travels through a cluster.  The requests a node sends are delivered one at a time, in
  any order, to whatever nodes the network brings them to; what a node sends in turn joins the
  requests still under way.
\<close>

definition marked :: "out_request \<Rightarrow> bool" where
  "marked x \<longleftrightarrow> queryGet (urlQuery (OutURL x)) ''sync'' = ''true''"

definition plain_nodes :: "cluster \<Rightarrow> bool" where
  "plain_nodes cl \<longleftrightarrow> (\<forall>node \<in> set (clusterNodes cl). CHR ''?'' \<notin> set node \<and> CHR ''#'' \<notin> set node)"

subsection \<open>Every request sent is marked\<close>

lemma ipSyncURL_marked:
  assumes "CHR ''?'' \<notin> set node" "CHR ''#'' \<notin> set node" "CHR ''?'' \<notin> set endpoint" "CHR ''#'' \<notin> set endpoint"
  shows "queryGet (urlQuery (ipSyncURL endpoint ip node)) ''sync'' = ''true''"
  by (simp add: ipSyncURL_query[OF assms] queryGet_queryOf unreserved_texts)

lemma routingSyncURL_marked:
  assumes "CHR ''?'' \<notin> set node" "CHR ''#'' \<notin> set node"
  shows "queryGet (urlQuery (routingSyncURL vip vport p b t node)) ''sync'' = ''true''"
  by (simp add: routingSyncURL_query[OF assms] queryGet_queryOf unreserved_texts)

lemma policySyncURL_marked:
  assumes "CHR ''?'' \<notin> set node" "CHR ''#'' \<notin> set node" "plainText action"
  shows "queryGet (urlQuery (policySyncURL action node)) ''sync'' = ''true''"
proof -
  let ?q = "queryOf [(''action'', action), (''sync'', ''true'')]"
  have action: "plainText ''action''" by code_simp
  have "?q = ''action='' @ action @ ''&sync=true''"
    by (simp add: queryOf_def queryPair_def QueryEscape_plain unreserved_texts assms(3))
  moreover have "urlQuery ((node @ ''/api/rules/policy'') @ CHR ''?'' # ?q) = ?q"
    using assms by (intro urlQuery_of queryOf_clean) (simp_all add: unreserved_texts action)
  ultimately have "urlQuery (policySyncURL action node) = ?q" by (simp add: policySyncURL_def)
  then show ?thesis by (simp add: queryGet_queryOf unreserved_texts action)
qed

lemma sendToNodes_marked:
  assumes "\<And>node. node \<in> set (clusterNodes cl) \<Longrightarrow> queryGet (urlQuery (urlFor node)) ''sync'' = ''true''"
    and "x \<in> set (sendToNodes os cl method urlFor w)"
  shows "marked x"
  using assms by (auto simp: sendToNodes_def marked_def)

lemma syncIPEvent_marked:
  "plain_nodes cl \<Longrightarrow> CHR ''?'' \<notin> set endpoint \<Longrightarrow> CHR ''#'' \<notin> set endpoint \<Longrightarrow>
   x \<in> set (syncIPEvent os cl endpoint method ip w) \<Longrightarrow> marked x"
  unfolding syncIPEvent_def
  by (erule sendToNodes_marked[rotated]) (auto simp: plain_nodes_def intro!: ipSyncURL_marked)

lemma syncRoutingEvent_marked:
  "plain_nodes cl \<Longrightarrow> x \<in> set (syncRoutingEvent os cl method vip vport p b t w) \<Longrightarrow> marked x"
  unfolding syncRoutingEvent_def
  by (erule sendToNodes_marked[rotated]) (auto simp: plain_nodes_def intro!: routingSyncURL_marked)

lemma syncGeoPolicyEvent_marked:
  "plain_nodes cl \<Longrightarrow> plainText action \<Longrightarrow> x \<in> set (syncGeoPolicyEvent os cl action w) \<Longrightarrow> marked x"
  unfolding syncGeoPolicyEvent_def
  by (erule sendToNodes_marked[rotated]) (auto simp: plain_nodes_def intro!: policySyncURL_marked)

text \<open>The events a step adds to those sent before.\<close>

definition adds_marked :: "('r, 'w) server \<Rightarrow> ('r, 'w) server \<Rightarrow> bool" where
  "adds_marked s s' \<longleftrightarrow> (\<exists>news. sent s' = sent s @ news \<and> (\<forall>x \<in> set news. marked x))"

lemma adds_markedI: "sent s' = sent s @ news \<Longrightarrow> \<forall>x \<in> set news. marked x \<Longrightarrow> adds_marked s s'"
  unfolding adds_marked_def by blast

lemma adds_marked_same: "sent s' = sent s \<Longrightarrow> adds_marked s s'"
  by (rule adds_markedI[where news = "[]"]) simp_all

lemma write_marked:
  assumes "plain_nodes (clusterInfo s)"
  shows "blacklistPost os m t cs r (s, w) = (rep, s', w') \<Longrightarrow> adds_marked s s'"
    "blacklistDelete os m t cs r (s, w) = (rep, s', w') \<Longrightarrow> adds_marked s s'"
    "whitelistPost os m t cs r (s, w) = (rep, s', w') \<Longrightarrow> adds_marked s s'"
    "whitelistDelete os m t cs r (s, w) = (rep, s', w') \<Longrightarrow> adds_marked s s'"
proof -
  have ip: "marked x" if "x \<in> set (syncIPEvent os (clusterInfo s) e meth t w0)" "e \<in> {''blacklist'', ''whitelist''}"
    for x e meth w0
    using syncIPEvent_marked[OF assms _ _ that(1)] that(2) by auto
  have "plainText ''0''" by code_simp
  then have policy: "marked x" if "x \<in> set (syncGeoPolicyEvent os (clusterInfo s) ''0'' w0)" for x w0
    using syncGeoPolicyEvent_marked[OF assms _ that] by simp
  show "blacklistPost os m t cs r (s, w) = (rep, s', w') \<Longrightarrow> adds_marked s s'"
    by (auto simp: blacklistPost_def Let_def adds_marked_def intro: ip split: prod.splits)
  show "blacklistDelete os m t cs r (s, w) = (rep, s', w') \<Longrightarrow> adds_marked s s'"
    by (auto simp: blacklistDelete_def Let_def adds_marked_def intro: ip split: prod.splits)
  show "whitelistPost os m t cs r (s, w) = (rep, s', w') \<Longrightarrow> adds_marked s s'"
    by (auto simp: whitelistPost_def Let_def adds_marked_def intro: ip split: prod.splits)
  show "whitelistDelete os m t cs r (s, w) = (rep, s', w') \<Longrightarrow> adds_marked s s'"
    by (auto simp: whitelistDelete_def Let_def adds_marked_def intro: ip policy split: prod.splits)
qed

lemma handler_marked:
  assumes cl: "plain_nodes (clusterInfo s)" and run: "handlerOf env ep r (s, w) = (rep, s', w')"
  shows "adds_marked s s'"
proof -
  obtain g res where t: "targetCIDRs (geo_db env) (targetParam r) (geo s) = (g, res)" by fastforce
  have wr: "adds_marked s s'" if "adds_marked (s\<lparr>geo := g\<rparr>) s'" using that by (simp add: adds_marked_def)
  note writes = write_marked[where s = "s\<lparr>geo := g\<rparr>" and os = "system_os env", simplified, OF cl]
  have itoa: "plainText (itoa (uint p))" for p :: u64 by (simp add: unreserved_itoa)
  show ?thesis
  proof (cases ep)
    case Blacklist
    with run t show ?thesis
      by (auto simp: handleBlacklist_def Let_def intro: adds_marked_same wr writes
          split: if_splits option.splits sum.splits)
  next
    case Whitelist
    with run t show ?thesis
      by (auto simp: handleWhitelist_def Let_def intro: adds_marked_same wr writes
          split: if_splits option.splits sum.splits)
  next
    case Routing
    with run show ?thesis
      by (auto simp: handleRouting_def Let_def adds_marked_def intro: syncRoutingEvent_marked[OF cl]
          split: if_splits option.splits prod.splits)
  next
    case RulesPolicy
    with run show ?thesis
      by (auto simp: handleRulesPolicy_def Let_def adds_marked_def intro: syncGeoPolicyEvent_marked[OF cl itoa]
          split: if_splits option.splits prod.splits)
  qed (use run in \<open>auto simp: handleStats_def handleGeoIPHealth_def handleLogs_def handleGeoIPReload_def
      Let_def intro!: adds_marked_same split: if_splits prod.splits option.splits sum.splits\<close>)
qed

lemma serveAPI_marked:
  assumes "plain_nodes (clusterInfo s)" "serveAPI env ep r (s, w) = (rep, s', w')"
  shows "adds_marked s s'"
proof -
  have "adds_marked s s'" if "handlerOf env ep r (s\<lparr>limiter := l\<rparr>, w) = (rep, s', w')" for l
    using handler_marked[OF _ that] assms(1) by (simp add: adds_marked_def)
  with assms(2) show ?thesis by (auto simp: serveAPI_eq Let_def intro: adds_marked_same split: if_splits)
qed

text \<open>The engine reports blocks and expiries only.\<close>

definition blacklist_event :: "sync_event \<Rightarrow> bool" where
  "blacklist_event ev \<longleftrightarrow> (\<exists>meth ip. ev = SyncIP ''blacklist'' meth ip)"

lemma reportBlocked_events:
  "list_all blacklist_event out \<Longrightarrow> list_all blacklist_event (fst (reportBlocked os pps ips (out, w)))"
  by (induction ips arbitrary: out w) (simp_all add: blacklist_event_def)

lemma reportExpired_events:
  "list_all blacklist_event out \<Longrightarrow>
   list_all blacklist_event (fst (snd (reportExpired os ips (m, out, w))))"
proof (induction ips arbitrary: m out w)
  case (Cons ip ips)
  then show ?case
    by (cases "forgetTarget ip (m, writeMitigationLog os ''auto_unblock'' ip ''Blacklist TTL expired'' 0 w)")
       (simp add: Let_def blacklist_event_def)
qed simp

lemma expirePart_events:
  assumes "list_all blacklist_event (outbox s)"
  shows "list_all blacklist_event (outbox (fst (expirePart os sf m (s, w))))"
proof -
  let ?ttl = "effectiveTTL (currentLevel (machine s)) (GetBlacklistCount m w)"
  obtain cs e w1 where c: "CleanExpiredBlacklist os m ?ttl w = ((cs, e), w1)" by (metis prod.collapse)
  obtain m2 out2 w2 where r: "reportExpired os cs (m, outbox s, w1) = (m2, out2, w2)" by (metis prod.collapse)
  from reportExpired_events[OF assms, of os cs m w1] assms c r show ?thesis
    by (auto simp: expirePart_def Let_def split: option.splits)
qed

lemma engineTick_events:
  assumes "outbox s = []"
  shows "list_all blacklist_event (outbox (fst (engineTick os iface sf (s, w))))"
proof -
  have act: "list_all blacklist_event (outbox (fst (actPart os sf m x (s1, w1))))"
    if "list_all blacklist_event (outbox s1)" for m x s1 and w1
  proof -
    let ?l = "currentLevel (machine (transition x s1))"
    let ?w2 = "fst (UpdateRateLimits m (ppsThreshold ?l) (bpsThreshold ?l) w1)"
    obtain ips e w3 where sc: "ScanAndMitigate os m (ppsThreshold ?l) (bpsThreshold ?l)
        (scanBudget ?l (cpuPercent x)) ?w2 = ((ips, e), w3)" by (metis prod.collapse)
    obtain out w4 where r: "reportBlocked os (ppsThreshold ?l) ips (outbox (transition x s1), w3) = (out, w4)"
      by fastforce
    have same: "outbox (transition x s1) = outbox s1" by (simp add: transition_def Let_def)
    with that r reportBlocked_events have "list_all blacklist_event out" by (metis fst_conv)
    then have "list_all blacklist_event (outbox (fst (expirePart os sf m (transition x s1\<lparr>outbox := out\<rparr>, w4))))"
      by (intro expirePart_events) simp
    with same that sc r show ?thesis by (simp add: actPart_def blockPart_def Let_def split: option.splits)
  qed
  show ?thesis
  proof (cases "mapMgr s")
    case None
    with assms show ?thesis by (simp add: engineTick_def)
  next
    case (Some m)
    obtain x s1 where sn: "sense os iface m w s = (x, s1)" by fastforce
    then have "outbox s1 = []" using assms by (simp add: sense_def split: prod.splits) auto
    with act[of s1 m x w] Some sn assms show ?thesis
      by (auto simp: engineTick_def readQueueBase_def split: option.splits sum.splits)
  qed
qed

lemma systemTick_marked:
  assumes "plain_nodes (clusterInfo (api sys))" "systemTick os iface (sys, w) = (sys', w')"
  shows "adds_marked (api sys) (api sys')"
proof -
  let ?e = "(eng sys)\<lparr>mapMgr := manager (api sys), outbox := []\<rparr>"
  obtain e w1 where t: "engineTick os iface (stateFile (api sys)) (?e, w) = (e, w1)" by fastforce
  from engineTick_events[of ?e os iface "stateFile (api sys)" w] t have "list_all blacklist_event (outbox e)" by simp
  then have ev: "\<exists>meth ip. v = SyncIP ''blacklist'' meth ip" if "v \<in> set (outbox e)" for v
    using that by (auto simp: list_all_iff blacklist_event_def)
  have "marked x" if "v \<in> set (outbox e)" "x \<in> set (eventRequests os (clusterInfo (api sys)) w1 v)" for v x
    using ev[OF that(1)] that(2) syncIPEvent_marked[OF assms(1), of "''blacklist''" x]
    by (auto simp: eventRequests_def)
  then have "\<forall>x \<in> set (concat (map (eventRequests os (clusterInfo (api sys)) w1) (outbox e))). marked x"
    by auto
  with assms(2) t show ?thesis by (auto simp: systemTick_def Let_def adds_marked_def)
qed

subsection \<open>The network\<close>

type_synonym parcel = "nat \<times> endpoint \<times> string \<times> out_request"

definition delivered :: "string \<Rightarrow> out_request \<Rightarrow> request" where
  "delivered addr x =
     \<lparr>ReqMethod = OutMethod x, RawQuery = urlQuery (OutURL x), APIKeyHeader = OutKey x, RemoteAddr = addr\<rparr>"

text \<open>\<open>route\<close> is the network: which node and endpoint a request is for, and the address it comes from.\<close>

inductive deliver ::
  "(nat \<Rightarrow> ('r, 'i, 'w) api_env) \<Rightarrow> (out_request \<Rightarrow> nat \<times> endpoint \<times> string)
   \<Rightarrow> (nat \<Rightarrow> ('r, 'w) state) \<times> parcel list \<Rightarrow> (nat \<Rightarrow> ('r, 'w) state) \<times> parcel list \<Rightarrow> bool"
  for envs :: "nat \<Rightarrow> ('r, 'i, 'w) api_env" and route :: "out_request \<Rightarrow> nat \<times> endpoint \<times> string" where
  "serveAPI (envs n) ep (delivered addr x) (nodes n) = (rep, s', w') \<Longrightarrow>
   sent s' = sent (fst (nodes n)) @ news \<Longrightarrow>
   deliver envs route (nodes, before @ (n, ep, addr, x) # after)
     (nodes(n := (s', w')),
      before @ after @ map (\<lambda>y. case route y of (n', ep', addr') \<Rightarrow> (n', ep', addr', y)) news)"

inductive_cases deliverE: "deliver envs route (nodes, pending) cfg"

definition all_marked :: "parcel list \<Rightarrow> bool" where
  "all_marked pending \<longleftrightarrow> (\<forall>(n, ep, addr, x) \<in> set pending. marked x)"

lemma delivered_quiet:
  assumes "marked x" "serveAPI env ep (delivered addr x) (s, w) = (rep, s', w')"
  shows "sent s' = sent s"
proof -
  have "isSync (delivered addr x)" using assms(1) by (simp add: marked_def isSync_def delivered_def)
  with assms(2) show ?thesis
    using handler_server[of env ep "delivered addr x"] by (auto simp: serveAPI_eq Let_def split: if_splits)
qed

lemma deliver_shrinks:
  assumes "deliver envs route (nodes, pending) (nodes', pending')" "all_marked pending"
  shows "length pending = Suc (length pending') \<and> all_marked pending'"
  using assms(1)
proof (rule deliverE)
  fix n ep addr x rep s' w' news before after
  assume step: "(nodes', pending') = (nodes(n := (s', w')), before @ after @
      map (\<lambda>y. case route y of (n', ep', addr') \<Rightarrow> (n', ep', addr', y)) news)"
    and p: "pending = before @ (n, ep, addr, x) # after"
    and run: "serveAPI (envs n) ep (delivered addr x) (nodes n) = (rep, s', w')"
    and news: "sent s' = sent (fst (nodes n)) @ news"
  have "marked x" using assms(2) p by (simp add: all_marked_def)
  with delivered_quiet run news have "news = []" by (metis append_self_conv prod.collapse)
  with step p assms(2) show ?thesis by (auto simp: all_marked_def)
qed

lemma deliver_progress: "pending \<noteq> [] \<Longrightarrow> all_marked pending \<Longrightarrow> \<exists>cfg. deliver envs route (nodes, pending) cfg"
proof -
  assume "pending \<noteq> []" and m: "all_marked pending"
  then obtain n ep addr x rest where p: "pending = [] @ (n, ep, addr, x) # rest" by (metis append_Nil list.exhaust prod_cases4)
  obtain rep s' w' where run: "serveAPI (envs n) ep (delivered addr x) (nodes n) = (rep, s', w')"
    by (metis prod.collapse)
  have "marked x" using m p by (simp add: all_marked_def)
  with run have "sent s' = sent (fst (nodes n)) @ []" using delivered_quiet by (metis append_Nil2 prod.collapse)
  from deliver.intros[where envs = envs and nodes = nodes and news = "[]", OF run this, of route "[]" rest] p
  show ?thesis by auto
qed

lemma deliver_run:
  assumes "all_marked pending"
  shows "(deliver envs route ^^ k) (nodes, pending) (nodes', pending') \<Longrightarrow>
      length pending = k + length pending' \<and> all_marked pending'"
proof (induction k arbitrary: nodes' pending')
  case (Suc k)
  from Suc.prems obtain n1 p1 where a: "(deliver envs route ^^ k) (nodes, pending) (n1, p1)"
    and b: "deliver envs route (n1, p1) (nodes', pending')" by auto
  from Suc.IH[OF a] deliver_shrinks[OF b] show ?case by simp
qed (use assms in simp)

text \<open>The requests a step of a node adds, on their way.\<close>

definition posted ::
  "(out_request \<Rightarrow> nat \<times> endpoint \<times> string) \<Rightarrow> ('r, 'w) server \<Rightarrow> ('r, 'w) server \<Rightarrow> parcel list" where
  "posted route s s' =
     map (\<lambda>y. case route y of (n, ep, addr) \<Rightarrow> (n, ep, addr, y)) (drop (length (sent s)) (sent s'))"

lemma posted_marked: "adds_marked s s' \<Longrightarrow> all_marked (posted route s s')"
  by (auto simp: adds_marked_def posted_def all_marked_def split: prod.splits)

subsection \<open>Properties\<close>

text \<open>
  C6: Every change dies out: the requests a tick or a request makes a node send (to nodes written without
  a query) cause no further ones, wherever and in whatever order the network delivers them, so the
  cluster is quiet after exactly as many deliveries as requests were sent, and until then a delivery
  can always be made.
\<close>

theorem event_propagation_terminates:
  assumes "plain_nodes (clusterInfo (api sys))"
    and "systemTick os iface (sys, w) = (sys', w') \<or> systemRequest env ep r (sys, w) = (rep, sys', w')"
    and "(deliver envs route ^^ k) (nodes, posted route (api sys) (api sys')) (nodes', pending)"
  shows "k + length pending = length (posted route (api sys) (api sys')) \<and>
    (pending \<noteq> [] \<longrightarrow> (\<exists>cfg. deliver envs route (nodes', pending) cfg))"
proof -
  have "adds_marked (api sys) (api sys')"
    using assms(1,2) systemTick_marked serveAPI_marked
    by (fastforce simp: systemRequest_def split: prod.splits)
  from deliver_run[OF posted_marked[OF this] assms(3)] deliver_progress show ?thesis by auto
qed

definition sampleSystem :: "(string \<times> ref_network list, world) system" where
  "sampleSystem = \<lparr>api = refServer, eng = startEngine refOS ''eth0'' (Some refManager) emptyWorld\<rparr>"

definition sampleRoute :: "out_request \<Rightarrow> nat \<times> endpoint \<times> string" where
  "sampleRoute x = (1, Blacklist, ''10.0.0.1:5000'')"

theorem event_propagation_terminates_witness:
  "let pending = posted sampleRoute refServer (api (fst (snd (systemRequest refEnv Blacklist
         (sampleRequest ''POST'' ''target=1.2.3.4'') (sampleSystem, emptyWorld)))))
   in length pending = 1 \<and>
      (\<forall>k cfg. (deliver (\<lambda>_. refEnv) sampleRoute ^^ k) (\<lambda>_. (refServer, emptyWorld), pending) cfg \<longrightarrow>
         k + length (snd cfg) = 1)"
proof -
  let ?r = "sampleRequest ''POST'' ''target=1.2.3.4''"
  obtain rep sys' w' where run: "systemRequest refEnv Blacklist ?r (sampleSystem, emptyWorld) = (rep, sys', w')"
    by (metis prod.collapse)
  let ?p = "posted sampleRoute refServer (api sys')"
  have api: "api sampleSystem = refServer" by (simp add: sampleSystem_def)
  have "length (posted sampleRoute refServer (fst (snd (serveAPI refEnv Blacklist ?r (refServer, emptyWorld))))) = 1"
    by code_simp
  then have one: "length ?p = 1" using run api by (auto simp: systemRequest_def split: prod.splits)
  have "plain_nodes (clusterInfo (api sampleSystem))" by (simp add: api plain_nodes_def refServer_def refCluster_def)
  from event_propagation_terminates[OF this disjI2[OF run], of _ "\<lambda>_. refEnv" sampleRoute "\<lambda>_. (refServer, emptyWorld)"]
  have "k + length (snd cfg) = 1" if "(deliver (\<lambda>_. refEnv) sampleRoute ^^ k) (\<lambda>_. (refServer, emptyWorld), ?p) cfg"
    for k cfg
    using that one api by (cases cfg) fastforce
  with run one show ?thesis by (simp add: Let_def del: split_paired_All)
qed

end
