(* ===== verification/Recovery.thy ===== *)
theory Recovery
  imports System
begin

text \<open>
  What an acknowledged change leaves on the disk: the request handlers and the state file of
  \<open>persist.go\<close> together, and the start of the next process.
\<close>

text \<open>
  The state file on the disk: a write that succeeds is read back, and making directories and
  appending to other files leave it alone.
\<close>

definition disk_contract :: "'w goos \<Rightarrow> string \<Rightarrow> bool" where
  "disk_contract os f \<longleftrightarrow>
     (\<forall>c w w'. WriteFile os f c w = (w', True) \<longrightarrow> ReadFile os f w' = Some c) \<and>
     (\<forall>d w. ReadFile os f (fst (MkdirAll os d w)) = ReadFile os f w) \<and>
     (\<forall>p c w. p \<noteq> f \<longrightarrow> ReadFile os f (fst (AppendCreateFile os p c w)) = ReadFile os f w)"

definition writable :: "'w goos \<Rightarrow> string \<Rightarrow> bool" where
  "writable os f \<longleftrightarrow> f \<noteq> [] \<and> \<not> HasSuffix f ''/mitigation.log'' \<and> (\<forall>c w. snd (WriteFile os f c w))"

lemma log_keeps_state:
  assumes "disk_contract os f" "writable os f"
  shows "ReadFile os f (writeMitigationLog os e ip reason v w) = ReadFile os f w"
proof -
  obtain w1 ok where mk: "MkdirAll os (resolvePath os ''logs'' w) w = (w1, ok)" by fastforce
  have 1: "ReadFile os f w1 = ReadFile os f w" using assms(1) mk unfolding disk_contract_def by (metis fst_conv)
  have "resolvePath os ''logs'' w @ ''/mitigation.log'' \<noteq> f" using assms(2) 
    by (auto simp: writable_def HasSuffix_def suffix_def)
  then have 2: "ReadFile os f (fst (AppendCreateFile os (resolvePath os ''logs'' w @ ''/mitigation.log'') c w1)) =
      ReadFile os f w1" for c
    using assms(1) unfolding disk_contract_def by blast
  from 1 2 mk show ?thesis by (simp add: writeMitigationLog_def Let_def)
qed

lemma save_stores:
  assumes "disk_contract os f" "writable os f"
  shows "ReadFile os f (saveRulesState os f (Some m) w) = Some (marshalState (currentState os m w))"
proof -
  obtain w' where "WriteFile os f (marshalState (currentState os m w)) w = (w', True)"
    using assms(2) unfolding writable_def by (metis prod.collapse)
  with assms show ?thesis by (simp add: saveRulesState_def disk_contract_def writable_def)
qed

text \<open>The file holds the rules of the manager as they are in a world.\<close>

definition saved_rules :: "'w goos \<Rightarrow> ('w \<Rightarrow> kernel_view) \<Rightarrow> ('r, 'w) server \<Rightarrow> 'w \<Rightarrow> bool" where
  "saved_rules os view s w \<longleftrightarrow>
     (\<exists>m saved. manager s = Some m \<and> view saved = view w \<and>
        ReadFile os (stateFile s) w = Some (marshalState (currentState os m saved)))"

lemma saved_rulesI:
  assumes "disk_contract os f" "writable os f" "os_frame os view"
    and "manager s = Some m" "stateFile s = f"
  shows "saved_rules os view s (writeMitigationLog os e ip reason v (saveRulesState os f (Some m) w))"
  unfolding saved_rules_def
  using assms by (intro exI[of _ m] exI[of _ w])
    (simp add: log_keeps_state save_stores writeMitigationLog_view saveRulesState_view)

lemma write_saves:
  assumes "disk_contract os (stateFile s)" "writable os (stateFile s)" "os_frame os view"
  shows "blacklistPost os m t cs r (s, w) = (rep, s', w') \<Longrightarrow> saved_rules os view s' w' \<and> stateFile s' = stateFile s"
    "blacklistDelete os m t cs r (s, w) = (rep, s', w') \<Longrightarrow> saved_rules os view s' w' \<and> stateFile s' = stateFile s"
    "whitelistPost os m t cs r (s, w) = (rep, s', w') \<Longrightarrow> saved_rules os view s' w' \<and> stateFile s' = stateFile s"
    "whitelistDelete os m t cs r (s, w) = (rep, s', w') \<Longrightarrow> saved_rules os view s' w' \<and> stateFile s' = stateFile s"
  by (auto simp: blacklistPost_def blacklistDelete_def whitelistPost_def whitelistDelete_def Let_def
      intro!: saved_rulesI assms split: prod.splits)

lemma change_saves:
  assumes disk: "disk_contract (system_os env) (stateFile s)" "writable (system_os env) (stateFile s)"
      "os_frame (system_os env) view"
    and run: "handlerOf env ep r (s, w) = (rep, s', w')"
    and acked: "(\<exists>n t. rep = Changed n t) \<or> (\<exists>p. rep = PolicySet p)"
  shows "saved_rules (system_os env) view s' w' \<and> stateFile s' = stateFile s"
proof -
  obtain g res where t: "targetCIDRs (geo_db env) (targetParam r) (geo s) = (g, res)" by fastforce
  note writes = write_saves[where s = "s\<lparr>geo := g\<rparr>" and os = "system_os env" and view = view, simplified, OF disk]
  show ?thesis
  proof (cases ep)
    case Blacklist
    with run acked t show ?thesis
      by (auto simp: handleBlacklist_def Let_def dest: writes split: if_splits option.splits sum.splits)
  next
    case Whitelist
    with run acked t show ?thesis
      by (auto simp: handleWhitelist_def Let_def dest: writes split: if_splits option.splits sum.splits)
  next
    case RulesPolicy
    with run acked disk show ?thesis
      by (auto simp: handleRulesPolicy_def Let_def intro!: saved_rulesI
          split: if_splits option.splits prod.splits)
  qed (use run acked in \<open>auto simp: handleStats_def handleGeoIPHealth_def handleLogs_def handleGeoIPReload_def
      handleRouting_def Let_def split: if_splits prod.splits option.splits sum.splits\<close>)
qed

text \<open>
  C3: An acknowledged change survives a restart: after a reply that a list or the policy was changed, a
  new process that finds the state file as it was left ends with exactly the targets the old one
  held when it replied (if they are valid UTF-8), and with its policy, provided the file system took
  the write and the kernel takes the policy.
\<close>

theorem acknowledged_change_survives_restart:
  assumes "map_order_contract (system_os env)" "kernel_contract prog view" "os_frame (system_os env) view"
    and "disk_contract (system_os env) (stateFile s)" "writable (system_os env) (stateFile s)"
    and "serveAPI env ep r (s, w) = (rep, s', w')"
    and "(\<exists>n t. rep = Changed n t) \<or> (\<exists>p. rep = PolicySet p)"
    and "manager s' = Some m" "objs m = prog"
    and "\<forall>t. t |\<in>| BlacklistTargets m |\<union>| WhitelistTargets m \<longrightarrow> utf8Clean t = t"
    and "ReadFile (system_os env) (stateFile s) found = ReadFile (system_os env) (stateFile s) w'"
    and "restoreRulesState (system_os env) (geo_db env) (stateFile s) (Some (NewMapManager prog), g, found)
      = (Some m', g', found')"
  shows "BlacklistTargets m' = BlacklistTargets m \<and> WhitelistTargets m' = WhitelistTargets m \<and>
    (snd (SetGeoIPPolicy (NewMapManager prog) (fst (GetGeoIPPolicy m w')) found) = None \<longrightarrow>
       GetGeoIPPolicy m' found' = (fst (GetGeoIPPolicy m w'), None))"
proof -
  have "saved_rules (system_os env) view s' w' \<and> stateFile s' = stateFile s"
    if "handlerOf env ep r (s\<lparr>limiter := l\<rparr>, w) = (rep, s', w')" for l
    using change_saves[OF _ _ assms(3) that assms(7)] assms(4,5) by simp
  with assms(6,7) have "saved_rules (system_os env) view s' w'" "stateFile s' = stateFile s"
    by (auto simp: serveAPI_eq Let_def split: if_splits)
  then obtain saved where saved: "view saved = view w'"
      "ReadFile (system_os env) (stateFile s) w' = Some (marshalState (currentState (system_os env) m saved))"
    using assms(8) by (auto simp: saved_rules_def)
  have "GetGeoIPPolicy m saved = GetGeoIPPolicy m w'"
    using config_read[of m view 2 saved] config_read[of m view 2 w'] assms(2,9) saved(1)
    by (simp add: GetGeoIPPolicy_def)
  moreover from assms(5) have "stateFile s \<noteq> []" by (simp add: writable_def)
  from restart_run[OF assms(1,2) this _ assms(10,12), of saved] saved(2) assms(11)
  have "BlacklistTargets m' = BlacklistTargets m \<and> WhitelistTargets m' = WhitelistTargets m \<and>
    (snd (SetGeoIPPolicy (NewMapManager prog) (fst (GetGeoIPPolicy m saved)) found) = None \<longrightarrow>
       GetGeoIPPolicy m' found' = (fst (GetGeoIPPolicy m saved), None))" by simp
  ultimately show ?thesis by simp
qed

lemma refOS_disk: "disk_contract refOS ''rules.json''" "writable refOS ''rules.json''"
proof -
  show "disk_contract refOS ''rules.json''"
    by (auto simp: disk_contract_def refOS_def update_conv' split: option.splits)
  have "\<not> HasSuffix ''rules.json'' ''/mitigation.log''" by code_simp
  then show "writable refOS ''rules.json''" by (simp add: writable_def refOS_def)
qed

theorem acknowledged_change_survives_restart_witness:
  "\<exists>m2. fst (restoreRulesState refOS refDB ''rules.json'' (Some (NewMapManager refObjs), None,
       snd (snd (serveAPI refEnv Blacklist (sampleRequest ''POST'' ''target=198.51.100.7'') (refServer, emptyWorld)))))
     = Some m2 \<and> BlacklistTargets m2 = {|''198.51.100.7''|}"
proof -
  let ?r = "sampleRequest ''POST'' ''target=198.51.100.7''" and ?fresh = "NewMapManager refObjs"
  let ?m = "?fresh\<lparr>BlacklistTargets := {|''198.51.100.7''|}\<rparr>"
  obtain rep s' w' where run: "serveAPI refEnv Blacklist ?r (refServer, emptyWorld) = (rep, s', w')"
    by (metis prod.collapse)
  have env: "system_os refEnv = refOS" "geo_db refEnv = refDB" "stateFile refServer = ''rules.json''"
    by (simp_all add: refEnv_def refServer_def)
  have "fst (serveAPI refEnv Blacklist ?r (refServer, emptyWorld)) = Changed 1 ''198.51.100.7''" by code_simp
  then have rep: "rep = Changed 1 ''198.51.100.7''" using run by simp
  have "targetParam ?r = ''198.51.100.7''" by code_simp
  then have m: "manager s' = Some ?m"
    using run rep by (auto simp: serveAPI_eq handleBlacklist_def blacklistPost_def AddBlacklistTarget_def
        targetCIDRs_def isCountryCode_def refServer_def refManager_def NewMapManager_def sampleRequest_def Let_def
        split: if_splits prod.splits)
  obtain mm g2 v2 where restore: "restoreRulesState refOS refDB ''rules.json'' (Some ?fresh, None, w') = (mm, g2, v2)"
    by (metis prod.collapse)
  then obtain m2 where m2: "mm = Some m2"
    by (auto simp: restoreRulesState_def split: if_splits option.splits prod.splits)
  have clean: "\<forall>t. t |\<in>| BlacklistTargets ?m |\<union>| WhitelistTargets ?m \<longrightarrow> utf8Clean t = t"
    by (auto simp: NewMapManager_def utf8Clean_ascii byteVal_def)
  have "BlacklistTargets m2 = BlacklistTargets ?m"
    using acknowledged_change_survives_restart[where env = refEnv and view = refView and prog = refObjs
        and s = refServer and found = w' and m = ?m and g = None and found' = v2 and g' = g2 and m' = m2,
        OF _ refObjs_contract _ _ _ run _ m _ clean] restore m2 rep refOS_order refOS_frame refOS_disk
    by (simp add: env NewMapManager_def)
  with run restore m2 show ?thesis by simp
qed

end
