(* ===== verification/Attach.thy ===== *)
theory Attach
  imports Startup
begin

text \<open>
  What loading and closing the XDP program (\<open>loader.go\<close>) do to the interfaces: the documented
  behaviour of \<open>netlink\<close> as a contract, and the outcomes of \<open>LoadXDPProgram\<close> under it.
\<close>

text \<open>
  A link has two slots for a program, one run by the driver and one run by the generic path of the
  kernel.  The flags of a call choose the slot; without a flag it is the driver's when the driver
  supports XDP (\<open>native\<close>), else the generic one.
\<close>

datatype xdp_slot = Driver | Generic

definition otherSlot :: "xdp_slot \<Rightarrow> xdp_slot" where
  "otherSlot m = (case m of Driver \<Rightarrow> Generic | Generic \<Rightarrow> Driver)"

definition slotOf :: "('l \<Rightarrow> bool) \<Rightarrow> 'l \<Rightarrow> nat \<Rightarrow> xdp_slot" where
  "slotOf native l flags =
     (if flags = DRV_MODE then Driver else if flags = SKB_MODE then Generic
      else if native l then Driver else Generic)"

lemma slotOf_simps [simp]:
  "slotOf native l DRV_MODE = Driver" "slotOf native l SKB_MODE = Generic"
  "slotOf native l 0 = (if native l then Driver else Generic)"
  by (simp_all add: slotOf_def DRV_MODE_def SKB_MODE_def)

definition putSlot ::
  "('l \<Rightarrow> xdp_slot \<Rightarrow> int option) \<Rightarrow> 'l \<Rightarrow> xdp_slot \<Rightarrow> int option \<Rightarrow> 'l \<Rightarrow> xdp_slot \<Rightarrow> int option" where
  "putSlot a l m v = a(l := (a l)(m := v))"

text \<open>
  The calls, with \<open>attached\<close> for the descriptors in the slots.  Setting descriptor -1 empties the slot the
  flags choose, and only that one; setting a program fills it, which the kernel does only while the
  other slot is empty; a call that fails changes nothing; and loading, pinning and making directories
  attach nothing.
\<close>

definition xdp_contract ::
  "'w goos \<Rightarrow> ('l, 'w) xdp_api \<Rightarrow> ('l \<Rightarrow> bool) \<Rightarrow> ('w \<Rightarrow> 'l \<Rightarrow> xdp_slot \<Rightarrow> int option) \<Rightarrow> bool" where
  "xdp_contract os x native attached \<longleftrightarrow>
     (\<forall>l f w w'. f \<in> {0, SKB_MODE, DRV_MODE} \<longrightarrow> LinkSetXdpFdWithFlags x l (- 1) f w = (w', True) \<longrightarrow>
        attached w' = putSlot (attached w) l (slotOf native l f) None) \<and>
     (\<forall>l fd f w w'. 0 \<le> fd \<longrightarrow> f \<in> {0, SKB_MODE, DRV_MODE} \<longrightarrow>
        LinkSetXdpFdWithFlags x l fd f w = (w', True) \<longrightarrow>
        attached w l (otherSlot (slotOf native l f)) = None \<and>
        attached w' = putSlot (attached w) l (slotOf native l f) (Some fd)) \<and>
     (\<forall>l fd f w w'. LinkSetXdpFdWithFlags x l fd f w = (w', False) \<longrightarrow> attached w' = attached w) \<and>
     (\<forall>n p w. attached (PinMap x n p w) = attached w) \<and>
     (\<forall>d w. attached (fst (MkdirAll os d w)) = attached w) \<and>
     (\<forall>f d w. attached (fst (LoadAndAssign x f d w)) = attached w) \<and>
     (\<forall>f d w w' m fd. LoadAndAssign x f d w = (w', Some (m, fd)) \<longrightarrow> 0 \<le> fd)"

lemma xdp_contractD:
  assumes "xdp_contract os x native attached"
  shows "LinkSetXdpFdWithFlags x l (- 1) 0 w = (w', True) \<Longrightarrow>
      attached w' = putSlot (attached w) l (slotOf native l 0) None"
    "0 \<le> fd \<Longrightarrow> LinkSetXdpFdWithFlags x l fd DRV_MODE w = (w', True) \<Longrightarrow>
      attached w l Generic = None \<and> attached w' = putSlot (attached w) l Driver (Some fd)"
    "0 \<le> fd \<Longrightarrow> LinkSetXdpFdWithFlags x l fd SKB_MODE w = (w', True) \<Longrightarrow>
      attached w l Driver = None \<and> attached w' = putSlot (attached w) l Generic (Some fd)"
    "LinkSetXdpFdWithFlags x l fd f w = (w', False) \<Longrightarrow> attached w' = attached w"
    "LoadAndAssign x obj d w = (w', Some (m, fd)) \<Longrightarrow> 0 \<le> fd \<and> attached w' = attached w"
proof -
  note c0 = assms[unfolded xdp_contract_def]
  note c = conjunct1[OF c0, rule_format] conjunct1[OF conjunct2[OF c0], rule_format]
  show "LinkSetXdpFdWithFlags x l (- 1) 0 w = (w', True) \<Longrightarrow>
      attached w' = putSlot (attached w) l (slotOf native l 0) None"
    using c(1)[of 0 l w w'] by simp
  show "0 \<le> fd \<Longrightarrow> LinkSetXdpFdWithFlags x l fd DRV_MODE w = (w', True) \<Longrightarrow>
      attached w l Generic = None \<and> attached w' = putSlot (attached w) l Driver (Some fd)"
    using c(2)[of fd DRV_MODE l w w'] by (simp add: otherSlot_def)
  show "0 \<le> fd \<Longrightarrow> LinkSetXdpFdWithFlags x l fd SKB_MODE w = (w', True) \<Longrightarrow>
      attached w l Driver = None \<and> attached w' = putSlot (attached w) l Generic (Some fd)"
    using c(2)[of fd SKB_MODE l w w'] by (simp add: otherSlot_def)
  show "LinkSetXdpFdWithFlags x l fd f w = (w', False) \<Longrightarrow> attached w' = attached w"
    using assms unfolding xdp_contract_def by metis
  show "LoadAndAssign x obj d w = (w', Some (m, fd)) \<Longrightarrow> 0 \<le> fd \<and> attached w' = attached w"
    using assms unfolding xdp_contract_def by (metis fst_conv)
qed

lemma pinShared_attached:
  assumes "xdp_contract os x native attached"
  shows "attached (pinShared x w) = attached w"
  using assms by (simp add: pinShared_def xdp_contract_def)

text \<open>
  Apart from one link nothing changed, and of that link's slots each is empty or as it was.
\<close>

definition at_most_detached :: "'l \<Rightarrow> ('l \<Rightarrow> xdp_slot \<Rightarrow> int option) \<Rightarrow> ('l \<Rightarrow> xdp_slot \<Rightarrow> int option) \<Rightarrow> bool" where
  "at_most_detached l a b \<longleftrightarrow> (\<forall>m. b l m \<in> {None, a l m}) \<and> (\<forall>k. k \<noteq> l \<longrightarrow> b k = a k)"

lemma at_most_detached_trans:
  "at_most_detached l a b \<Longrightarrow> at_most_detached l b c \<Longrightarrow> at_most_detached l a c"
  unfolding at_most_detached_def by (metis insert_iff singletonD)

lemma detachOld_attached:
  assumes "xdp_contract os x native attached"
  shows "at_most_detached l (attached w) (attached (detachOld x l w))"
proof -
  obtain w' ok where r: "LinkSetXdpFdWithFlags x l (- 1) 0 w = (w', ok)" by fastforce
  with xdp_contractD(1,4)[OF assms] have "attached w' = attached w \<or>
      attached w' = putSlot (attached w) l (slotOf native l 0) None" by (cases ok) auto
  with r show ?thesis by (auto simp: detachOld_def at_most_detached_def putSlot_def)
qed

text \<open>The two attempts: the driver's slot, and if that is refused the generic one.\<close>

lemma attachXDP_attached:
  assumes xc: "xdp_contract os x native attached" and fd: "0 \<le> fd" and run: "attachXDP x l fd w = (w', ok)"
    and drv: "LinkSetXdpFdWithFlags x l fd DRV_MODE w = (w1, ok1)"
    and skb: "LinkSetXdpFdWithFlags x l fd SKB_MODE w1 = (w2, ok2)"
  shows "ok = (ok1 \<or> ok2)"
    "ok1 \<Longrightarrow> attached w' l = (\<lambda>_. None)(Driver := Some fd)"
    "\<not> ok1 \<Longrightarrow> ok2 \<Longrightarrow> attached w' l = (\<lambda>_. None)(Generic := Some fd)"
    "\<not> ok \<Longrightarrow> attached w' = attached w"
    "k \<noteq> l \<Longrightarrow> attached w' k = attached w k"
proof -
  have slots: "a = b" if "a Driver = b Driver" "a Generic = b Generic" for a b :: "xdp_slot \<Rightarrow> int option"
    using that by (intro ext) (metis xdp_slot.exhaust)
  show "ok = (ok1 \<or> ok2)"
    "ok1 \<Longrightarrow> attached w' l = (\<lambda>_. None)(Driver := Some fd)"
    "\<not> ok1 \<Longrightarrow> ok2 \<Longrightarrow> attached w' l = (\<lambda>_. None)(Generic := Some fd)"
    "\<not> ok \<Longrightarrow> attached w' = attached w"
    "k \<noteq> l \<Longrightarrow> attached w' k = attached w k"
    using run drv skb xdp_contractD(2)[OF xc fd, of l w w1] xdp_contractD(3)[OF xc fd, of l w1 w2]
      xdp_contractD(4)[OF xc, of l fd DRV_MODE w w1] xdp_contractD(4)[OF xc, of l fd SKB_MODE w1 w2]
    by (auto simp: attachXDP_def putSlot_def intro!: slots split: bool.splits)
qed

text \<open>The preparations between loading the program and attaching it: detaching, and pinning the shared maps.\<close>

definition beforeAttach :: "'w goos \<Rightarrow> ('l, 'w) xdp_api \<Rightarrow> 'l \<Rightarrow> 'w \<Rightarrow> 'w" where
  "beforeAttach os x l w =
     detachOld x l (pinShared x (fst (MkdirAll os pinDir (detachOld x l (detachOld x l w)))))"

lemma LoadXDPProgram_steps:
  "LinkByName x iface w = Some l \<Longrightarrow> LoadCollectionSpec x obj w \<Longrightarrow>
   LoadAndAssign x obj pinDir w = (w1, Some (m, fd)) \<Longrightarrow>
   LoadXDPProgram os x iface obj w =
     (case attachXDP x l fd (beforeAttach os x l w1) of
        (w5, ok) \<Rightarrow> (w5, if ok then Inr \<lparr>prog_objs = m, ifaceName = iface\<rparr> else Inl AttachFailed))"
  by (simp add: LoadXDPProgram_def beforeAttach_def Let_def split: bool.splits prod.splits)

lemma beforeAttach_attached:
  assumes "xdp_contract os x native attached"
  shows "at_most_detached l (attached w) (attached (beforeAttach os x l w))"
proof -
  let ?d = "detachOld x l (detachOld x l w)"
  have "attached (pinShared x (fst (MkdirAll os pinDir ?d))) = attached ?d"
    using assms by (simp add: pinShared_attached[OF assms]) (simp add: xdp_contract_def)
  then show ?thesis
    using detachOld_attached[OF assms] at_most_detached_trans unfolding beforeAttach_def by metis
qed

text \<open>
  C32: Loading the program has three outcomes.  It is attached to the interface with the descriptor of the
  program that was loaded: in the driver's slot when the kernel takes that, and otherwise, when the
  kernel takes the second attempt, in the generic slot, and it is then the only program of the
  interface.  Or attaching was refused in both modes, and then the interface runs at most what it ran
  before.  Or the interface, the object file or the kernel refused before that, and then every program
  is still in place.  Other interfaces are never touched.
\<close>

theorem load_attach_outcomes:
  assumes xc: "xdp_contract os x native attached" and run: "LoadXDPProgram os x iface objPath w = (w', res)"
  shows "if LinkByName x iface w = None \<or> \<not> LoadCollectionSpec x objPath w \<or>
      snd (LoadAndAssign x objPath pinDir w) = None
    then res \<in> {Inl NoInterface, Inl BadObjectFile, Inl LoadFailed} \<and> attached w' = attached w
    else \<exists>l w1 m fd drv skb. LinkByName x iface w = Some l \<and>
      LoadAndAssign x objPath pinDir w = (w1, Some (m, fd)) \<and>
      drv = LinkSetXdpFdWithFlags x l fd DRV_MODE (beforeAttach os x l w1) \<and>
      skb = LinkSetXdpFdWithFlags x l fd SKB_MODE (fst drv) \<and>
      (\<forall>k. k \<noteq> l \<longrightarrow> attached w' k = attached w k) \<and>
      (if snd drv then res = Inr \<lparr>prog_objs = m, ifaceName = iface\<rparr> \<and>
         attached w' l = (\<lambda>_. None)(Driver := Some fd)
       else if snd skb then res = Inr \<lparr>prog_objs = m, ifaceName = iface\<rparr> \<and>
         attached w' l = (\<lambda>_. None)(Generic := Some fd)
       else res = Inl AttachFailed \<and> (\<forall>s. attached w' l s \<in> {None, attached w l s}))"
proof (cases "LinkByName x iface w = None \<or> \<not> LoadCollectionSpec x objPath w \<or>
    snd (LoadAndAssign x objPath pinDir w) = None")
  case True
  have "attached (fst (LoadAndAssign x objPath pinDir w)) = attached w" using xc by (simp add: xdp_contract_def)
  with True run show ?thesis
    by (auto simp: LoadXDPProgram_def split: option.splits if_splits prod.splits)
next
  case False
  then obtain l w1 m fd where l: "LinkByName x iface w = Some l" "LoadCollectionSpec x objPath w"
    and ld: "LoadAndAssign x objPath pinDir w = (w1, Some (m, fd))"
    by (metis (no_types, lifting) not_None_eq prod.collapse)
  note fd = conjunct1[OF xdp_contractD(5)[OF xc ld]] and a1 = conjunct2[OF xdp_contractD(5)[OF xc ld]]
  let ?w4 = "beforeAttach os x l w1"
  have a4: "at_most_detached l (attached w) (attached ?w4)"
    using beforeAttach_attached[OF xc, of l w1] a1 by simp
  obtain v1 ok1 where drv: "LinkSetXdpFdWithFlags x l fd DRV_MODE ?w4 = (v1, ok1)" by fastforce
  obtain v2 ok2 where skb: "LinkSetXdpFdWithFlags x l fd SKB_MODE v1 = (v2, ok2)" by fastforce
  obtain w5 ok where at: "attachXDP x l fd ?w4 = (w5, ok)" by fastforce
  note slots = attachXDP_attached[OF xc fd at drv skb]
  have res: "w' = w5" "res = (if ok then Inr \<lparr>prog_objs = m, ifaceName = iface\<rparr> else Inl AttachFailed)"
    using run at by (simp_all add: LoadXDPProgram_steps[OF l ld])
  have "\<forall>k. k \<noteq> l \<longrightarrow> attached w' k = attached w k" using slots(5) a4 res(1) by (simp add: at_most_detached_def)
  moreover have "if ok1 then res = Inr \<lparr>prog_objs = m, ifaceName = iface\<rparr> \<and> attached w' l = (\<lambda>_. None)(Driver := Some fd)
       else if ok2 then res = Inr \<lparr>prog_objs = m, ifaceName = iface\<rparr> \<and> attached w' l = (\<lambda>_. None)(Generic := Some fd)
       else res = Inl AttachFailed \<and> (\<forall>s. attached w' l s \<in> {None, attached w l s})"
    using slots(1,2,3,4) res a4 by (auto simp: at_most_detached_def)
  ultimately show ?thesis using False l ld drv skb by (simp only: if_False) auto
qed

text \<open>
  Closing the program empties the slot the kernel takes without a flag, if the interface is still there
  and can be written.  A program the fallback has put into the generic slot of a driver that supports
  XDP is not in that slot, and stays.
\<close>

lemma close_detaches:
  assumes "xdp_contract os x native attached" "ifaceName prog \<noteq> []" "LinkByName x (ifaceName prog) w = Some link"
  shows "attached (CloseXDP x prog w) =
    (if snd (LinkSetXdpFdWithFlags x link (- 1) 0 w)
     then putSlot (attached w) link (slotOf native link 0) None else attached w)"
proof -
  obtain w' ok where r: "LinkSetXdpFdWithFlags x link (- 1) 0 w = (w', ok)" by fastforce
  with xdp_contractD(1,4)[OF assms(1)] assms(2,3) show ?thesis by (cases ok) (auto simp: CloseXDP_def)
qed

text \<open>A machine with one interface, whose driver does not support XDP.\<close>

definition refXdp :: "(string, world) xdp_api" where
  "refXdp =
     \<lparr>LinkByName = (\<lambda>n w. if n = ''eth0'' then Some n else None),
      LoadCollectionSpec = (\<lambda>f w. True),
      LoadAndAssign = (\<lambda>f d w. (w, Some (refObjs, 7))),
      LinkSetXdpFdWithFlags = (\<lambda>l fd flags w.
        if flags = DRV_MODE then (w, False)
        else if fd < 0 then (w\<lparr>wXdp := AList.delete l (wXdp w)\<rparr>, True)
        else (w\<lparr>wXdp := AList.update l fd (wXdp w)\<rparr>, True)),
      PinMap = (\<lambda>n p w. w),
      RemoveAll = (\<lambda>d w. w)\<rparr>"

definition refSlots :: "world \<Rightarrow> string \<Rightarrow> xdp_slot \<Rightarrow> int option" where
  "refSlots w l m = (case m of Driver \<Rightarrow> None | Generic \<Rightarrow> map_of (wXdp w) l)"

lemma refXdp_contract: "xdp_contract refOS refXdp (\<lambda>_. False) refSlots"
  by (auto simp: xdp_contract_def refXdp_def refOS_def update_conv' delete_conv' refSlots_def putSlot_def otherSlot_def
      slotOf_def SKB_MODE_def DRV_MODE_def fun_eq_iff split: if_splits xdp_slot.splits)

theorem load_attach_outcomes_witness:
  "map_of (wXdp (fst (LoadXDPProgram refOS refXdp ''eth0'' ''xdp.o'' (emptyWorld\<lparr>wXdp := [(''eth0'', 3)]\<rparr>)))) ''eth0'' = Some 7"
proof -
  let ?w = "emptyWorld\<lparr>wXdp := [(''eth0'', 3)]\<rparr>"
  obtain w' res where run: "LoadXDPProgram refOS refXdp ''eth0'' ''xdp.o'' ?w = (w', res)" by fastforce
  have ok: "\<not> snd (LinkSetXdpFdWithFlags refXdp ''eth0'' 7 DRV_MODE v)" "snd (LinkSetXdpFdWithFlags refXdp ''eth0'' 7 SKB_MODE v)" for v
    by (simp_all add: refXdp_def SKB_MODE_def DRV_MODE_def)
  have early: "\<not> (LinkByName refXdp ''eth0'' ?w = None \<or> \<not> LoadCollectionSpec refXdp ''xdp.o'' ?w \<or>
      snd (LoadAndAssign refXdp ''xdp.o'' pinDir ?w) = None)" by (simp add: refXdp_def)
  have api: "LinkByName refXdp ''eth0'' ?w = Some ''eth0''"
    "LoadAndAssign refXdp ''xdp.o'' pinDir ?w = (?w, Some (refObjs, 7))" by (simp_all add: refXdp_def)
  have "refSlots w' ''eth0'' = (\<lambda>_. None)(Generic := Some 7)"
    using load_attach_outcomes[OF refXdp_contract run, unfolded if_not_P[OF early]] api ok by auto
  then have "refSlots w' ''eth0'' Generic = Some 7" by simp
  with run show ?thesis by (simp add: refSlots_def)
qed

end
