(* ===== verification/Interleave.thy ===== *)
theory Interleave
  imports RuleBook Recovery
begin

text \<open>
  Requests that run at the same time.  The server gives every request a goroutine of its own, and the
  engine is another; they share the manager, the maps and the state file.  What a goroutine does to
  them is cut here at the locks: every section under the lock of the manager, every call of the
  kernel, the three readings and the write of \<open>saveRulesState\<close>, under \<open>stateMutex\<close>, and every line of
  the log is one step, and the steps of different goroutines come in any order.
\<close>

subsection \<open>Sections\<close>

datatype lock_section =
    BlockSec string | AllowSec string | TrustSec string | DistrustSec string
  | ListBlack string | UnlistBlack string | ListWhite string | UnlistWhite string
  | CheckEmpty | SetPolicySec u64 | RequirePolicy u64
  | LockState | ReadPolicy | ReadBlack | ReadWhite | WriteState
  | LogSec string string string

text \<open>
  What a section works on: the local variable \<open>state\<close> of a goroutine in \<open>saveRulesState\<close>, the manager
  and the world.  A section also says what is left to do after it: \<open>handleWhitelist\<close> finds the
  whitelist empty or not, and \<open>handleRulesPolicy\<close> returns when the policy is refused.
\<close>

type_synonym 'w memory = "RulesState \<times> 'w MapManager \<times> 'w"

fun runSection ::
  "'w goos \<Rightarrow> string \<Rightarrow> lock_section \<Rightarrow> lock_section list \<Rightarrow> 'w memory \<Rightarrow> lock_section list \<times> 'w memory" where
  "runSection os f (BlockSec c) rest (st, m, w) = (rest, st, m, fst (BlockCIDR os m c w))"
| "runSection os f (AllowSec c) rest (st, m, w) = (rest, st, m, fst (AllowCIDR m c w))"
| "runSection os f (TrustSec c) rest (st, m, w) = (rest, st, m, fst (AddWhitelistCIDR m c w))"
| "runSection os f (DistrustSec c) rest (st, m, w) = (rest, st, m, fst (RemoveWhitelistCIDR m c w))"
| "runSection os f (ListBlack t) rest (st, mw) = (rest, st, AddBlacklistTarget t mw)"
| "runSection os f (UnlistBlack t) rest (st, mw) = (rest, st, RemoveBlacklistTarget t mw)"
| "runSection os f (ListWhite t) rest (st, mw) = (rest, st, AddWhitelistTarget t mw)"
| "runSection os f (UnlistWhite t) rest (st, mw) = (rest, st, RemoveWhitelistTarget t mw)"
| "runSection os f CheckEmpty rest (st, m, w) =
     (if length (GetWhitelistTargets os (m, w)) = 0
      then SetPolicySec 0 # LogSec ''POLICY_UPDATE'' ''0'' fallbackReason # rest else rest, st, m, w)"
| "runSection os f (SetPolicySec p) rest (st, m, w) = (rest, st, m, fst (SetGeoIPPolicy m p w))"
| "runSection os f (RequirePolicy p) rest (st, m, w) =
     (case SetGeoIPPolicy m p w of (w', err) \<Rightarrow> (if err = None then rest else [], st, m, w'))"
| "runSection os f LockState rest (st, m, w) = (rest, st, m, w)"
| "runSection os f ReadPolicy rest (st, m, w) = (rest, st\<lparr>GeoIPPolicy := fst (GetGeoIPPolicy m w)\<rparr>, m, w)"
| "runSection os f ReadBlack rest (st, m, w) =
     (rest, st\<lparr>StateBlacklist := GetBlacklistTargets os (m, w)\<rparr>, m, w)"
| "runSection os f ReadWhite rest (st, m, w) =
     (rest, st\<lparr>StateWhitelist := GetWhitelistTargets os (m, w)\<rparr>, m, w)"
| "runSection os f WriteState rest (st, m, w) = (rest, st, m, fst (WriteFile os f (marshalState st) w))"
| "runSection os f (LogSec event ip reason) rest (st, m, w) =
     (rest, st, m, writeMitigationLog os event ip reason 0 w)"

text \<open>\<open>saveRulesState\<close>; the lock is given back with the write.\<close>

definition saveSections :: "string \<Rightarrow> lock_section list" where
  "saveSections f = (if f = [] then [] else [LockState, ReadPolicy, ReadBlack, ReadWhite, WriteState])"

text \<open>
  The changes a goroutine can be at: the four changes of a list with the blocks the target stands for,
  the change of the policy, and the end of a tick that found expired blocks.
\<close>

datatype change =
    PostBlack string "string list" | DeleteBlack string "string list"
  | PostWhite string "string list" | DeleteWhite string "string list"
  | PostPolicy u64 | Expired string "string list"

definition expireSections :: "string \<Rightarrow> lock_section list" where
  "expireSections ip =
     [LogSec ''auto_unblock'' ip ''Blacklist TTL expired'', UnlistBlack ip]
     @ (if HasSuffix ip ''/32'' then [UnlistBlack (TrimSuffix ip ''/32'')] else [])"

definition blacklistPostSections :: "string \<Rightarrow> string \<Rightarrow> string list \<Rightarrow> lock_section list" where
  "blacklistPostSections f t cidrs =
     map BlockSec cidrs @ ListBlack t # saveSections f @ [LogSec ''BLACKLIST_ADD'' t ''User manually blacklisted'']"

definition blacklistDeleteSections :: "string \<Rightarrow> string \<Rightarrow> string list \<Rightarrow> lock_section list" where
  "blacklistDeleteSections f t cidrs =
     map AllowSec cidrs @ UnlistBlack t # saveSections f
     @ [LogSec ''BLACKLIST_REMOVE'' t ''User manually un-blacklisted'']"

definition whitelistPostSections :: "string \<Rightarrow> string \<Rightarrow> string list \<Rightarrow> lock_section list" where
  "whitelistPostSections f t cidrs =
     map TrustSec cidrs @ ListWhite t # saveSections f @ [LogSec ''WHITELIST_ADD'' t ''User added to whitelist'']"

definition whitelistDeleteSections :: "string \<Rightarrow> string \<Rightarrow> string list \<Rightarrow> lock_section list" where
  "whitelistDeleteSections f t cidrs =
     map DistrustSec cidrs @ UnlistWhite t # CheckEmpty # saveSections f
     @ [LogSec ''WHITELIST_REMOVE'' t ''User removed from whitelist'']"

definition policySections :: "string \<Rightarrow> u64 \<Rightarrow> lock_section list" where
  "policySections f p =
     RequirePolicy p # saveSections f @ [LogSec ''POLICY_UPDATE'' (itoa (uint p)) ''User updated GeoIP Policy'']"

definition expiredSections :: "string \<Rightarrow> string list \<Rightarrow> lock_section list" where
  "expiredSections f ips = concat (map expireSections ips) @ saveSections f"

fun sectionsOf :: "string \<Rightarrow> change \<Rightarrow> lock_section list" where
  "sectionsOf f (PostBlack t cs) = blacklistPostSections f t cs"
| "sectionsOf f (DeleteBlack t cs) = blacklistDeleteSections f t cs"
| "sectionsOf f (PostWhite t cs) = whitelistPostSections f t cs"
| "sectionsOf f (DeleteWhite t cs) = whitelistDeleteSections f t cs"
| "sectionsOf f (PostPolicy p) = policySections f p"
| "sectionsOf f (Expired ip ips) = expiredSections f (ip # ips)"

lemmas section_lists = blacklistPostSections_def blacklistDeleteSections_def whitelistPostSections_def
  whitelistDeleteSections_def policySections_def expiredSections_def

declare section_lists [simp]

text \<open>One goroutine alone, to its end.\<close>

fun sectionCost :: "lock_section \<Rightarrow> nat" where
  "sectionCost CheckEmpty = 3"
| "sectionCost _ = 1"

abbreviation cost :: "lock_section list \<Rightarrow> nat" where
  "cost xs \<equiv> sum_list (map sectionCost xs)"

lemma runSection_cost: "cost (fst (runSection os f x rest mem)) < cost (x # rest)"
proof -
  obtain st m w where mem: "mem = (st, m, w)" by (metis prod.collapse)
  show ?thesis unfolding mem by (cases x) (simp_all add: case_prod_beta)
qed

function runAlone :: "'w goos \<Rightarrow> string \<Rightarrow> lock_section list \<Rightarrow> 'w memory \<Rightarrow> 'w memory" where
  "runAlone os f [] mem = mem"
| "runAlone os f (x # rest) mem =
     runAlone os f (fst (runSection os f x rest mem)) (snd (runSection os f x rest mem))"
  by pat_completeness auto
termination
  by (relation "measure (\<lambda>(os, f, xs, mem). cost xs)") (simp_all only: wf_measure in_measure prod.case runSection_cost)

subsection \<open>The pool of goroutines\<close>

type_synonym goroutine = "lock_section list \<times> RulesState"

record 'w pool =
  threads :: "goroutine list"
  stateMutex :: "nat option"
  poolManager :: "'w MapManager"
  poolWorld :: 'w

text \<open>A step of the \<open>i\<close>-th goroutine; it has none when it is done or waits for the lock.\<close>

definition poolStep :: "'w goos \<Rightarrow> string \<Rightarrow> nat \<Rightarrow> 'w pool \<Rightarrow> 'w pool option" where
  "poolStep os f i p =
     (if i < length (threads p) then
        (case threads p ! i of
           ([], st) \<Rightarrow> None
         | (x # rest, st) \<Rightarrow>
             (if x = LockState \<and> stateMutex p \<noteq> None then None
              else case runSection os f x rest (st, poolManager p, poolWorld p) of
                (todo, st', m', w') \<Rightarrow>
                  Some \<lparr>threads = (threads p)[i := (todo, st')],
                    stateMutex = (if x = LockState then Some i else if x = WriteState then None else stateMutex p),
                    poolManager = m', poolWorld = w'\<rparr>))
      else None)"

fun poolRun :: "'w goos \<Rightarrow> string \<Rightarrow> nat list \<Rightarrow> 'w pool \<Rightarrow> 'w pool option" where
  "poolRun os f [] p = Some p"
| "poolRun os f (i # is) p = (case poolStep os f i p of None \<Rightarrow> None | Some p' \<Rightarrow> poolRun os f is p')"

definition zeroState :: RulesState where
  "zeroState = \<lparr>GeoIPPolicy = 0, StateBlacklist = [], StateWhitelist = []\<rparr>"

definition spawn :: "string \<Rightarrow> change \<Rightarrow> goroutine" where
  "spawn f c = (sectionsOf f c, zeroState)"

definition startPool :: "string \<Rightarrow> change list \<Rightarrow> 'w MapManager \<Rightarrow> 'w \<Rightarrow> 'w pool" where
  "startPool f cs m w = \<lparr>threads = map (spawn f) cs, stateMutex = None, poolManager = m, poolWorld = w\<rparr>"

definition all_done :: "'w pool \<Rightarrow> bool" where
  "all_done p \<longleftrightarrow> list_all (\<lambda>t. fst t = []) (threads p)"

text \<open>
  The pools that can come up: a goroutine takes a step, a request arrives, or anything else happens in
  the world (packets, the rest of the engine, the clock) that neither sets the policy nor writes the
  state file.
\<close>

inductive pool_reachable ::
  "'w goos \<Rightarrow> string \<Rightarrow> ('w \<Rightarrow> kernel_view) \<Rightarrow> 'w pool \<Rightarrow> 'w pool \<Rightarrow> bool"
  for os f view p0 where
  pool_start: "pool_reachable os f view p0 p0"
| pool_step: "pool_reachable os f view p0 p \<Longrightarrow> poolStep os f i p = Some p' \<Longrightarrow> pool_reachable os f view p0 p'"
| pool_arrive: "pool_reachable os f view p0 p \<Longrightarrow>
    pool_reachable os f view p0 (p\<lparr>threads := threads p @ [spawn f c]\<rparr>)"
| pool_drift: "pool_reachable os f view p0 p \<Longrightarrow> vConfig (view w) 2 = vConfig (view (poolWorld p)) 2 \<Longrightarrow>
    ReadFile os f w = ReadFile os f (poolWorld p) \<Longrightarrow> pool_reachable os f view p0 (p\<lparr>poolWorld := w\<rparr>)"

subsection \<open>Alone, a goroutine does what its handler does\<close>

lemma runAlone_map:
  assumes "\<And>c rest st m w. runSection os f (sec c) rest (st, m, w) = (rest, st, m, g m c w)"
  shows "runAlone os f (map sec cs @ xs) (st, m, w) = runAlone os f xs (st, m, fold (g m) cs w)"
  by (induction cs arbitrary: w) (simp_all add: assms)

lemma fst_count_ok: "fst (count_ok (\<lambda>c w. succeeded (g c w)) cs (w, n)) = fold (\<lambda>c w. fst (g c w)) cs w"
  by (induction cs arbitrary: w n) (simp_all add: succeeded_def Let_def split: prod.splits)

lemma state_read:
  "st\<lparr>GeoIPPolicy := fst (GetGeoIPPolicy m w), StateBlacklist := GetBlacklistTargets os (m, w),
      StateWhitelist := GetWhitelistTargets os (m, w)\<rparr> = currentState os m w"
  by (cases st) (simp add: currentState_def)

lemma save_then_log:
  "snd (runAlone os f (saveSections f @ [LogSec e i r]) (st, m, w)) =
   (m, writeMitigationLog os e i r 0 (saveRulesState os f (Some m) w))"
  by (simp add: saveSections_def saveRulesState_def state_read)

lemma save_only: "snd (runAlone os f (saveSections f) (st, m, w)) = (m, saveRulesState os f (Some m) w)"
  by (simp add: saveSections_def saveRulesState_def state_read)

lemmas block_alone = runAlone_map[where sec = BlockSec, OF runSection.simps(1)]
  and allow_alone = runAlone_map[where sec = AllowSec, OF runSection.simps(2)]
  and trust_alone = runAlone_map[where sec = TrustSec, OF runSection.simps(3)]
  and distrust_alone = runAlone_map[where sec = DistrustSec, OF runSection.simps(4)]

lemma forgetTarget_alone:
  "runAlone os f (expireSections ip @ xs) (st, m, w) =
   runAlone os f xs (st, forgetTarget ip (m, writeMitigationLog os ''auto_unblock'' ip ''Blacklist TTL expired'' 0 w))"
  by (simp add: expireSections_def forgetTarget_def Let_def split: prod.splits)

lemma expired_alone:
  "runAlone os f (concat (map expireSections ips) @ xs) (st, m, w) =
   (case reportExpired os ips (m, out, w) of (m', out', w') \<Rightarrow> runAlone os f xs (st, m', w'))"
proof (induction ips arbitrary: m out w)
  case (Cons ip ips)
  obtain m2 w2 where t: "forgetTarget ip (m, writeMitigationLog os ''auto_unblock'' ip ''Blacklist TTL expired'' 0 w) = (m2, w2)"
    by fastforce
  with Cons.IH[of m2 w2 "out @ [SyncIP ''blacklist'' ''DELETE'' ip]"] show ?case
    by (simp add: forgetTarget_alone Let_def)
qed simp

text \<open>The manager and the world a handler leaves.\<close>

definition leaves :: "reply \<times> ('r, 'w) state \<Rightarrow> 'w MapManager option \<times> 'w" where
  "leaves = (\<lambda>(rep, s, w). (manager s, w))"

lemma handlers_alone:
  "leaves (blacklistPost os m t cs r (s, w)) =
     map_prod Some id (snd (runAlone os (stateFile s) (sectionsOf (stateFile s) (PostBlack t cs)) (st, m, w)))"
  "leaves (blacklistDelete os m t cs r (s, w)) =
     map_prod Some id (snd (runAlone os (stateFile s) (sectionsOf (stateFile s) (DeleteBlack t cs)) (st, m, w)))"
  "leaves (whitelistPost os m t cs r (s, w)) =
     map_prod Some id (snd (runAlone os (stateFile s) (sectionsOf (stateFile s) (PostWhite t cs)) (st, m, w)))"
  by (simp_all add: leaves_def blacklistPost_def blacklistDelete_def whitelistPost_def block_alone allow_alone
      trust_alone fst_count_ok case_prod_beta save_then_log[where m = "fst mw" and w = "snd mw" for mw, simplified]
      Let_def)

lemma whitelist_delete_alone:
  "leaves (whitelistDelete os m t cs r (s, w)) =
     map_prod Some id (snd (runAlone os (stateFile s) (sectionsOf (stateFile s) (DeleteWhite t cs)) (st, m, w)))"
proof -
  obtain m2 w2 where u: "RemoveWhitelistTarget t (m, fold (\<lambda>c w. fst (RemoveWhitelistCIDR m c w)) cs w) = (m2, w2)"
    by fastforce
  then show ?thesis
    by (simp add: leaves_def whitelistDelete_def distrust_alone fst_count_ok case_prod_beta save_then_log Let_def)
qed

lemma policy_alone:
  assumes "manager s = Some m" "ReqMethod r = ''POST''" "policyOf (param r ''action'') = Some p"
  shows "leaves (handleRulesPolicy os r (s, w)) =
     map_prod Some id (snd (runAlone os (stateFile s) (sectionsOf (stateFile s) (PostPolicy p)) (st, m, w)))"
  using assms by (auto simp: leaves_def handleRulesPolicy_def save_then_log Let_def split: prod.splits option.splits)

lemma expire_part_alone:
  assumes "CleanExpiredBlacklist os m (effectiveTTL (currentLevel (machine e)) (GetBlacklistCount m w)) w = ((ip # ips, None), w1)"
    and "expirePart os f m (e, w) = (e', w')"
  shows "(mapMgr e', w') = map_prod Some id (snd (runAlone os f (sectionsOf f (Expired ip ips)) (st, m, w1)))"
proof -
  obtain m2 out2 w2 where r: "reportExpired os (ip # ips) (m, outbox e, w1) = (m2, out2, w2)" by (metis prod.collapse)
  with expired_alone[of os f "ip # ips" "saveSections f" st m w1 "outbox e"] assms show ?thesis
    by (auto simp: expirePart_def save_only Let_def simp del: reportExpired.simps)
qed

subsection \<open>The shape of what is left to do\<close>

text \<open>Between \<open>LockState\<close> and \<open>WriteState\<close> a goroutine holds the lock.\<close>

fun inside :: "lock_section list \<Rightarrow> bool" where
  "inside [] = False"
| "inside (x # xs) = (x \<in> {ReadPolicy, ReadBlack, ReadWhite, WriteState})"

text \<open>A save still to come, which no refused policy can cancel.\<close>

definition commits :: "lock_section list \<Rightarrow> bool" where
  "commits xs \<longleftrightarrow> LockState \<in> set xs \<and> (\<forall>p. RequirePolicy p \<notin> set xs)"

definition only_logs :: "lock_section list \<Rightarrow> bool" where
  "only_logs xs \<longleftrightarrow> (\<forall>x \<in> set xs. \<exists>e i r. x = LogSec e i r)"

definition then_logs :: "lock_section list \<Rightarrow> lock_section list \<Rightarrow> bool" where
  "then_logs ks xs \<longleftrightarrow> (\<exists>ys. xs = ks @ ys \<and> only_logs ys)"

text \<open>What changes the rules is followed by a save, and a save is complete and comes last.\<close>

fun well_formed :: "lock_section list \<Rightarrow> bool" where
  "well_formed [] = True"
| "well_formed (x # xs) =
     (if x = LockState then then_logs [ReadPolicy, ReadBlack, ReadWhite, WriteState] xs
      else if x = ReadPolicy then then_logs [ReadBlack, ReadWhite, WriteState] xs
      else if x = ReadBlack then then_logs [ReadWhite, WriteState] xs
      else if x = ReadWhite then then_logs [WriteState] xs
      else if x = WriteState then only_logs xs
      else \<not> inside xs \<and> well_formed xs \<and> ((\<exists>e i r. x = LogSec e i r) \<or> commits xs))"

lemma only_logs_simps [simp]:
  "only_logs []"
  "only_logs (x # xs) \<longleftrightarrow> (\<exists>e i r. x = LogSec e i r) \<and> only_logs xs"
  by (auto simp: only_logs_def)

lemma only_logs_well_formed: "only_logs xs \<Longrightarrow> well_formed xs \<and> \<not> inside xs"
  by (induction xs) auto

lemma only_logs_no:
  "only_logs xs \<Longrightarrow> LockState \<notin> set xs" "only_logs xs \<Longrightarrow> RequirePolicy p \<notin> set xs"
  by (auto simp: only_logs_def)

text \<open>The states of a save, as explicit lists.\<close>

lemma well_formed_save:
  "well_formed (LockState # xs) \<longleftrightarrow> (\<exists>ys. xs = ReadPolicy # ReadBlack # ReadWhite # WriteState # ys \<and> only_logs ys)"
  "well_formed (ReadPolicy # xs) \<longleftrightarrow> (\<exists>ys. xs = ReadBlack # ReadWhite # WriteState # ys \<and> only_logs ys)"
  "well_formed (ReadBlack # xs) \<longleftrightarrow> (\<exists>ys. xs = ReadWhite # WriteState # ys \<and> only_logs ys)"
  "well_formed (ReadWhite # xs) \<longleftrightarrow> (\<exists>ys. xs = WriteState # ys \<and> only_logs ys)"
  "well_formed (WriteState # xs) \<longleftrightarrow> only_logs xs"
  by (auto simp: then_logs_def)

lemma well_formed_other:
  "x \<notin> {LockState, ReadPolicy, ReadBlack, ReadWhite, WriteState} \<Longrightarrow>
   well_formed (x # xs) \<longleftrightarrow> \<not> inside xs \<and> well_formed xs \<and> ((\<exists>e i r. x = LogSec e i r) \<or> commits xs)"
  by auto

lemma locked_reads:
  "well_formed xs \<Longrightarrow> LockState \<in> set xs \<Longrightarrow> ReadPolicy \<in> set xs \<and> ReadBlack \<in> set xs \<and> ReadWhite \<in> set xs"
proof (induction xs)
  case (Cons x xs)
  show ?case
  proof (cases "x \<in> {LockState, ReadPolicy, ReadBlack, ReadWhite, WriteState}")
    case True
    with Cons.prems show ?thesis
      by (auto simp: well_formed_save only_logs_no simp del: well_formed.simps)
  next
    case False
    with Cons show ?thesis by (auto simp: well_formed_other simp del: well_formed.simps)
  qed
qed simp

declare well_formed.simps(2) [simp del]

lemma saveSections_ok:
  assumes "f \<noteq> []" "only_logs ys"
  shows "well_formed (saveSections f @ ys) \<and> \<not> inside (saveSections f @ ys) \<and> commits (saveSections f @ ys)"
  using assms by (auto simp: saveSections_def well_formed_save commits_def only_logs_no)

lemma prepend_ok:
  assumes "well_formed ys \<and> \<not> inside ys \<and> commits ys"
    and "\<forall>x \<in> set xs. x \<notin> {LockState, ReadPolicy, ReadBlack, ReadWhite, WriteState} \<and> (\<forall>p. x \<noteq> RequirePolicy p)"
  shows "well_formed (xs @ ys) \<and> \<not> inside (xs @ ys) \<and> commits (xs @ ys)"
  using assms(2)
proof (induction xs)
  case (Cons x xs)
  then have "well_formed (xs @ ys) \<and> \<not> inside (xs @ ys) \<and> commits (xs @ ys)" by simp
  with Cons.prems show ?case by (auto simp: well_formed_other commits_def)
qed (use assms(1) in simp)

lemma spawn_shape:
  assumes "f \<noteq> []"
  shows "well_formed (sectionsOf f c) \<and> \<not> inside (sectionsOf f c) \<and>
    ((\<forall>p. c \<noteq> PostPolicy p) \<longrightarrow> commits (sectionsOf f c))"
proof -
  have one: "well_formed (xs @ saveSections f @ ys) \<and> \<not> inside (xs @ saveSections f @ ys) \<and>
      commits (xs @ saveSections f @ ys)"
    if "only_logs ys" "\<forall>x \<in> set xs. x \<notin> {LockState, ReadPolicy, ReadBlack, ReadWhite, WriteState} \<and> (\<forall>p. x \<noteq> RequirePolicy p)"
    for xs ys using prepend_ok[OF saveSections_ok[OF assms that(1)] that(2)] by simp
  show ?thesis
  proof (cases c)
    case (PostBlack t cs)
    show ?thesis using one[of "[_]" "map BlockSec cs @ [ListBlack t]"] PostBlack by auto
  next
    case (DeleteBlack t cs)
    show ?thesis using one[of "[_]" "map AllowSec cs @ [UnlistBlack t]"] DeleteBlack by auto
  next
    case (PostWhite t cs)
    show ?thesis using one[of "[_]" "map TrustSec cs @ [ListWhite t]"] PostWhite by auto
  next
    case (DeleteWhite t cs)
    show ?thesis using one[of "[_]" "map DistrustSec cs @ [UnlistWhite t, CheckEmpty]"] DeleteWhite by auto
  next
    case (PostPolicy p)
    show ?thesis using saveSections_ok[OF assms, of "[_]"] PostPolicy by (auto simp: well_formed_other)
  next
    case (Expired ip ips)
    show ?thesis using one[of "[]" "concat (map expireSections (ip # ips))"] Expired by (auto simp: expireSections_def)
  qed
qed

subsection \<open>What a section changes\<close>

text \<open>The three things the state file keeps; \<open>g\<close> is what writing and reading may make of a target.\<close>

datatype slot = PolicySlot | BlackSlot | WhiteSlot

fun agrees :: "(string \<Rightarrow> string) \<Rightarrow> slot \<Rightarrow> RulesState \<Rightarrow> 'w MapManager \<Rightarrow> 'w \<Rightarrow> bool" where
  "agrees g PolicySlot st m w \<longleftrightarrow> GeoIPPolicy st = fst (GetGeoIPPolicy m w)"
| "agrees g BlackSlot st m w \<longleftrightarrow> set (StateBlacklist st) = g ` fset (BlacklistTargets m)"
| "agrees g WhiteSlot st m w \<longleftrightarrow> set (StateWhitelist st) = g ` fset (WhitelistTargets m)"

fun readOf :: "slot \<Rightarrow> lock_section" where
  "readOf PolicySlot = ReadPolicy"
| "readOf BlackSlot = ReadBlack"
| "readOf WhiteSlot = ReadWhite"

text \<open>A goroutine that is certain to read the slot later, for a save it has begun or will make.\<close>

definition will_read :: "slot \<Rightarrow> lock_section list \<Rightarrow> bool" where
  "will_read c xs \<longleftrightarrow> readOf c \<in> set xs \<and> (\<forall>p. RequirePolicy p \<notin> set xs)"

definition maps_leave_file :: "'w bpfObjects \<Rightarrow> 'w goos \<Rightarrow> string \<Rightarrow> bool" where
  "maps_leave_file prog os f \<longleftrightarrow>
     (\<forall>k v w. ReadFile os f (fst (Put (CidrBlacklist prog) k v w)) = ReadFile os f w) \<and>
     (\<forall>k w. ReadFile os f (fst (Delete (CidrBlacklist prog) k w)) = ReadFile os f w) \<and>
     (\<forall>k v w. ReadFile os f (fst (Put (CidrWhitelist prog) k v w)) = ReadFile os f w) \<and>
     (\<forall>k w. ReadFile os f (fst (Delete (CidrWhitelist prog) k w)) = ReadFile os f w) \<and>
     (\<forall>k v w. ReadFile os f (fst (Put (ConfigMap prog) k v w)) = ReadFile os f w)"

text \<open>Everything the concurrent runs rely on, of the maps, the file system and the language.\<close>

definition platform_ok :: "'w bpfObjects \<Rightarrow> 'w goos \<Rightarrow> string \<Rightarrow> ('w \<Rightarrow> kernel_view) \<Rightarrow> bool" where
  "platform_ok prog os f view \<longleftrightarrow>
     kernel_contract prog view \<and> os_frame os view \<and> map_order_contract os \<and>
     disk_contract os f \<and> writable os f \<and> maps_leave_file prog os f"

lemma platformD:
  assumes "platform_ok prog os f view"
  shows "kernel_contract prog view" "os_frame os view" "map_order_contract os" "disk_contract os f"
    "writable os f" "maps_leave_file prog os f" "f \<noteq> []"
  using assms by (auto simp: platform_ok_def writable_def)

lemma trie_writes_file:
  assumes "maps_leave_file (objs m) os f"
  shows "ReadFile os f (fst (BlockCIDR os m c w)) = ReadFile os f w"
    "ReadFile os f (fst (AllowCIDR m c w)) = ReadFile os f w"
    "ReadFile os f (fst (AddWhitelistCIDR m c w)) = ReadFile os f w"
    "ReadFile os f (fst (RemoveWhitelistCIDR m c w)) = ReadFile os f w"
    "ReadFile os f (fst (SetGeoIPPolicy m p w)) = ReadFile os f w"
  using assms
  by (simp_all add: maps_leave_file_def BlockCIDR_def AllowCIDR_def AddWhitelistCIDR_def RemoveWhitelistCIDR_def
      SetGeoIPPolicy_def Let_def case_prod_beta split: sum.split)

lemma trie_writes_config:
  assumes kc: "kernel_contract (objs m) view"
  shows "vConfig (view (fst (BlockCIDR os m c w))) = vConfig (view w)"
    "vConfig (view (fst (AllowCIDR m c w))) = vConfig (view w)"
    "vConfig (view (fst (AddWhitelistCIDR m c w))) = vConfig (view w)"
    "vConfig (view (fst (RemoveWhitelistCIDR m c w))) = vConfig (view w)"
proof -
  show "vConfig (view (fst (BlockCIDR os m c w))) = vConfig (view w)"
    using block_run[OF kc, of os c w "fst (BlockCIDR os m c w)" "snd (BlockCIDR os m c w)"]
    by (auto split: option.splits)
  show "vConfig (view (fst (AllowCIDR m c w))) = vConfig (view w)"
    using allow_run[OF kc, of c w "fst (AllowCIDR m c w)" "snd (AllowCIDR m c w)"] by (auto split: option.splits)
  show "vConfig (view (fst (AddWhitelistCIDR m c w))) = vConfig (view w)"
    using whitelist_add_run[OF kc, of c w "fst (AddWhitelistCIDR m c w)" "snd (AddWhitelistCIDR m c w)"]
    by (auto split: option.splits)
  show "vConfig (view (fst (RemoveWhitelistCIDR m c w))) = vConfig (view w)"
    using whitelist_remove_run[OF kc, of c w "fst (RemoveWhitelistCIDR m c w)" "snd (RemoveWhitelistCIDR m c w)"]
    by (auto split: option.splits)
qed

lemma policy_of_config:
  assumes "kernel_contract (objs m) view" "vConfig (view w') 2 = vConfig (view w) 2"
  shows "GetGeoIPPolicy m w' = GetGeoIPPolicy m w"
  using assms config_read[of m view 2 w'] config_read[of m view 2 w] by (simp add: GetGeoIPPolicy_def)

lemma agrees_policy_of:
  "GetGeoIPPolicy m' w' = GetGeoIPPolicy m w \<Longrightarrow> BlacklistTargets m' = BlacklistTargets m \<Longrightarrow>
   WhitelistTargets m' = WhitelistTargets m \<Longrightarrow> agrees g c st m' w' = agrees g c st m w"
  by (cases c) simp_all

lemma commits_read: "well_formed xs \<Longrightarrow> commits xs \<Longrightarrow> will_read c xs"
  using locked_reads[of xs] by (cases c) (auto simp: commits_def will_read_def)

lemmas target_ops = AddBlacklistTarget_def RemoveBlacklistTarget_def AddWhitelistTarget_def RemoveWhitelistTarget_def

lemma section_objs: "runSection os f x rest (st, m, w) = (ys, st', m', w') \<Longrightarrow> objs m' = objs m"
  by (cases x) (auto simp: target_ops split: prod.splits)

lemma section_shape:
  assumes "well_formed (x # rest)" "runSection os f x rest (st, m, w) = (ys, st', m', w')"
  shows "well_formed ys \<and>
    inside ys = (x = LockState \<or> inside (x # rest) \<and> x \<noteq> WriteState)"
  using assms
  by (cases x) (auto simp: well_formed_save well_formed_other commits_def only_logs_well_formed
      split: if_splits prod.splits)

lemma section_file:
  assumes plat: "platform_ok (objs m) os f view" and run: "runSection os f x rest (st, m, w) = (ys, st', m', w')"
  shows "ReadFile os f w' = (if x = WriteState then Some (marshalState st) else ReadFile os f w)"
proof -
  note d = platformD[OF plat]
  note unchanged = trie_writes_file[OF d(6)] log_keeps_state[OF d(4,5)]
  show ?thesis
  proof (cases x)
    case WriteState
    obtain w1 where "WriteFile os f (marshalState st) w = (w1, True)"
      using d(5) unfolding writable_def by (metis prod.collapse)
    with run d(4) WriteState show ?thesis by (simp add: disk_contract_def)
  next
    case (RequirePolicy p)
    with run unchanged(5)[of p w] show ?thesis by (auto split: prod.splits)
  qed (use run unchanged in \<open>auto simp: target_ops\<close>)
qed

lemma section_snapshot:
  assumes plat: "platform_ok (objs m) os f view" and run: "runSection os f x rest (st, m, w) = (ys, st', m', w')"
  shows "(if x = readOf c then agrees id c st' m' w' else agrees id c st' m w = agrees id c st m w)"
  using run bt.set_list[OF platformD(3)[OF plat]] wt.set_list[OF platformD(3)[OF plat]]
  by (cases x; cases c) (auto split: prod.splits)

text \<open>A section that changes what a slot says is followed by a reading of the slot.\<close>

lemma section_current:
  assumes plat: "platform_ok (objs m) os f view" and wf: "well_formed (x # rest)"
    and run: "runSection os f x rest (st, m, w) = (ys, st', m', w')" and silent: "\<not> will_read c ys"
  shows "agrees g c s m' w' = agrees g c s m w"
proof -
  note d = platformD[OF plat]
  have kept: "agrees g c s m v = agrees g c s m w" if "vConfig (view v) = vConfig (view w)" for v
    using that by (intro agrees_policy_of policy_of_config[OF d(1)]) simp_all
  note same = trie_writes_config[OF d(1), THEN kept]
  have followed: ?thesis if "well_formed rest" "commits rest" "ys = rest"
    using commits_read[of rest c] silent that by simp
  have follows: "well_formed rest \<and> commits rest" if "\<forall>e i r. x \<noteq> LogSec e i r"
      "x \<notin> {LockState, ReadPolicy, ReadBlack, ReadWhite, WriteState}"
    using wf that well_formed_other[of x rest] by simp
  show ?thesis
  proof (cases x)
    case (RequirePolicy p)
    obtain v e where v: "SetGeoIPPolicy m p w = (v, e)" by fastforce
    show ?thesis
    proof (cases e)
      case None
      with run RequirePolicy v follows show ?thesis by (intro followed) simp_all
    next
      case (Some a)
      then have "view v = view w"
        using v config_put[OF d(1), of 2 p w] by (auto simp: SetGeoIPPolicy_def split: if_splits prod.splits)
      then have "agrees g c s m v = agrees g c s m w" by (intro kept) simp
      with run RequirePolicy v show ?thesis by simp
    qed
  next
    case (ListBlack t)
    with run follows show ?thesis by (intro followed) simp_all
  next
    case (UnlistBlack t)
    with run follows show ?thesis by (intro followed) simp_all
  next
    case (ListWhite t)
    with run follows show ?thesis by (intro followed) simp_all
  next
    case (UnlistWhite t)
    with run follows show ?thesis by (intro followed) simp_all
  next
    case (SetPolicySec p)
    with run follows show ?thesis by (intro followed) simp_all
  next
    case WriteState
    with run have "m' = m" "w' = fst (WriteFile os f (marshalState st) w)" by auto
    with kept[of w'] d(2) show ?thesis by (simp add: os_frame_def)
  next
    case (LogSec e i r)
    with run have "m' = m" "w' = writeMitigationLog os e i r 0 w" by auto
    with kept[of w'] writeMitigationLog_view[OF d(2)] show ?thesis by simp
  qed (use run same in auto)
qed

lemma section_reads:
  assumes "runSection os f x rest (st, m, w) = (ys, st', m', w')"
    and "will_read c (x # rest)" "x \<noteq> readOf c"
  shows "will_read c ys"
  using assms by (cases x; cases c) (auto simp: will_read_def split: if_splits)

subsection \<open>The invariant of the pool\<close>

text \<open>The lock is held by the goroutine that is inside a save, so there is at most one.\<close>

definition lock_inv :: "'w pool \<Rightarrow> bool" where
  "lock_inv p \<longleftrightarrow>
     (\<forall>t \<in> set (threads p). well_formed (fst t)) \<and>
     (\<forall>i. stateMutex p = Some i \<longleftrightarrow> i < length (threads p) \<and> inside (fst (threads p ! i)))"

text \<open>The state file, read back, agrees with a slot.\<close>

definition file_agrees :: "'w goos \<Rightarrow> string \<Rightarrow> slot \<Rightarrow> 'w MapManager \<Rightarrow> 'w \<Rightarrow> bool" where
  "file_agrees os f c m w \<longleftrightarrow> (\<exists>content st. ReadFile os f w = Some content \<and> unmarshalState content = Some st \<and> agrees utf8Clean c st m w)"

lemma written_agrees:
  assumes "ReadFile os f w = Some (marshalState st)" "agrees id c st m w"
  shows "file_agrees os f c m w"
  using assms unmarshal_marshal[of st] by (cases c) (auto simp: file_agrees_def)

text \<open>
  Whatever the file says of a slot now, the last word will be right: somebody still has to read the
  slot, or the one who holds the lock has read what it is, or the lock is free and the file agrees.
\<close>

definition covered :: "'w goos \<Rightarrow> string \<Rightarrow> slot \<Rightarrow> 'w pool \<Rightarrow> bool" where
  "covered os f c p \<longleftrightarrow>
     (\<exists>t \<in> set (threads p). will_read c (fst t)) \<or>
     (\<exists>i. stateMutex p = Some i \<and> agrees id c (snd (threads p ! i)) (poolManager p) (poolWorld p)) \<or>
     (stateMutex p = None \<and> file_agrees os f c (poolManager p) (poolWorld p))"

lemma poolStepE:
  assumes "poolStep os f i p = Some p'"
  obtains x rest st ys st' m' w' where
    "i < length (threads p)" "threads p ! i = (x # rest, st)" "x = LockState \<longrightarrow> stateMutex p = None"
    "runSection os f x rest (st, poolManager p, poolWorld p) = (ys, st', m', w')"
    "p' = \<lparr>threads = (threads p)[i := (ys, st')],
       stateMutex = (if x = LockState then Some i else if x = WriteState then None else stateMutex p),
       poolManager = m', poolWorld = w'\<rparr>"
  using assms unfolding poolStep_def
  by (auto split: if_splits prod.splits list.splits) 

lemma lock_inv_step:
  assumes inv: "lock_inv p" and step: "poolStep os f i p = Some p'"
  shows "lock_inv p' \<and> objs (poolManager p') = objs (poolManager p)"
proof -
  from step obtain x rest st ys st' m' w' where
    i: "i < length (threads p)" "threads p ! i = (x # rest, st)" "x = LockState \<longrightarrow> stateMutex p = None"
    and run: "runSection os f x rest (st, poolManager p, poolWorld p) = (ys, st', m', w')"
    and p': "p' = \<lparr>threads = (threads p)[i := (ys, st')],
       stateMutex = (if x = LockState then Some i else if x = WriteState then None else stateMutex p),
       poolManager = m', poolWorld = w'\<rparr>" by (rule poolStepE)
  have "(x # rest, st) \<in> set (threads p)" using i nth_mem by metis
  then have "well_formed (x # rest)" using inv by (auto simp: lock_inv_def)
  note shape = section_shape[OF this run]
  have holder: "stateMutex p = Some j \<longleftrightarrow> j < length (threads p) \<and> inside (fst (threads p ! j))" for j
    using inv by (simp add: lock_inv_def)
  have "stateMutex p' = Some j \<longleftrightarrow> j < length (threads p') \<and> inside (fst (threads p' ! j))" for j
  proof (cases "j = i")
    case True
    with i p' shape holder[of i] show ?thesis by auto
  next
    case False
    with i p' shape holder[of i] holder[of j] show ?thesis by auto
  qed
  moreover have "\<forall>t \<in> set (threads p'). well_formed (fst t)"
    using inv shape p' set_update_subset_insert[of "threads p" i "(ys, st')"] by (auto simp: lock_inv_def)
  ultimately show ?thesis using p' section_objs[OF run] by (simp add: lock_inv_def)
qed

lemma covered_step:
  assumes plat: "platform_ok (objs (poolManager p)) os f view"
    and inv: "lock_inv p" and cov: "covered os f c p" and step: "poolStep os f i p = Some p'"
  shows "covered os f c p'"
proof -
  from step obtain x rest st ys st' m' w' where
    i: "i < length (threads p)" "threads p ! i = (x # rest, st)" "x = LockState \<longrightarrow> stateMutex p = None"
    and run: "runSection os f x rest (st, poolManager p, poolWorld p) = (ys, st', m', w')"
    and p': "p' = \<lparr>threads = (threads p)[i := (ys, st')],
       stateMutex = (if x = LockState then Some i else if x = WriteState then None else stateMutex p),
       poolManager = m', poolWorld = w'\<rparr>" by (rule poolStepE)
  let ?m = "poolManager p" and ?w = "poolWorld p"
  have "(x # rest, st) \<in> set (threads p)" using i nth_mem by metis
  then have wf: "well_formed (x # rest)" using inv by (auto simp: lock_inv_def)
  have holder: "stateMutex p = Some j \<longleftrightarrow> j < length (threads p) \<and> inside (fst (threads p ! j))" for j
    using inv by (simp add: lock_inv_def)
  note snap = section_snapshot[OF plat run, of c]
  show ?thesis
  proof (cases "will_read c ys")
    case True
    have "(ys, st') \<in> set (threads p')" using p' i(1) by (simp add: set_update_memI)
    with True show ?thesis unfolding covered_def by force
  next
    case silent: False
    note cur = section_current[OF plat wf run silent, where g = id]
      and cleaned = section_current[OF plat wf run silent, where g = utf8Clean]
    have lock: "x \<noteq> LockState"
    proof
      assume "x = LockState"
      with wf run silent show False by (cases c) (auto simp: well_formed_save will_read_def only_logs_no)
    qed
    have now: "agrees id c st' m' w' = agrees id c st ?m ?w" if "x \<noteq> readOf c" using snap that cur by simp
    from cov consider
        (reader) t where "t \<in> set (threads p)" "will_read c (fst t)"
      | (inside) j where "stateMutex p = Some j" "agrees id c (snd (threads p ! j)) ?m ?w"
      | (free) "stateMutex p = None" "file_agrees os f c ?m ?w"
      by (auto simp: covered_def)
    then show ?thesis
    proof cases
      case reader
      then obtain j where j: "j < length (threads p)" "will_read c (fst (threads p ! j))" by (metis in_set_conv_nth)
      show ?thesis
      proof (cases "j = i")
        case True
        with j i section_reads[OF run, of c] silent have x: "x = readOf c" by auto
        then have "x \<noteq> WriteState" "inside (x # rest)" by (cases c; simp)+
        with holder[of i] i x snap p' lock show ?thesis by (auto simp: covered_def)
      next
        case False
        have "threads p' ! j \<in> set (threads p')" by (rule nth_mem) (use j(1) p' in simp)
        moreover have "will_read c (fst (threads p' ! j))" using False j(2) p' by simp
        ultimately show ?thesis unfolding covered_def by blast
      qed
    next
      case inside
      show ?thesis
      proof (cases "j = i \<and> x = WriteState")
        case True
        then have "ReadFile os f w' = Some (marshalState st)" "agrees id c st m' w'"
          using section_file[OF plat run] cur[of st] inside(2) i(2) by simp_all
        then have "file_agrees os f c m' w'" by (rule written_agrees)
        with True p' show ?thesis by (simp add: covered_def)
      next
        case False
        have "x \<noteq> WriteState"
        proof
          assume "x = WriteState"
          with holder[of i] i have "stateMutex p = Some i" by simp
          with inside(1) False \<open>x = WriteState\<close> show False by simp
        qed
        then have mutex: "stateMutex p' = Some j" using p' lock inside(1) by simp
        have "agrees id c (snd (threads p' ! j)) m' w'"
        proof (cases "j = i")
          case True
          with snap now inside(2) i p' show ?thesis by (cases "x = readOf c") simp_all
        next
          case False
          with cur inside(2) p' show ?thesis by simp
        qed
        with mutex p' show ?thesis by (auto simp: covered_def)
      qed
    next
      case free
      have "x \<noteq> WriteState"
      proof
        assume "x = WriteState"
        with holder[of i] i free(1) show False by simp
      qed
      with free lock p' section_file[OF plat run] cleaned show ?thesis by (auto simp: covered_def file_agrees_def)
    qed
  qed
qed

lemma reachable_inv:
  assumes "pool_reachable os f view p0 p" "platform_ok (objs (poolManager p0)) os f view"
    and "lock_inv p0" "\<forall>c. covered os f c p0"
  shows "lock_inv p \<and> objs (poolManager p) = objs (poolManager p0) \<and> (\<forall>c. covered os f c p)"
  using assms
proof (induction rule: pool_reachable.induct)
  case (pool_step p i p')
  then have "platform_ok (objs (poolManager p)) os f view" "lock_inv p" "\<forall>c. covered os f c p" by simp_all
  with pool_step show ?case using covered_step lock_inv_step by metis
next
  case (pool_arrive p d)
  then have inv: "lock_inv p" and cov: "\<forall>c. covered os f c p" by simp_all
  let ?q = "p\<lparr>threads := threads p @ [spawn f d]\<rparr>"
  have sp: "well_formed (fst (spawn f d))" "\<not> inside (fst (spawn f d))"
    using spawn_shape[OF platformD(7)[OF pool_arrive.prems(1)]] by (simp_all add: spawn_def)
  have holder: "stateMutex p = Some i \<longleftrightarrow> i < length (threads p) \<and> inside (fst (threads p ! i))" for i
    using inv by (simp add: lock_inv_def)
  have "stateMutex ?q = Some i \<longleftrightarrow> i < length (threads ?q) \<and> inside (fst (threads ?q ! i))" for i
    using holder[of i] sp(2) by (auto simp: nth_append less_Suc_eq)
  then have "lock_inv ?q" using inv sp(1) by (auto simp: lock_inv_def)
  moreover have "covered os f c ?q" for c
    using cov[THEN spec[of _ c]] holder by (auto simp: covered_def nth_append)
  ultimately show ?case using pool_arrive by simp
next
  case (pool_drift p w)
  then have inv: "lock_inv p" "objs (poolManager p) = objs (poolManager p0)" and cov: "\<forall>c. covered os f c p" by simp_all
  then have kc: "kernel_contract (objs (poolManager p)) view" using platformD(1)[OF pool_drift.prems(1)] by simp
  have same: "agrees g c st (poolManager p) w = agrees g c st (poolManager p) (poolWorld p)" for g c st
    by (intro agrees_policy_of policy_of_config[OF kc] pool_drift.hyps) simp_all
  have "covered os f c (p\<lparr>poolWorld := w\<rparr>)" for c
    using cov[THEN spec[of _ c]] same pool_drift.hyps(3) by (simp add: covered_def file_agrees_def)
  with inv show ?case by (simp add: lock_inv_def)
qed simp

lemma start_inv:
  assumes "f \<noteq> []" "(\<forall>c. file_agrees os f c m w) \<or> (\<exists>d \<in> set cs. \<forall>p. d \<noteq> PostPolicy p)"
  shows "lock_inv (startPool f cs m w) \<and> (\<forall>c. covered os f c (startPool f cs m w))"
proof -
  note sp = spawn_shape[OF assms(1)]
  have "lock_inv (startPool f cs m w)" using sp by (simp add: lock_inv_def startPool_def spawn_def)
  moreover have "covered os f c (startPool f cs m w)" for c
  proof (cases "\<forall>c. file_agrees os f c m w")
    case True
    then show ?thesis by (simp add: covered_def startPool_def)
  next
    case False
    with assms(2) obtain d where d: "d \<in> set cs" "\<forall>p. d \<noteq> PostPolicy p" by blast
    with sp[of d] have "will_read c (fst (spawn f d))" using commits_read[of "sectionsOf f d" c] by (simp add: spawn_def)
    with d show ?thesis by (auto simp: covered_def startPool_def)
  qed
  ultimately show ?thesis by blast
qed

subsection \<open>Completion\<close>

definition poolCost :: "'w pool \<Rightarrow> nat" where
  "poolCost p = sum_list (map (\<lambda>t. cost (fst t)) (threads p))"

lemma cost_update:
  fixes h :: "'a \<Rightarrow> nat"
  shows "i < length ts \<Longrightarrow> h t < h (ts ! i) \<Longrightarrow> sum_list (map h (ts[i := t])) < sum_list (map h ts)"
  by (induction ts arbitrary: i) (auto split: nat.split simp: nth_Cons')

lemma poolStep_cost: "poolStep os f i p = Some p' \<Longrightarrow> poolCost p' < poolCost p"
proof (erule poolStepE)
  fix x rest st ys st' m' w'
  assume i: "i < length (threads p)" "threads p ! i = (x # rest, st)"
    and run: "runSection os f x rest (st, poolManager p, poolWorld p) = (ys, st', m', w')"
    and p': "p' = \<lparr>threads = (threads p)[i := (ys, st')],
       stateMutex = (if x = LockState then Some i else if x = WriteState then None else stateMutex p),
       poolManager = m', poolWorld = w'\<rparr>"
  have "cost ys < cost (x # rest)" using runSection_cost[of os f x rest "(st, poolManager p, poolWorld p)"] run by simp
  then have "cost (fst (ys, st')) < cost (fst (threads p ! i))" using i by simp
  from cost_update[OF i(1), of "\<lambda>t. cost (fst t)", OF this] p' show ?thesis by (simp add: poolCost_def)
qed

lemma poolStep_enabled:
  assumes inv: "lock_inv p" and busy: "\<not> all_done p"
  shows "\<exists>i p'. poolStep os f i p = Some p'"
proof -
  obtain j where j: "j < length (threads p)" "fst (threads p ! j) \<noteq> []"
    using busy by (auto simp: all_done_def list_all_length)
  have "\<exists>i x rest st. i < length (threads p) \<and> threads p ! i = (x # rest, st) \<and>
      \<not> (x = LockState \<and> stateMutex p \<noteq> None)"
  proof (cases "stateMutex p")
    case None
    with j show ?thesis by (metis list.exhaust prod.collapse)
  next
    case (Some i)
    with inv have i: "i < length (threads p)" "inside (fst (threads p ! i))" by (auto simp: lock_inv_def)
    obtain todo st where t: "threads p ! i = (todo, st)" by fastforce
    with i(2) obtain x rest where "todo = x # rest" "x \<noteq> LockState" by (cases todo) auto
    with i(1) t show ?thesis by blast
  qed
  then obtain i x rest st where "i < length (threads p)" "threads p ! i = (x # rest, st)"
      "\<not> (x = LockState \<and> stateMutex p \<noteq> None)" by blast
  then show ?thesis unfolding poolStep_def by (intro exI[of _ i]) (auto split: prod.splits)
qed

lemma poolRun_bound: "poolRun os f is p = Some p' \<Longrightarrow> length is + poolCost p' \<le> poolCost p"
proof (induction "is" arbitrary: p)
  case (Cons i "is")
  then obtain q where q: "poolStep os f i p = Some q" "poolRun os f is q = Some p'" by (auto split: option.splits)
  from Cons.IH[OF q(2)] poolStep_cost[OF q(1)] show ?case by simp
qed simp

lemma poolRun_completes: "lock_inv p \<Longrightarrow> \<exists>is p'. poolRun os f is p = Some p' \<and> all_done p'"
proof (induction "poolCost p" arbitrary: p rule: less_induct)
  case less
  show ?case
  proof (cases "all_done p")
    case True
    then show ?thesis by (intro exI[of _ "[]"]) simp
  next
    case False
    then obtain i q where q: "poolStep os f i p = Some q" using poolStep_enabled[OF less.prems] by blast
    with less.prems have "lock_inv q" using lock_inv_step by blast
    with less.hyps[OF poolStep_cost[OF q]] obtain "is" p' where "poolRun os f is q = Some p'" "all_done p'" by blast
    with q show ?thesis by (intro exI[of _ "i # is"]) auto
  qed
qed

subsection \<open>Properties\<close>

lemma refPlatform: "platform_ok refObjs refOS ''rules.json'' refView"
proof -
  have "maps_leave_file refObjs refOS ''rules.json''"
    by (simp add: maps_leave_file_def refObjs_def refOS_def ref_map_def Let_def)
  then show ?thesis using refObjs_contract refOS_frame refOS_order refOS_disk by (simp add: platform_ok_def)
qed

lemma poolRun_reachable:
  "poolRun os f is p = Some p' \<Longrightarrow> pool_reachable os f view p0 p \<Longrightarrow> pool_reachable os f view p0 p'"
  by (induction "is" arbitrary: p) (auto split: option.splits intro: pool_step)

text \<open>
  Two requests of which the second changes the whitelist between the first one's reading of it and the
  first one's write, and then saves.
\<close>

definition samplePool :: "world pool" where
  "samplePool = startPool ''rules.json''
     [PostBlack ''198.51.100.7'' [''198.51.100.7/32''], PostWhite ''10.0.0.9'' [''10.0.0.9/32'']] refManager emptyWorld"

definition sampleOrder :: "nat list" where
  "sampleOrder = [0, 0, 0, 0, 0, 0, 1, 1, 0, 0, 1, 1, 1, 1, 1, 1]"

text \<open>
  C4: Concurrent changes are not lost: however the sections of the requests and of the engine interleave,
  and whatever arrives meanwhile, once no goroutine has anything left to do the state file says, read
  back, which policy is in force and exactly which targets the manager holds, although a save reads
  the three one after the other while other goroutines change them.
\<close>

theorem concurrent_changes_saved:
  assumes "platform_ok (objs m) os f view"
    and "(\<forall>c. file_agrees os f c m w) \<or> (\<exists>d \<in> set cs. \<forall>p. d \<noteq> PostPolicy p)"
    and "pool_reachable os f view (startPool f cs m w) p" "all_done p"
  shows "\<exists>content st. ReadFile os f (poolWorld p) = Some content \<and> unmarshalState content = Some st \<and>
    GeoIPPolicy st = fst (GetGeoIPPolicy (poolManager p) (poolWorld p)) \<and>
    set (StateBlacklist st) = utf8Clean ` fset (BlacklistTargets (poolManager p)) \<and>
    set (StateWhitelist st) = utf8Clean ` fset (WhitelistTargets (poolManager p))"
proof -
  let ?p0 = "startPool f cs m w"
  have "lock_inv ?p0" "\<forall>c. covered os f c ?p0" using start_inv[OF platformD(7)[OF assms(1)] assms(2)] by simp_all
  moreover have "objs (poolManager ?p0) = objs m" by (simp add: startPool_def)
  ultimately have inv: "lock_inv p" "\<forall>c. covered os f c p" using reachable_inv[OF assms(3)] assms(1) by simp_all
  have idle: "fst t = []" if "t \<in> set (threads p)" for t using assms(4) that by (simp add: all_done_def list_all_iff)
  have "stateMutex p = None"
  proof (rule ccontr)
    assume "stateMutex p \<noteq> None"
    then obtain i where "i < length (threads p)" "inside (fst (threads p ! i))" using inv(1) by (auto simp: lock_inv_def)
    with idle[of "threads p ! i"] show False by simp
  qed
  then have "file_agrees os f c (poolManager p) (poolWorld p)" for c
    using inv(2)[THEN spec[of _ c]] idle by (auto simp: covered_def will_read_def)
  from this[of PolicySlot] this[of BlackSlot] this[of WhiteSlot] show ?thesis by (fastforce simp: file_agrees_def)
qed

theorem concurrent_changes_saved_witness:
  "\<exists>p content st. poolRun refOS ''rules.json'' sampleOrder samplePool = Some p \<and>
     ReadFile refOS ''rules.json'' (poolWorld p) = Some content \<and> unmarshalState content = Some st \<and>
     set (StateBlacklist st) = {''198.51.100.7''} \<and> set (StateWhitelist st) = {''10.0.0.9''}"
proof -
  have "case poolRun refOS ''rules.json'' sampleOrder samplePool of None \<Rightarrow> False
    | Some p \<Rightarrow> all_done p \<and> BlacklistTargets (poolManager p) = {|''198.51.100.7''|} \<and>
        WhitelistTargets (poolManager p) = {|''10.0.0.9''|}" by code_simp
  then obtain p where p: "poolRun refOS ''rules.json'' sampleOrder samplePool = Some p" "all_done p"
      "BlacklistTargets (poolManager p) = {|''198.51.100.7''|}" "WhitelistTargets (poolManager p) = {|''10.0.0.9''|}"
    by (auto split: option.splits)
  have reach: "pool_reachable refOS ''rules.json'' refView samplePool p"
    by (rule poolRun_reachable[OF p(1) pool_start])
  have clean: "utf8Clean ''198.51.100.7'' = ''198.51.100.7''" "utf8Clean ''10.0.0.9'' = ''10.0.0.9''"
    by (simp_all add: utf8Clean_ascii byteVal_def)
  have "platform_ok (objs refManager) refOS ''rules.json'' refView" using refPlatform by simp
  from concurrent_changes_saved[OF this _ reach[unfolded samplePool_def] p(2)] obtain content st where
    st: "ReadFile refOS ''rules.json'' (poolWorld p) = Some content" "unmarshalState content = Some st"
      "set (StateBlacklist st) = utf8Clean ` fset (BlacklistTargets (poolManager p))"
      "set (StateWhitelist st) = utf8Clean ` fset (WhitelistTargets (poolManager p))" by auto
  have "set (StateBlacklist st) = {''198.51.100.7''}" "set (StateWhitelist st) = {''10.0.0.9''}"
    unfolding st(3,4) p(3,4) using clean by (simp_all del: utf8Clean.simps)
  with p(1) st(1,2) show ?thesis by blast
qed

text \<open>
  The lists agree with the file, but not with the kernel: when a target is added and removed at the same
  time it may end up listed (and saved) while its block is not in the map.
\<close>

definition racePool :: "world pool" where
  "racePool = startPool ''rules.json'' [PostBlack ''198.51.100.7'' [''198.51.100.7/32''],
     DeleteBlack ''198.51.100.7'' [''198.51.100.7/32'']] refManager emptyWorld"

definition raceOrder :: "nat list" where
  "raceOrder = [0, 1, 1, 0, 0, 0, 0, 0, 0, 0, 1, 1, 1, 1, 1, 1]"

lemma post_delete_race:
  "\<exists>p. poolRun refOS ''rules.json'' raceOrder racePool = Some p \<and> all_done p \<and>
     BlacklistTargets (poolManager p) = {|''198.51.100.7''|} \<and> wBlacklist (poolWorld p) = []"
proof -
  have "case poolRun refOS ''rules.json'' raceOrder racePool of None \<Rightarrow> False
    | Some p \<Rightarrow> all_done p \<and> BlacklistTargets (poolManager p) = {|''198.51.100.7''|} \<and> wBlacklist (poolWorld p) = []"
    by code_simp
  then show ?thesis by (auto split: option.splits)
qed

text \<open>
  C5: Every request ends: from every pool that can come up, no order of steps goes on for ever (their
  number is bounded by the sections left), the goroutines can always finish, so none waits for the
  lock in vain, and no two are inside a save together.
\<close>

theorem concurrent_requests_complete:
  assumes "platform_ok (objs m) os f view"
    and "(\<forall>c. file_agrees os f c m w) \<or> (\<exists>d \<in> set cs. \<forall>p. d \<noteq> PostPolicy p)"
    and "pool_reachable os f view (startPool f cs m w) p"
  shows "(\<forall>is p'. poolRun os f is p = Some p' \<longrightarrow> length is \<le> poolCost p) \<and>
    (\<exists>is p'. poolRun os f is p = Some p' \<and> all_done p') \<and>
    (\<forall>i j. i < length (threads p) \<longrightarrow> j < length (threads p) \<longrightarrow>
       inside (fst (threads p ! i)) \<longrightarrow> inside (fst (threads p ! j)) \<longrightarrow> i = j)"
proof -
  let ?p0 = "startPool f cs m w"
  have "lock_inv ?p0" "\<forall>c. covered os f c ?p0" using start_inv[OF platformD(7)[OF assms(1)] assms(2)] by simp_all
  moreover have "objs (poolManager ?p0) = objs m" by (simp add: startPool_def)
  ultimately have inv: "lock_inv p" using reachable_inv[OF assms(3)] assms(1) by simp
  then have "i = j" if "i < length (threads p)" "j < length (threads p)"
      "inside (fst (threads p ! i))" "inside (fst (threads p ! j))" for i j
    using that by (metis lock_inv_def option.inject)
  moreover have "length is \<le> poolCost p" if "poolRun os f is p = Some p'" for "is" p'
    using poolRun_bound[OF that] by simp
  ultimately show ?thesis using poolRun_completes[OF inv] by blast
qed

theorem concurrent_requests_complete_witness:
  "\<exists>is p. poolRun refOS ''rules.json'' is samplePool = Some p \<and> all_done p"
proof -
  have "platform_ok (objs refManager) refOS ''rules.json'' refView" using refPlatform by simp
  from concurrent_requests_complete[OF this _ pool_start, where w = emptyWorld and
      cs = "[PostBlack ''198.51.100.7'' [''198.51.100.7/32''], PostWhite ''10.0.0.9'' [''10.0.0.9/32'']]"] show ?thesis by (simp add: samplePool_def)
qed

text \<open>
  The sections are the handlers: a goroutine that runs alone from the beginning to the end leaves the
  manager and the world its handler leaves (the four changes of a list and the change of the policy,
  accepted by the kernel or not), and so does the end of a tick that found expired blocks.
\<close>

theorem handlers_run_their_sections:
  assumes "manager s = Some m"
  shows "leaves (blacklistPost os m t cs r (s, w)) =
      map_prod Some id (snd (runAlone os (stateFile s) (sectionsOf (stateFile s) (PostBlack t cs)) (st, m, w))) \<and>
    leaves (blacklistDelete os m t cs r (s, w)) =
      map_prod Some id (snd (runAlone os (stateFile s) (sectionsOf (stateFile s) (DeleteBlack t cs)) (st, m, w))) \<and>
    leaves (whitelistPost os m t cs r (s, w)) =
      map_prod Some id (snd (runAlone os (stateFile s) (sectionsOf (stateFile s) (PostWhite t cs)) (st, m, w))) \<and>
    leaves (whitelistDelete os m t cs r (s, w)) =
      map_prod Some id (snd (runAlone os (stateFile s) (sectionsOf (stateFile s) (DeleteWhite t cs)) (st, m, w))) \<and>
    (ReqMethod r = ''POST'' \<and> policyOf (param r ''action'') = Some p \<longrightarrow>
      leaves (handleRulesPolicy os r (s, w)) =
        map_prod Some id (snd (runAlone os (stateFile s) (sectionsOf (stateFile s) (PostPolicy p)) (st, m, w)))) \<and>
    (CleanExpiredBlacklist os m (effectiveTTL (currentLevel (machine e)) (GetBlacklistCount m w)) w = ((ip # ips, None), w1) \<longrightarrow>
      (let (e', w') = expirePart os f m (e, w) in
        (mapMgr e', w') = map_prod Some id (snd (runAlone os f (sectionsOf f (Expired ip ips)) (st, m, w1)))))"
proof (intro conjI impI)
  assume "ReqMethod r = ''POST'' \<and> policyOf (param r ''action'') = Some p"
  with assms show "leaves (handleRulesPolicy os r (s, w)) =
      map_prod Some id (snd (runAlone os (stateFile s) (sectionsOf (stateFile s) (PostPolicy p)) (st, m, w)))"
    by (intro policy_alone) simp_all
next
  assume "CleanExpiredBlacklist os m (effectiveTTL (currentLevel (machine e)) (GetBlacklistCount m w)) w = ((ip # ips, None), w1)"
  then show "let (e', w') = expirePart os f m (e, w) in
      (mapMgr e', w') = map_prod Some id (snd (runAlone os f (sectionsOf f (Expired ip ips)) (st, m, w1)))"
    using expire_part_alone by (auto simp: Let_def split: prod.split)
qed (rule handlers_alone whitelist_delete_alone)+

theorem handlers_run_their_sections_witness:
  "leaves (handleRulesPolicy refOS (sampleRequest ''POST'' ''action=drop'') (refServer, emptyWorld)) =
   map_prod Some id (snd (runAlone refOS (stateFile refServer) (sectionsOf (stateFile refServer) (PostPolicy 1))
     (zeroState, refManager, emptyWorld)))"
proof -
  have "policyOf (param (sampleRequest ''POST'' ''action=drop'') ''action'') = Some 1" by code_simp
  moreover have "ReqMethod (sampleRequest ''POST'' ''action=drop'') = ''POST''" "manager refServer = Some refManager"
    by (simp_all add: sampleRequest_def refServer_def)
  ultimately show ?thesis
    using handlers_run_their_sections[where s = refServer and m = refManager and os = refOS
        and r = "sampleRequest ''POST'' ''action=drop''" and p = 1 and st = zeroState and w = emptyWorld] by blast
qed

end
