(* ===== verification/Certificates.thy ===== *)
theory Certificates
  imports Startup
begin

text \<open>
  The certificate of the API server (\<open>generateSelfSignedCert\<close> and \<open>ensureCertificatesExist\<close> of
  \<open>main.go\<close>): what is put into it, the two files and every error on the way.
\<close>

subsection \<open>encoding/pem\<close>

definition base64Digit :: "int \<Rightarrow> char" where
  "base64Digit n = ''ABCDEFGHIJKLMNOPQRSTUVWXYZabcdefghijklmnopqrstuvwxyz0123456789+/'' ! nat n"

fun base64 :: "string \<Rightarrow> string" where
  "base64 [] = []"
| "base64 [a] = (let n = byteVal a in [base64Digit (n div 4), base64Digit (n mod 4 * 16), CHR ''='', CHR ''=''])"
| "base64 [a, b] =
     (let n = byteVal a; k = byteVal b in
      [base64Digit (n div 4), base64Digit (n mod 4 * 16 + k div 16), base64Digit (k mod 16 * 4), CHR ''=''])"
| "base64 (a # b # c # s) =
     (let n = byteVal a; k = byteVal b; l = byteVal c in
      [base64Digit (n div 4), base64Digit (n mod 4 * 16 + k div 16), base64Digit (k mod 16 * 4 + l div 64),
       base64Digit (l mod 64)] @ base64 s)"

function pemLines :: "string \<Rightarrow> string" where
  "pemLines s = (if s = [] then [] else take 64 s @ newline # pemLines (drop 64 s))"
  by pat_completeness auto
termination
  by (relation "measure length") auto

declare pemLines.simps [simp del]

definition pemText :: "string \<Rightarrow> string \<Rightarrow> string" where
  "pemText kind der =
     ''-----BEGIN '' @ kind @ ''-----'' @ newline # pemLines (base64 der) @ ''-----END '' @ kind @ ''-----'' @ [newline]"

subsection \<open>The packages crypto and os\<close>

text \<open>
  The template of a certificate.  The times are in nanoseconds; the usages are the values of the
  constants of \<open>crypto/x509\<close>.
\<close>

record certificate =
  SerialNumber :: int
  Organization :: "string list"
  NotBefore :: int
  NotAfter :: int
  KeyUsage :: nat
  ExtKeyUsage :: "nat list"
  BasicConstraintsValid :: bool
  IPAddresses :: "u8 list list"

text \<open>
  Keys are of an unspecified type.  \<open>InterfaceAddrs\<close> lists the addresses of the interfaces, those that
  are an \<open>*net.IPNet\<close> with their bytes; \<open>CreateFile\<close> is \<open>os.Create\<close> and \<open>os.OpenFile\<close> with
  \<open>O_CREATE|O_TRUNC\<close> and a mode; \<open>WriteOpen\<close> writes to the file just opened.
\<close>

record ('k, 'w) cert_api =
  GenerateKey :: "'w \<Rightarrow> 'w \<times> 'k option"
  RandInt :: "int \<Rightarrow> 'w \<Rightarrow> 'w \<times> int option"
  InterfaceAddrs :: "'w \<Rightarrow> u8 list option list option"
  CreateCertificate :: "certificate \<Rightarrow> 'k \<Rightarrow> 'w \<Rightarrow> 'w \<times> string option"
  MarshalECPrivateKey :: "'k \<Rightarrow> string option"
  CreateFile :: "string \<Rightarrow> int \<Rightarrow> 'w \<Rightarrow> 'w \<times> bool"
  WriteOpen :: "string \<Rightarrow> string \<Rightarrow> 'w \<Rightarrow> 'w \<times> bool"

definition IsLoopback :: "u8 list \<Rightarrow> bool" where
  "IsLoopback ip =
     (case To4 ip of
        Some ip4 \<Rightarrow> hd ip4 = 127
      | None \<Rightarrow> ip = [0, 0, 0, 0, 0, 0, 0, 0, 0, 0, 0, 0, 0, 0, 0, 1])"

definition defaultMode :: int where
  "defaultMode = 438"

definition keyMode :: int where
  "keyMode = 384"

definition oneYear :: int where
  "oneYear = 365 * 24 * 3600000000000"

subsection \<open>The certificate\<close>

fun outerIPs :: "u8 list option list \<Rightarrow> u8 list list" where
  "outerIPs [] = []"
| "outerIPs (addr # addrs) =
     (case addr of
        None \<Rightarrow> outerIPs addrs
      | Some ip \<Rightarrow> if \<not> IsLoopback ip then ip # outerIPs addrs else outerIPs addrs)"

definition certIPs :: "u8 list option list option \<Rightarrow> u8 list list" where
  "certIPs addrs =
     (case addrs of None \<Rightarrow> [] | Some as \<Rightarrow> outerIPs as)
     @ [case ParseIP ''127.0.0.1'' of None \<Rightarrow> [] | Some ip \<Rightarrow> ip]"

definition certTemplate :: "int \<Rightarrow> int \<Rightarrow> u8 list option list option \<Rightarrow> certificate" where
  "certTemplate serialNumber notBefore addrs =
     \<lparr>SerialNumber = serialNumber, Organization = [''Shield-Core''], NotBefore = notBefore,
      NotAfter = notBefore + oneYear, KeyUsage = 4 OR 1, ExtKeyUsage = [1], BasicConstraintsValid = True,
      IPAddresses = certIPs addrs\<rparr>"

definition generateSelfSignedCert ::
  "'w goos \<Rightarrow> ('k, 'w) cert_api \<Rightarrow> string \<Rightarrow> string \<Rightarrow> 'w \<Rightarrow> 'w \<times> bool" where
  "generateSelfSignedCert os ca certPath keyPath w =
     (case GenerateKey ca w of
        (w1, None) \<Rightarrow> (w1, False)
      | (w1, Some priv) \<Rightarrow>
     (let notBefore = NowNano os w1 in
      case RandInt ca (2 ^ 128) w1 of
        (w2, None) \<Rightarrow> (w2, False)
      | (w2, Some serialNumber) \<Rightarrow>
     (let cert = certTemplate serialNumber notBefore (InterfaceAddrs ca w2) in
      case CreateCertificate ca cert priv w2 of
        (w3, None) \<Rightarrow> (w3, False)
      | (w3, Some derBytes) \<Rightarrow>
     (case CreateFile ca certPath defaultMode w3 of
        (w4, False) \<Rightarrow> (w4, False)
      | (w4, True) \<Rightarrow>
     (case WriteOpen ca certPath (pemText ''CERTIFICATE'' derBytes) w4 of
        (w5, False) \<Rightarrow> (w5, False)
      | (w5, True) \<Rightarrow>
     (case CreateFile ca keyPath keyMode w5 of
        (w6, False) \<Rightarrow> (w6, False)
      | (w6, True) \<Rightarrow>
     (case MarshalECPrivateKey ca priv of
        None \<Rightarrow> (w6, False)
      | Some privBytes \<Rightarrow> WriteOpen ca keyPath (pemText ''EC PRIVATE KEY'' privBytes) w6)))))))"

text \<open>\<^term>\<open>False\<close> beside the world: the process ends (\<open>log.Fatalf\<close>).\<close>

definition ensureCertificatesExist ::
  "'w goos \<Rightarrow> ('k, 'w) cert_api \<Rightarrow> string \<Rightarrow> string \<Rightarrow> 'w \<Rightarrow> 'w \<times> bool" where
  "ensureCertificatesExist os ca certPath keyPath w =
     (if Stat os certPath w \<and> Stat os keyPath w then (w, True)
      else generateSelfSignedCert os ca certPath keyPath w)"

subsection \<open>What the files hold\<close>

text \<open>
  Opening a file with \<open>O_CREATE|O_TRUNC\<close> leaves it empty, a write appends to it, calls that fail or
  concern another file leave the rest alone, and the crypto packages write no files.
\<close>

definition file_contract :: "'w goos \<Rightarrow> ('k, 'w) cert_api \<Rightarrow> bool" where
  "file_contract os ca \<longleftrightarrow>
     (\<forall>f mode w w'. CreateFile ca f mode w = (w', True) \<longrightarrow> ReadFile os f w' = Some []) \<and>
     (\<forall>f mode w g. g \<noteq> f \<longrightarrow> ReadFile os g (fst (CreateFile ca f mode w)) = ReadFile os g w) \<and>
     (\<forall>f c w w' old. WriteOpen ca f c w = (w', True) \<longrightarrow> ReadFile os f w = Some old \<longrightarrow>
        ReadFile os f w' = Some (old @ c)) \<and>
     (\<forall>f c w g. g \<noteq> f \<longrightarrow> ReadFile os g (fst (WriteOpen ca f c w)) = ReadFile os g w) \<and>
     (\<forall>w g. ReadFile os g (fst (GenerateKey ca w)) = ReadFile os g w) \<and>
     (\<forall>n w g. ReadFile os g (fst (RandInt ca n w)) = ReadFile os g w) \<and>
     (\<forall>t k w g. ReadFile os g (fst (CreateCertificate ca t k w)) = ReadFile os g w)"

lemma file_contractD:
  assumes "file_contract os ca"
  shows "CreateFile ca f mode w = (w', True) \<Longrightarrow> ReadFile os f w' = Some []"
    "CreateFile ca f mode w = (w', ok) \<Longrightarrow> g \<noteq> f \<Longrightarrow> ReadFile os g w' = ReadFile os g w"
    "WriteOpen ca f c w = (w', True) \<Longrightarrow> ReadFile os f w = Some old \<Longrightarrow> ReadFile os f w' = Some (old @ c)"
    "WriteOpen ca f c w = (w', ok) \<Longrightarrow> g \<noteq> f \<Longrightarrow> ReadFile os g w' = ReadFile os g w"
    "GenerateKey ca w = (w', k) \<Longrightarrow> ReadFile os g w' = ReadFile os g w"
    "RandInt ca n w = (w', i) \<Longrightarrow> ReadFile os g w' = ReadFile os g w"
    "CreateCertificate ca t key w = (w', d) \<Longrightarrow> ReadFile os g w' = ReadFile os g w"
  using assms unfolding file_contract_def by (metis fst_conv)+

lemma outerIPs_set: "set (outerIPs addrs) = {ip. Some ip \<in> set addrs \<and> \<not> IsLoopback ip}"
  by (induction addrs) (auto split: option.splits)

lemma generated_elsewhere:
  assumes fc: "file_contract os ca" and run: "generateSelfSignedCert os ca certPath keyPath w = (w', ok)"
    and g: "g \<noteq> certPath" "g \<noteq> keyPath"
  shows "ReadFile os g w' = ReadFile os g w"
  using run file_contractD(2,4,5,6,7)[OF fc] g
  by (auto simp: generateSelfSignedCert_def Let_def split: prod.splits option.splits bool.splits)

lemma generatedE:
  assumes "generateSelfSignedCert os ca certPath keyPath w = (w', True)"
  obtains w1 w2 w3 w4 w5 w6 priv serial der bytes where
    "GenerateKey ca w = (w1, Some priv)" "RandInt ca (2 ^ 128) w1 = (w2, Some serial)"
    "CreateCertificate ca (certTemplate serial (NowNano os w1) (InterfaceAddrs ca w2)) priv w2 = (w3, Some der)"
    "MarshalECPrivateKey ca priv = Some bytes"
    "CreateFile ca certPath defaultMode w3 = (w4, True)"
    "WriteOpen ca certPath (pemText ''CERTIFICATE'' der) w4 = (w5, True)"
    "CreateFile ca keyPath keyMode w5 = (w6, True)"
    "WriteOpen ca keyPath (pemText ''EC PRIVATE KEY'' bytes) w6 = (w', True)"
  using assms by (auto simp: generateSelfSignedCert_def Let_def split: prod.splits option.splits bool.splits)

lemma generated_files:
  assumes fc: "file_contract os ca" and paths: "certPath \<noteq> keyPath"
    and run: "generateSelfSignedCert os ca certPath keyPath w = (w', True)"
  shows "\<exists>w1 w2 w3 priv serial der bytes.
    GenerateKey ca w = (w1, Some priv) \<and> RandInt ca (2 ^ 128) w1 = (w2, Some serial) \<and>
    CreateCertificate ca (certTemplate serial (NowNano os w1) (InterfaceAddrs ca w2)) priv w2 = (w3, Some der) \<and>
    MarshalECPrivateKey ca priv = Some bytes \<and>
    ReadFile os certPath w' = Some (pemText ''CERTIFICATE'' der) \<and>
    ReadFile os keyPath w' = Some (pemText ''EC PRIVATE KEY'' bytes)"
proof -
  from run obtain w1 w2 w3 w4 w5 w6 priv serial der bytes where
    steps: "GenerateKey ca w = (w1, Some priv)" "RandInt ca (2 ^ 128) w1 = (w2, Some serial)"
      "CreateCertificate ca (certTemplate serial (NowNano os w1) (InterfaceAddrs ca w2)) priv w2 = (w3, Some der)"
      "MarshalECPrivateKey ca priv = Some bytes"
    and files: "CreateFile ca certPath defaultMode w3 = (w4, True)"
      "WriteOpen ca certPath (pemText ''CERTIFICATE'' der) w4 = (w5, True)"
      "CreateFile ca keyPath keyMode w5 = (w6, True)"
      "WriteOpen ca keyPath (pemText ''EC PRIVATE KEY'' bytes) w6 = (w', True)"
    by (rule generatedE)
  note d = file_contractD[OF fc]
  have "ReadFile os certPath w5 = Some (pemText ''CERTIFICATE'' der)" using d(3)[OF files(2) d(1)[OF files(1)]] by simp
  moreover have "ReadFile os certPath w' = ReadFile os certPath w5"
    using d(2)[OF files(3) paths] d(4)[OF files(4) paths] by simp
  moreover have "ReadFile os keyPath w' = Some (pemText ''EC PRIVATE KEY'' bytes)"
    using d(3)[OF files(4) d(1)[OF files(3)]] by simp
  ultimately show ?thesis using steps by auto
qed

subsection \<open>The reference packages\<close>

definition refCA :: "string option \<Rightarrow> (nat, world) cert_api" where
  "refCA encoded =
     \<lparr>GenerateKey = (\<lambda>w. (w, Some 5)), RandInt = (\<lambda>n w. (w, Some 42)),
      InterfaceAddrs = (\<lambda>w. Some [Some [127, 0, 0, 1], None, Some [10, 0, 0, 1]]),
      CreateCertificate = (\<lambda>t k w. (w, Some ''DER'')), MarshalECPrivateKey = (\<lambda>k. encoded),
      CreateFile = (\<lambda>f mode w.
        (w\<lparr>wFiles := AList.update f [] (wFiles w),
           wSecret := (if mode = keyMode \<and> map_of (wFiles w) f = None then f # wSecret w else wSecret w)\<rparr>, True)),
      WriteOpen = (\<lambda>f c w. case map_of (wFiles w) f of
         None \<Rightarrow> (w, False)
       | Some old \<Rightarrow> (w\<lparr>wFiles := AList.update f (old @ c) (wFiles w)\<rparr>, True))\<rparr>"

lemma refCA_contract: "file_contract refOS (refCA encoded)"
  by (auto simp: file_contract_def refCA_def refOS_def update_conv' split: option.splits)

text \<open>
  When the key cannot be encoded the process ends, but the empty key file it has already created is
  taken for a key by the next start.
\<close>

lemma empty_key_accepted:
  "\<exists>w. ensureCertificatesExist refOS (refCA None) ''conf/cert.pem'' ''conf/key.pem'' emptyWorld = (w, False) \<and>
     ensureCertificatesExist refOS (refCA (Some ''KEY'')) ''conf/cert.pem'' ''conf/key.pem'' w = (w, True) \<and>
     ReadFile refOS ''conf/key.pem'' w = Some []"
  by (auto simp: ensureCertificatesExist_def generateSelfSignedCert_def refCA_def refOS_def emptyWorld_def Let_def)

subsection \<open>Properties\<close>

text \<open>
  C30: The certificate is made at most once and completely: a pair of files that is there is left alone,
  and when the start goes on without one the certificate file holds the certificate signed for a new
  key, valid for a year from now, for 127.0.0.1 and exactly the addresses of the interfaces that are
  no loopback, the key file holds that key, and no other file has changed.
\<close>

theorem certificate_complete:
  assumes "file_contract os ca" "certPath \<noteq> keyPath"
    and "ensureCertificatesExist os ca certPath keyPath w = (w', ok)"
  shows "(\<forall>g. g \<noteq> certPath \<longrightarrow> g \<noteq> keyPath \<longrightarrow> ReadFile os g w' = ReadFile os g w) \<and>
    (Stat os certPath w \<and> Stat os keyPath w \<longrightarrow> ok \<and> w' = w) \<and>
    (ok \<and> \<not> (Stat os certPath w \<and> Stat os keyPath w) \<longrightarrow>
      (\<exists>w1 w2 w3 priv cert der bytes. GenerateKey ca w = (w1, Some priv) \<and>
         RandInt ca (2 ^ 128) w1 = (w2, Some (SerialNumber cert)) \<and>
         NotBefore cert = NowNano os w1 \<and> NotAfter cert = NowNano os w1 + 365 * 24 * 3600000000000 \<and>
         set (IPAddresses cert) =
           {ip. \<exists>as. InterfaceAddrs ca w2 = Some as \<and> Some ip \<in> set as \<and> \<not> IsLoopback ip} \<union> {v4InV6Prefix @ [127, 0, 0, 1]} \<and>
         CreateCertificate ca cert priv w2 = (w3, Some der) \<and> MarshalECPrivateKey ca priv = Some bytes \<and>
         ReadFile os certPath w' = Some (pemText ''CERTIFICATE'' der) \<and>
         ReadFile os keyPath w' = Some (pemText ''EC PRIVATE KEY'' bytes)))"
proof (intro conjI impI allI)
  fix g assume "g \<noteq> certPath" "g \<noteq> keyPath"
  with assms(3) generated_elsewhere[OF assms(1)] show "ReadFile os g w' = ReadFile os g w"
    by (auto simp: ensureCertificatesExist_def split: if_splits)
next
  assume "Stat os certPath w \<and> Stat os keyPath w"
  with assms(3) show ok "w' = w" by (simp_all add: ensureCertificatesExist_def)
next
  assume "ok \<and> \<not> (Stat os certPath w \<and> Stat os keyPath w)"
  with assms(3) have "generateSelfSignedCert os ca certPath keyPath w = (w', True)"
    by (auto simp: ensureCertificatesExist_def split: if_splits)
  from generated_files[OF assms(1,2) this] obtain w1 w2 w3 priv serial der bytes where
    r: "GenerateKey ca w = (w1, Some priv)" "RandInt ca (2 ^ 128) w1 = (w2, Some serial)"
      "CreateCertificate ca (certTemplate serial (NowNano os w1) (InterfaceAddrs ca w2)) priv w2 = (w3, Some der)"
      "MarshalECPrivateKey ca priv = Some bytes" "ReadFile os certPath w' = Some (pemText ''CERTIFICATE'' der)"
      "ReadFile os keyPath w' = Some (pemText ''EC PRIVATE KEY'' bytes)" by blast
  have "ParseIP ''127.0.0.1'' = Some (v4InV6Prefix @ [127, 0, 0, 1])" by code_simp
  then have "set (certIPs addrs) =
      {ip. \<exists>as. addrs = Some as \<and> Some ip \<in> set as \<and> \<not> IsLoopback ip} \<union> {v4InV6Prefix @ [127, 0, 0, 1]}" for addrs
    by (auto simp: certIPs_def outerIPs_set split: option.splits)
  with r show "\<exists>w1 w2 w3 priv cert der bytes. GenerateKey ca w = (w1, Some priv) \<and>
      RandInt ca (2 ^ 128) w1 = (w2, Some (SerialNumber cert)) \<and>
      NotBefore cert = NowNano os w1 \<and> NotAfter cert = NowNano os w1 + 365 * 24 * 3600000000000 \<and>
      set (IPAddresses cert) =
        {ip. \<exists>as. InterfaceAddrs ca w2 = Some as \<and> Some ip \<in> set as \<and> \<not> IsLoopback ip} \<union> {v4InV6Prefix @ [127, 0, 0, 1]} \<and>
      CreateCertificate ca cert priv w2 = (w3, Some der) \<and> MarshalECPrivateKey ca priv = Some bytes \<and>
      ReadFile os certPath w' = Some (pemText ''CERTIFICATE'' der) \<and>
      ReadFile os keyPath w' = Some (pemText ''EC PRIVATE KEY'' bytes)"
    by (intro exI[of _ w1] exI[of _ w2] exI[of _ w3] exI[of _ priv]
        exI[of _ "certTemplate serial (NowNano os w1) (InterfaceAddrs ca w2)"] exI[of _ der] exI[of _ bytes])
      (simp add: certTemplate_def oneYear_def)
qed

theorem certificate_complete_witness:
  "\<exists>bytes. ReadFile refOS ''conf/key.pem'' (fst (ensureCertificatesExist refOS (refCA (Some ''KEY'')) ''conf/cert.pem'' ''conf/key.pem'' emptyWorld))
     = Some (pemText ''EC PRIVATE KEY'' bytes)"
proof -
  obtain w' ok where run: "ensureCertificatesExist refOS (refCA (Some ''KEY'')) ''conf/cert.pem'' ''conf/key.pem'' emptyWorld = (w', ok)"
    by fastforce
  then have ok
    by (auto simp: ensureCertificatesExist_def generateSelfSignedCert_def refCA_def refOS_def emptyWorld_def Let_def)
  moreover have "\<not> Stat refOS ''conf/cert.pem'' emptyWorld" by (simp add: refOS_def emptyWorld_def)
  ultimately show ?thesis using certificate_complete[OF refCA_contract _ run] run by auto
qed

end
