(* ===== verification/Process.thy ===== *)
theory Process
  imports Certificates Attach
begin

text \<open>
  The process from its start to its end (\<open>main\<close>): the certificate, the data path, the port, the drop of
  the privileges, serving, and the orderly shutdown.
\<close>

subsection \<open>The packages net, net/http, syscall and rlimit\<close>

text \<open>
  \<open>NetListen\<close> is \<open>net.Listen\<close>, \<open>ShutdownServer\<close> is \<open>server.Shutdown\<close>; \<open>LoadX509KeyPair\<close> is what
  \<open>ServeTLS\<close> does first, reading and parsing the two files.
\<close>

record 'w proc_api =
  RemoveMemlock :: "'w \<Rightarrow> 'w \<times> bool"
  Getenv :: "string \<Rightarrow> 'w \<Rightarrow> string"
  NetListen :: "string \<Rightarrow> 'w \<Rightarrow> 'w \<times> bool"
  Chown :: "string \<Rightarrow> int \<Rightarrow> int \<Rightarrow> 'w \<Rightarrow> 'w \<times> bool"
  Getuid :: "'w \<Rightarrow> int"
  Setgid :: "int \<Rightarrow> 'w \<Rightarrow> 'w \<times> bool"
  Setuid :: "int \<Rightarrow> 'w \<Rightarrow> 'w \<times> bool"
  LoadX509KeyPair :: "string \<Rightarrow> string \<Rightarrow> 'w \<Rightarrow> bool"
  ShutdownServer :: "'w \<Rightarrow> 'w \<times> bool"

definition nobody :: int where
  "nobody = 65534"

subsection \<open>Start\<close>

definition giveAway :: "'w proc_api \<Rightarrow> string \<Rightarrow> 'w \<Rightarrow> 'w" where
  "giveAway p path w = fst (Chown p path nobody nobody w)"

definition chownForNobody :: "'w goos \<Rightarrow> 'w proc_api \<Rightarrow> 'w \<Rightarrow> 'w" where
  "chownForNobody os p w =
     (let w1 = giveAway p (resolvePath os ''logs'' w) w;
          w2 = giveAway p (resolvePath os ''logs/mitigation.log'' w1) w1
      in fold (giveAway p)
           [''/sys/fs/bpf/shield_core'', ''/sys/fs/bpf/shield_core/xsks_map'', ''/sys/fs/bpf/shield_core/a2s_info'',
            ''/sys/fs/bpf/shield_core/ip_blacklist_map''] w2)"

text \<open>Both calls are made, and neither error stops the process.\<close>

definition dropPrivileges :: "'w proc_api \<Rightarrow> 'w \<Rightarrow> 'w" where
  "dropPrivileges p w = (if Getuid p w = 0 then fst (Setuid p nobody (fst (Setgid p nobody w))) else w)"

definition protectedInterface :: "'w proc_api \<Rightarrow> 'w \<Rightarrow> string" where
  "protectedInterface p w = (let iface = Getenv p ''SHIELD_IFACE'' w in if iface = [] then ''eth0'' else iface)"

text \<open>\<open>filepath.Dir\<close> of a path with a slash in it.\<close>

definition pathDir :: "string \<Rightarrow> string" where
  "pathDir path = rev (tl (dropWhile (\<lambda>c. c \<noteq> CHR ''/'') (rev path)))"

text \<open>
  How a start ends: three times with \<open>log.Fatalf\<close>, which leaves the process at once and skips every
  deferred call.
\<close>

datatype ('r, 'w) started =
    NoCertificate
  | PortTaken
  | NoKeyPair
  | Serving "('r, 'w) server" "'w XDPProgram option"

definition serveTLS ::
  "'w goos \<Rightarrow> 'w proc_api \<Rightarrow> config \<Rightarrow> string \<Rightarrow> string \<Rightarrow> ('r, 'w) server \<Rightarrow> 'w XDPProgram option
   \<Rightarrow> 'w \<Rightarrow> ('r, 'w) started \<times> 'w" where
  "serveTLS os p c certPath keyPath s prog w =
     (case NetListen p (Listen c) w of
        (w1, False) \<Rightarrow> (PortTaken, w1)
      | (w1, True) \<Rightarrow>
          (let w2 = dropPrivileges p (chownForNobody os p w1) in
           if LoadX509KeyPair p certPath keyPath w2 then (Serving s prog, w2) else (NoKeyPair, w2)))"

definition startProcess ::
  "'w goos \<Rightarrow> ('r, 'i, 'w) maxmind \<Rightarrow> ('l, 'w) xdp_api \<Rightarrow> ('k, 'w) cert_api \<Rightarrow> 'w proc_api
   \<Rightarrow> 'w \<Rightarrow> ('r, 'w) started \<times> 'w" where
  "startProcess os db x ca p w =
     (let w0 = fst (RemoveMemlock p w);
          c = mainConfig os w0;
          certPath = resolvePath os ''conf/cert.pem'' w0;
          keyPath = resolvePath os ''conf/key.pem'' w0;
          w1 = fst (MkdirAll os (pathDir certPath) w0)
      in case ensureCertificatesExist os ca certPath keyPath w1 of
           (w2, False) \<Rightarrow> (NoCertificate, w2)
         | (w2, True) \<Rightarrow>
             (case startServer os db x c (protectedInterface p w2) w2 of
                ((s, prog), w3) \<Rightarrow> serveTLS os p c certPath keyPath s prog w3))"

subsection \<open>Shutdown\<close>

text \<open>After the signal; the deferred calls run in the reverse order of their statements.\<close>

definition stopProcess ::
  "('r, 'i, 'w) maxmind \<Rightarrow> ('l, 'w) xdp_api \<Rightarrow> 'w proc_api \<Rightarrow> 'r GeoIPManager \<Rightarrow> 'w XDPProgram option
   \<Rightarrow> 'w \<Rightarrow> 'r GeoIPManager \<times> 'w" where
  "stopProcess db x p g prog w =
     (let w1 = fst (ShutdownServer p w) in
      case prog of
        None \<Rightarrow> CloseManager db (g, w1)
      | Some pr \<Rightarrow> CloseManager db (g, CloseXDP x pr (UnpinMaps x w1)))"

subsection \<open>What a start keeps\<close>

text \<open>Every call a start makes keeps \<open>Q\<close>, except the two that set the user and the group.\<close>

definition maps_keep :: "'w bpfObjects \<Rightarrow> ('w \<Rightarrow> bool) \<Rightarrow> bool" where
  "maps_keep prog Q \<longleftrightarrow>
     (\<forall>k v w. Q w \<longrightarrow> Q (fst (Put (CidrBlacklist prog) k v w))) \<and>
     (\<forall>k v w. Q w \<longrightarrow> Q (fst (Put (CidrWhitelist prog) k v w))) \<and>
     (\<forall>k v w. Q w \<longrightarrow> Q (fst (Put (ConfigMap prog) k v w)))"

definition start_keeps ::
  "'w goos \<Rightarrow> ('r, 'i, 'w) maxmind \<Rightarrow> ('l, 'w) xdp_api \<Rightarrow> ('w \<Rightarrow> bool) \<Rightarrow> bool" where
  "start_keeps os db x Q \<longleftrightarrow>
     (\<forall>d w. Q w \<longrightarrow> Q (fst (MkdirAll os d w))) \<and>
     (\<forall>r w. Q w \<longrightarrow> Q (CloseDB db r w)) \<and>
     (\<forall>l fd flags w. Q w \<longrightarrow> Q (fst (LinkSetXdpFdWithFlags x l fd flags w))) \<and>
     (\<forall>n f w. Q w \<longrightarrow> Q (PinMap x n f w)) \<and>
     (\<forall>f d w. Q w \<longrightarrow> Q (fst (LoadAndAssign x f d w))) \<and>
     (\<forall>f d w w' prog fd. LoadAndAssign x f d w = (w', Some (prog, fd)) \<longrightarrow> maps_keep prog Q)"

lemma fold_keeps: "(\<And>c w. Q w \<Longrightarrow> Q (f c w)) \<Longrightarrow> Q w \<Longrightarrow> Q (fold f cs w)"
  by (induction cs arbitrary: w) auto

lemma Reload_keeps:
  assumes "start_keeps os db x Q" "Q w"
  shows "Q (snd (Reload os db (g, w)))"
proof -
  have close: "Q w \<Longrightarrow> Q (closeOld db r w)" "Q w \<Longrightarrow> Q (CloseDB db a w)" for r a w
    using assms(1) by (simp_all add: start_keeps_def closeOld_def split: option.splits)
  have asn: "Q w \<Longrightarrow> Q (snd (loadASN os db f (g, w)))" for f g w
    using close by (auto simp: loadASN_def Let_def split: option.splits)
  have country: "Q w \<Longrightarrow> Q (snd (loadCountry os db f (g, w)))" for f g w
    using close by (auto simp: loadCountry_def Let_def split: option.splits)
  show ?thesis using asn[OF assms(2)] country unfolding Reload_def Let_def
    by (auto simp: case_prod_beta) (metis prod.collapse)
qed

lemma writes_keep:
  assumes "maps_keep (objs m) Q" "Q w"
  shows "Q (fst (BlockCIDR os m c w))" "Q (fst (AddWhitelistCIDR m c w))" "Q (fst (SetGeoIPPolicy m pol w))"
    "Q (fst (UpdateRateLimits m pps bps w))"
  using assms by (auto simp: maps_keep_def BlockCIDR_def AddWhitelistCIDR_def SetGeoIPPolicy_def UpdateRateLimits_def
      Let_def case_prod_beta split: sum.splits)

lemma restoreTargets_keeps:
  assumes "maps_keep (objs m) Q" "Q w"
  shows "objs (fst (restoreTargets os db wl ts (m, g, w))) = objs m \<and>
    Q (snd (snd (restoreTargets os db wl ts (m, g, w))))"
  using assms
proof (induction ts arbitrary: m g w)
  case (Cons t ts)
  obtain m1 w1 where a: "(if wl then AddWhitelistTarget t (m, w) else AddBlacklistTarget t (m, w)) = (m1, w1)" by fastforce
  then have m1: "objs m1 = objs m" "w1 = w" by (auto simp: AddWhitelistTarget_def AddBlacklistTarget_def split: if_splits)
  obtain g2 w2 where p: "applyTargetToMap os db m1 wl t (g, w1) = (g2, w2)" by fastforce
  have mk: "maps_keep (objs m1) Q" using Cons.prems(1) m1(1) by simp
  have "Q (fold (\<lambda>c w. fst (if wl then AddWhitelistCIDR m1 c w else BlockCIDR os m1 c w)) cs w1)" for cs
    by (rule fold_keeps) (use writes_keep[OF mk] Cons.prems(2) m1(2) in auto)
  then have "Q w2" using p by (auto simp: applyTargetToMap_def split: prod.splits)
  from Cons.IH[OF mk this] a p m1 show ?case by simp
qed simp

lemma startDatapath_keeps:
  assumes mk: "maps_keep prog Q" and q: "Q w"
  shows "Q (snd (startDatapath os db prog (s, w)))"
proof -
  let ?m = "NewMapManager prog"
  have m: "maps_keep (objs ?m) Q" using mk by (simp add: NewMapManager_def)
  have items: "Q w \<Longrightarrow> Q (fst (loadItems os ?m is (w, n)))" for "is" w n
    unfolding loadItems_count by (rule count_ok_invariant) (use writes_keep(1)[OF m] in \<open>simp_all add: succeeded_def\<close>)
  have rep: "Q w \<Longrightarrow> Q (loadReputationDatabase os (Some ?m) f w)" for f w
    using items by (simp add: loadReputationDatabase_def split: option.splits)
  have res: "Q (snd (snd (restoreRulesState os db f (Some ?m, g, v))))" if v: "Q v" for f g v
  proof -
    have "Q (snd (snd (restoreTargets os db True ts (restoreTargets os db False bs (?m, g, fst (SetGeoIPPolicy ?m pol v))))))"
      for ts bs pol
    proof -
      obtain m2 g2 v2 where r: "restoreTargets os db False bs (?m, g, fst (SetGeoIPPolicy ?m pol v)) = (m2, g2, v2)"
        by (metis prod.collapse)
      with restoreTargets_keeps[OF m writes_keep(3)[OF m v], of os db False bs g pol] m
      have "maps_keep (objs m2) Q" "Q v2" by auto
      from restoreTargets_keeps[OF this, of os db True ts g2] r show ?thesis by simp
    qed
    with v show ?thesis
      by (auto simp: restoreRulesState_def case_prod_beta split: option.splits)
  qed
  have "Q (fst (UpdateRateLimits ?m 5000 (10 * 1024 * 1024) w))" by (rule writes_keep(4)[OF m q])
  then show ?thesis using rep res by (simp add: startDatapath_def Let_def case_prod_beta)
qed

lemma LoadXDP_keeps:
  assumes sk: "start_keeps os db x Q" and q: "Q w"
  shows "Q (fst (LoadXDPProgram os x iface obj w))"
    "LoadXDPProgram os x iface obj w = (w', Inr prog) \<Longrightarrow> maps_keep (prog_objs prog) Q"
proof -
  have d: "Q v \<Longrightarrow> Q (detachOld x l v)" "Q v \<Longrightarrow> Q (fst (MkdirAll os f v))" "Q v \<Longrightarrow> Q (fst (LoadAndAssign x f k v))" for l f k v
    using sk by (simp_all add: start_keeps_def detachOld_def)
  have pin: "Q v \<Longrightarrow> Q (pinShared x v)" for v
    unfolding pinShared_def by (rule fold_keeps) (use sk in \<open>simp_all add: start_keeps_def\<close>)
  have att: "Q v \<Longrightarrow> Q (fst (attachXDP x l fd v))" for l fd v
    using sk by (auto simp: start_keeps_def attachXDP_def split: prod.splits bool.splits) (metis fst_conv)+
  show "Q (fst (LoadXDPProgram os x iface obj w))"
  proof (cases "LinkByName x iface w")
    case None
    with q show ?thesis by (simp add: LoadXDPProgram_def)
  next
    case (Some l)
    obtain w1 r where r: "LoadAndAssign x obj pinDir w = (w1, r)" by fastforce
    with d(3)[OF q] have w1: "Q w1" by (metis fst_conv)
    have "Q (fst (attachXDP x l fd (detachOld x l (pinShared x (fst (MkdirAll os pinDir (detachOld x l (detachOld x l w1))))))))" for fd
      by (intro att d pin w1)
    then have "attachXDP x l fd (detachOld x l (pinShared x (fst (MkdirAll os pinDir (detachOld x l (detachOld x l w1)))))) = (v, ok) \<Longrightarrow> Q v"
      for fd v ok by (metis fst_conv)
    with Some r q w1 show ?thesis
      by (auto simp: LoadXDPProgram_def Let_def split: option.splits prod.splits bool.splits)
  qed
  show "maps_keep (prog_objs prog) Q" if "LoadXDPProgram os x iface obj w = (w', Inr prog)"
  proof -
    from that obtain w1 fd where "LoadAndAssign x obj pinDir w = (w1, Some (prog_objs prog, fd))"
      by (auto simp: LoadXDPProgram_def Let_def split: option.splits if_splits prod.splits bool.splits)
    with sk show ?thesis unfolding start_keeps_def by blast
  qed
qed

lemma startServer_keeps:
  assumes sk: "start_keeps os db x Q" and q: "Q w"
  shows "Q (snd (startServer os db x c iface w))"
proof -
  obtain g w1 where g: "InitGeoIPManager os db (AsnDBPath c) (CountryDBPath c) w = (g, w1)" by fastforce
  then have w1: "Q w1" using Reload_keeps[OF sk q] by (metis InitGeoIPManager_def snd_conv)
  obtain w2 r where r: "LoadXDPProgram os x iface (resolvePath os ''src/bpf/xdp_main.o'' w1) w1 = (w2, r)" by fastforce
  then have w2: "Q w2" using LoadXDP_keeps(1)[OF sk w1] by (metis fst_conv)
  show ?thesis
  proof (cases r)
    case (Inl e)
    with g r w2 show ?thesis by (simp add: startServer_def)
  next
    case (Inr prog)
    with r have "maps_keep (prog_objs prog) Q" using LoadXDP_keeps(2)[OF sk w1] by simp
    from startDatapath_keeps[OF this w2] Inr g r show ?thesis by (simp add: startServer_def Let_def case_prod_beta)
  qed
qed

subsection \<open>The key and the user\<close>

text \<open>
  Of a file \<open>k\<close> (the private key): \<open>root_only\<close> tells that only the superuser may read it.  While the
  process is the superuser's, every call it makes leaves it so, and leaves the file there and readable
  for the superuser only; a file opened with mode 0600 that was not there is readable only for its
  owner.  Changing the user makes the process \<open>nobody\<close>'s and leaves the files alone, or is refused (the
  superuser of a container may lack the capability) and leaves the user as he was.  Anybody but the
  superuser cannot load a key he may not read.
\<close>

definition before_key :: "'w goos \<Rightarrow> 'w proc_api \<Rightarrow> ('w \<Rightarrow> bool) \<Rightarrow> string \<Rightarrow> 'w \<Rightarrow> bool" where
  "before_key os p root_only k w \<longleftrightarrow> Getuid p w = 0 \<and> (Stat os k w \<longrightarrow> root_only w)"

definition with_key :: "'w goos \<Rightarrow> 'w proc_api \<Rightarrow> ('w \<Rightarrow> bool) \<Rightarrow> string \<Rightarrow> 'w \<Rightarrow> bool" where
  "with_key os p root_only k w \<longleftrightarrow> Getuid p w = 0 \<and> Stat os k w \<and> root_only w"

definition calls_keep ::
  "'w goos \<Rightarrow> ('r, 'i, 'w) maxmind \<Rightarrow> ('l, 'w) xdp_api \<Rightarrow> ('k, 'w) cert_api \<Rightarrow> 'w proc_api \<Rightarrow> string
   \<Rightarrow> ('w \<Rightarrow> bool) \<Rightarrow> bool" where
  "calls_keep os db x ca p k Q \<longleftrightarrow>
     start_keeps os db x Q \<and>
     (\<forall>w. Q w \<longrightarrow> Q (fst (RemoveMemlock p w))) \<and>
     (\<forall>w. Q w \<longrightarrow> Q (fst (GenerateKey ca w))) \<and>
     (\<forall>n w. Q w \<longrightarrow> Q (fst (RandInt ca n w))) \<and>
     (\<forall>t key w. Q w \<longrightarrow> Q (fst (CreateCertificate ca t key w))) \<and>
     (\<forall>f mode w. f = k \<longrightarrow> mode = keyMode \<longrightarrow> Q w \<longrightarrow> Q (fst (CreateFile ca f mode w))) \<and>
     (\<forall>f mode w. f \<noteq> k \<longrightarrow> Q w \<longrightarrow> Q (fst (CreateFile ca f mode w))) \<and>
     (\<forall>f c w. Q w \<longrightarrow> Q (fst (WriteOpen ca f c w))) \<and>
     (\<forall>a w. Q w \<longrightarrow> Q (fst (NetListen p a w))) \<and>
     (\<forall>f u g w. f \<noteq> k \<longrightarrow> Q w \<longrightarrow> Q (fst (Chown p f u g w))) \<and>
     (\<forall>g w. Q w \<longrightarrow> Q (fst (Setgid p g w)))"

definition key_contract ::
  "'w goos \<Rightarrow> ('r, 'i, 'w) maxmind \<Rightarrow> ('l, 'w) xdp_api \<Rightarrow> ('k, 'w) cert_api \<Rightarrow> 'w proc_api
   \<Rightarrow> ('w \<Rightarrow> bool) \<Rightarrow> string \<Rightarrow> bool" where
  "key_contract os db x ca p root_only k \<longleftrightarrow>
     calls_keep os db x ca p k (before_key os p root_only k) \<and>
     calls_keep os db x ca p k (with_key os p root_only k) \<and>
     (\<forall>mode w w'. CreateFile ca k mode w = (w', True) \<longrightarrow> Stat os k w') \<and>
     (\<forall>w w'. Setuid p nobody w = (w', True) \<longrightarrow> Getuid p w' = nobody \<and> (root_only w \<longrightarrow> root_only w')) \<and>
     (\<forall>w w'. Setuid p nobody w = (w', False) \<longrightarrow> Getuid p w' = Getuid p w) \<and>
     (\<forall>c w. root_only w \<longrightarrow> Getuid p w \<noteq> 0 \<longrightarrow> \<not> LoadX509KeyPair p c k w)"

lemma key_contractD:
  assumes "key_contract os db x ca p root_only k"
  shows "calls_keep os db x ca p k (before_key os p root_only k)" "calls_keep os db x ca p k (with_key os p root_only k)"
    "\<forall>mode w w'. CreateFile ca k mode w = (w', True) \<longrightarrow> Stat os k w'"
    "\<forall>w w'. Setuid p nobody w = (w', True) \<longrightarrow> Getuid p w' = nobody \<and> (root_only w \<longrightarrow> root_only w')"
    "\<forall>w w'. Setuid p nobody w = (w', False) \<longrightarrow> Getuid p w' = Getuid p w"
    "\<forall>c w. root_only w \<longrightarrow> Getuid p w \<noteq> 0 \<longrightarrow> \<not> LoadX509KeyPair p c k w"
proof -
  note c1 = assms[unfolded key_contract_def]
  note c2 = conjunct2[OF c1] note c3 = conjunct2[OF c2] note c4 = conjunct2[OF c3] note c5 = conjunct2[OF c4]
  show "calls_keep os db x ca p k (before_key os p root_only k)" by (rule conjunct1[OF c1])
  show "calls_keep os db x ca p k (with_key os p root_only k)" by (rule conjunct1[OF c2])
  show "\<forall>mode w w'. CreateFile ca k mode w = (w', True) \<longrightarrow> Stat os k w'" by (rule conjunct1[OF c3])
  show "\<forall>w w'. Setuid p nobody w = (w', True) \<longrightarrow> Getuid p w' = nobody \<and> (root_only w \<longrightarrow> root_only w')"
    by (rule conjunct1[OF c4])
  show "\<forall>w w'. Setuid p nobody w = (w', False) \<longrightarrow> Getuid p w' = Getuid p w" by (rule conjunct1[OF c5])
  show "\<forall>c w. root_only w \<longrightarrow> Getuid p w \<noteq> 0 \<longrightarrow> \<not> LoadX509KeyPair p c k w" by (rule conjunct2[OF c5])
qed

lemma ensure_with_key:
  assumes kc: "key_contract os db x ca p root_only k" and cp: "certPath \<noteq> k"
    and w: "before_key os p root_only k w" and run: "ensureCertificatesExist os ca certPath k w = (w', True)"
  shows "with_key os p root_only k w'"
proof (cases "Stat os certPath w \<and> Stat os k w")
  case True
  with run w show ?thesis by (simp add: ensureCertificatesExist_def before_key_def with_key_def)
next
  case False
  with run have "generateSelfSignedCert os ca certPath k w = (w', True)"
    by (auto simp: ensureCertificatesExist_def split: if_splits)
  then obtain w1 w2 w3 w4 w5 w6 priv serial der bytes where steps:
      "GenerateKey ca w = (w1, Some priv)" "RandInt ca (2 ^ 128) w1 = (w2, Some serial)"
      "CreateCertificate ca (certTemplate serial (NowNano os w1) (InterfaceAddrs ca w2)) priv w2 = (w3, Some der)"
      "CreateFile ca certPath defaultMode w3 = (w4, True)"
      "WriteOpen ca certPath (pemText ''CERTIFICATE'' der) w4 = (w5, True)"
      "CreateFile ca k keyMode w5 = (w6, True)"
      "WriteOpen ca k (pemText ''EC PRIVATE KEY'' bytes) w6 = (w', True)"
    by (rule generatedE)
  let ?J = "before_key os p root_only k"
  note keep = key_contractD(1)[OF kc]
  have J: "?J w1" using keep w steps(1) unfolding calls_keep_def by (metis fst_conv)
  then have "?J w2" using keep steps(2) unfolding calls_keep_def by (metis fst_conv)
  then have "?J w3" using keep steps(3) unfolding calls_keep_def by (metis fst_conv)
  then have "?J w4" using keep steps(4) cp unfolding calls_keep_def by (metis fst_conv)
  then have "?J w5" using keep steps(5) unfolding calls_keep_def by (metis fst_conv)
  then have "?J w6" using keep steps(6) unfolding calls_keep_def by (metis fst_conv)
  moreover have "Stat os k w6" using key_contractD(3)[OF kc] steps(6) by blast
  ultimately have "with_key os p root_only k w6" by (simp add: before_key_def with_key_def)
  with steps(7) key_contractD(2)[OF kc] show ?thesis unfolding calls_keep_def by (metis fst_conv)
qed

lemma resolvePath_cases: "resolvePath os f w = f \<or> resolvePath os f w = ''../'' @ f"
  by (simp add: resolvePath_def Let_def)

lemma chown_keeps:
  assumes keep: "calls_keep os db x ca p k Q" and k: "k = ''conf/key.pem'' \<or> k = ''../conf/key.pem''" and q: "Q w"
  shows "Q (chownForNobody os p w)"
proof -
  have give: "Q (giveAway p f v)" if "f \<noteq> k" "Q v" for f v
    using keep that by (simp add: calls_keep_def giveAway_def)
  have "resolvePath os ''logs'' v \<noteq> k" "resolvePath os ''logs/mitigation.log'' v \<noteq> k" for v
    using resolvePath_cases[of os "''logs''" v] resolvePath_cases[of os "''logs/mitigation.log''" v] k by auto
  then show ?thesis using q k by (auto simp: chownForNobody_def Let_def intro!: give)
qed

text \<open>
  How a start by the superuser can end: in a fatal error, or, when the kernel refused to change the
  user, serving with the superuser's rights.
\<close>

definition root_outcome :: "'w proc_api \<Rightarrow> ('r, 'w) started \<times> 'w \<Rightarrow> bool" where
  "root_outcome p res \<longleftrightarrow>
     (case res of
        (Serving s prog, w) \<Rightarrow> Getuid p w = 0 \<and> (\<exists>u. Getuid p u = 0 \<and> \<not> snd (Setuid p nobody u))
      | _ \<Rightarrow> True)"

lemma serveTLS_root:
  assumes kc: "key_contract os db x ca p root_only k" and k: "k = ''conf/key.pem'' \<or> k = ''../conf/key.pem''"
    and w: "with_key os p root_only k w"
  shows "root_outcome p (serveTLS os p c certPath k s prog w)"
proof -
  let ?K = "with_key os p root_only k"
  note keep = key_contractD(2)[OF kc]
  obtain w1 ok where l: "NetListen p (Listen c) w = (w1, ok)" by fastforce
  let ?ch = "chownForNobody os p w1" and ?g = "fst (Setgid p nobody (chownForNobody os p w1))"
  have "?K w1" using keep w l unfolding calls_keep_def by (metis fst_conv)
  then have "?K ?ch" by (rule chown_keeps[OF keep k])
  then have K: "?K ?g" "Getuid p ?ch = 0" using keep by (simp_all add: calls_keep_def with_key_def)
  then have g: "root_only ?g" "Getuid p ?g = 0" by (simp_all add: with_key_def)
  obtain w2 ok2 where su: "Setuid p nobody ?g = (w2, ok2)" by fastforce
  have run: "serveTLS os p c certPath k s prog w =
      (if \<not> ok then (PortTaken, w1)
       else if LoadX509KeyPair p certPath k w2 then (Serving s prog, w2) else (NoKeyPair, w2))"
    using l K(2) su by (simp add: serveTLS_def dropPrivileges_def Let_def split: bool.split)
  show ?thesis
  proof (cases ok2)
    case True
    with key_contractD(4)[OF kc, rule_format, of ?g w2] su g(1) have "Getuid p w2 = nobody" "root_only w2" by simp_all
    with key_contractD(6)[OF kc] have "\<not> LoadX509KeyPair p certPath k w2" by (simp add: nobody_def)
    with run show ?thesis by (simp add: root_outcome_def)
  next
    case False
    then have "Getuid p w2 = 0" using key_contractD(5)[OF kc, rule_format, of ?g w2] su g(2) by simp
    moreover have "\<exists>u. Getuid p u = 0 \<and> \<not> snd (Setuid p nobody u)" using False su g(2)
      by (intro exI[of _ ?g]) simp
    ultimately have "Getuid p w2 = 0 \<and> (\<exists>u. Getuid p u = 0 \<and> \<not> snd (Setuid p nobody u))" by blast
    with run show ?thesis by (simp add: root_outcome_def)
  qed
qed

subsection \<open>A reference process\<close>

definition refProc :: "bool \<Rightarrow> world proc_api" where
  "refProc listening =
     \<lparr>RemoveMemlock = (\<lambda>w. (w, True)), Getenv = (\<lambda>n w. []), NetListen = (\<lambda>a w. (w, listening)),
      Chown = (\<lambda>f u g w. (w, True)), Getuid = wUser,
      Setgid = (\<lambda>g w. if wUser w = 0 then (w\<lparr>wGroup := g\<rparr>, True) else (w, False)),
      Setuid = (\<lambda>u w. if wUser w = 0 then (w\<lparr>wUser := u\<rparr>, True) else (w, False)),
      LoadX509KeyPair = (\<lambda>c k w. map_of (wFiles w) c \<noteq> None \<and> map_of (wFiles w) k \<noteq> None \<and>
        (wUser w = 0 \<or> k \<notin> set (wSecret w))),
      ShutdownServer = (\<lambda>w. (w, True))\<rparr>"

lemma refProc_start_keeps:
  assumes "\<And>w l. Q (w\<lparr>wXdp := l\<rparr>) = Q w" "\<And>w l. Q (w\<lparr>wBlacklist := l\<rparr>) = Q w"
    "\<And>w l. Q (w\<lparr>wWhitelist := l\<rparr>) = Q w" "\<And>w l. Q (w\<lparr>wConfig := l\<rparr>) = Q w"
  shows "start_keeps refOS refDB refXdp Q"
  using assms by (auto simp: start_keeps_def maps_keep_def refOS_def refDB_def refXdp_def refObjs_def ref_map_def Let_def)

lemma refProc_contract:
  "key_contract refOS refDB refXdp (refCA (Some e)) (refProc listening) (\<lambda>w. k \<in> set (wSecret w)) k"
proof -
  let ?J = "before_key refOS (refProc listening) (\<lambda>w. k \<in> set (wSecret w)) k"
    and ?K = "with_key refOS (refProc listening) (\<lambda>w. k \<in> set (wSecret w)) k"
  have "start_keeps refOS refDB refXdp ?J" "start_keeps refOS refDB refXdp ?K"
    by (intro refProc_start_keeps; simp add: before_key_def with_key_def refOS_def refProc_def)+
  then have "calls_keep refOS refDB refXdp (refCA (Some e)) (refProc listening) k ?J"
    "calls_keep refOS refDB refXdp (refCA (Some e)) (refProc listening) k ?K"
    by (auto simp: calls_keep_def before_key_def with_key_def refProc_def refCA_def refOS_def update_conv' split: option.splits)
  then show ?thesis
    by (auto simp: key_contract_def refProc_def refCA_def refOS_def update_conv' nobody_def)
qed

text \<open>When the port is taken the process leaves at once, and the program stays attached.\<close>

lemma port_taken_leaves_program:
  "\<exists>w. startProcess refOS refDB refXdp (refCA (Some ''KEY'')) (refProc False) emptyWorld = (PortTaken, w) \<and>
     map_of (wXdp w) ''eth0'' = Some 7"
proof -
  let ?run = "startProcess refOS refDB refXdp (refCA (Some ''KEY'')) (refProc False) emptyWorld"
  have "case ?run of (PortTaken, w) \<Rightarrow> map_of (wXdp w) ''eth0'' = Some 7 | _ \<Rightarrow> False" by code_simp
  then show ?thesis by (auto split: prod.splits started.splits)
qed

subsection \<open>Properties\<close>

text \<open>
  C29: Started by the superuser, the process never serves with its privileges dropped: the key is readable
  for the superuser only (it was, or it has just been made with mode 0600), nothing on the way gives
  it away, and the privileges are dropped before the key is loaded.  So the start ends in one of its
  fatal errors, or the kernel refused to change the user and the process serves as the superuser; when
  the kernel never refuses that, the start always ends in an error.
\<close>

theorem root_start_serves_only_as_root:
  assumes "key_contract os db x ca p root_only k" "k = resolvePath os ''conf/key.pem'' (fst (RemoveMemlock p w))"
    and "Getuid p w = 0" "Stat os k w \<longrightarrow> root_only w"
    and run: "startProcess os db x ca p w = (res, w')"
  shows "(res \<in> {NoCertificate, PortTaken, NoKeyPair} \<or> (\<exists>s prog. res = Serving s prog \<and> Getuid p w' = 0)) \<and>
    ((\<forall>u. Getuid p u = 0 \<longrightarrow> snd (Setuid p nobody u)) \<longrightarrow> res \<in> {NoCertificate, PortTaken, NoKeyPair})"
proof -
  let ?w0 = "fst (RemoveMemlock p w)"
  let ?cert = "resolvePath os ''conf/cert.pem'' ?w0" and ?c = "mainConfig os ?w0"
  let ?J = "before_key os p root_only k" and ?K = "with_key os p root_only k"
  have keep: "calls_keep os db x ca p k ?J" "calls_keep os db x ca p k ?K" by (rule key_contractD[OF assms(1)])+
  have k: "k = ''conf/key.pem'' \<or> k = ''../conf/key.pem''" using resolvePath_cases[of os "''conf/key.pem''"] assms(2) by auto
  have cp: "?cert \<noteq> k" using resolvePath_cases[of os "''conf/cert.pem''" ?w0] k by auto
  have "?J w" using assms(3,4) by (simp add: before_key_def)
  then have J: "?J (fst (MkdirAll os (pathDir ?cert) ?w0))" using keep(1) by (simp add: calls_keep_def start_keeps_def)
  obtain w2 ok where e: "ensureCertificatesExist os ca ?cert k (fst (MkdirAll os (pathDir ?cert) ?w0)) = (w2, ok)"
    by fastforce
  have "root_outcome p (startProcess os db x ca p w)"
  proof (cases ok)
    case False
    with e assms(2) show ?thesis by (simp add: startProcess_def Let_def root_outcome_def)
  next
    case True
    with ensure_with_key[OF assms(1) cp J] e have "?K w2" by simp
    obtain s prog w3 where st: "startServer os db x ?c (protectedInterface p w2) w2 = ((s, prog), w3)"
      by (metis prod.collapse)
    have "start_keeps os db x ?K" using keep(2) by (simp add: calls_keep_def)
    from startServer_keeps[OF this \<open>?K w2\<close>] st have "?K w3" by (metis snd_conv)
    from serveTLS_root[OF assms(1) k this, of ?c ?cert s prog] True e st assms(2) show ?thesis
      by (simp add: startProcess_def Let_def)
  qed
  with run show ?thesis by (cases res) (auto simp: root_outcome_def)
qed

theorem root_start_serves_only_as_root_witness:
  "fst (startProcess refOS refDB refXdp (refCA (Some ''KEY'')) (refProc True) emptyWorld)
     \<in> {NoCertificate, PortTaken, NoKeyPair}"
proof -
  let ?run = "startProcess refOS refDB refXdp (refCA (Some ''KEY'')) (refProc True) emptyWorld"
  have "resolvePath refOS ''conf/key.pem'' (fst (RemoveMemlock (refProc True) emptyWorld)) = ''conf/key.pem''"
    by (simp add: resolvePath_def refOS_def refProc_def emptyWorld_def)
  moreover have "snd (Setuid (refProc True) nobody u)" if "Getuid (refProc True) u = 0" for u
    using that by (simp add: refProc_def)
  ultimately show ?thesis
    using root_start_serves_only_as_root[OF refProc_contract[of "''KEY''" True "''conf/key.pem''"],
        where w = emptyWorld and res = "fst ?run" and w' = "snd ?run"]
    by (simp add: refProc_def refOS_def emptyWorld_def)
qed

text \<open>
  C31: The orderly stop closes the readers of both databases and forgets them, and empties the slot of the
  interface that the kernel takes without a flag, unless the kernel refuses that call (as it does for
  a user without the rights).  Nothing else is detached: a program the fallback attached in generic
  mode to a driver that supports XDP is still attached after the stop.
\<close>

theorem orderly_stop:
  assumes xc: "xdp_contract os x native attached"
    and keep: "\<forall>w. attached (fst (ShutdownServer p w)) = attached w" "\<forall>d w. attached (RemoveAll x d w) = attached w"
      "\<forall>r w. attached (CloseDB db r w) = attached w"
    and closing: "\<forall>r w. \<not> is_open (CloseDB db r w) r" "\<forall>r r' w. \<not> is_open w r \<longrightarrow> \<not> is_open (CloseDB db r' w) r"
    and link: "ifaceName pr \<noteq> []" "\<forall>w. LinkByName x (ifaceName pr) w = Some l"
    and run: "stopProcess db x p g (Some pr) w = (g', w')"
  shows "asnReader g' = None \<and> countryReader g' = None \<and>
    (\<forall>r. asnReader g = Some r \<or> countryReader g = Some r \<longrightarrow> \<not> is_open w' r) \<and>
    attached w' =
      (if snd (LinkSetXdpFdWithFlags x l (- 1) 0 (UnpinMaps x (fst (ShutdownServer p w))))
       then putSlot (attached w) l (slotOf native l 0) None else attached w) \<and>
    (native l \<longrightarrow> attached w' l Generic = attached w l Generic)"
proof -
  let ?w2 = "UnpinMaps x (fst (ShutdownServer p w))"
  have w2: "attached ?w2 = attached w" using keep by (simp add: UnpinMaps_def)
  let ?w3 = "CloseXDP x pr ?w2"
  have g': "asnReader g' = None" "countryReader g' = None"
    and w': "w' = closeOld db (countryReader g) (closeOld db (asnReader g) ?w3)"
    using run by (auto simp: stopProcess_def CloseManager_def Let_def)
  have "attached (closeOld db r v) = attached v" for r v using keep(3) by (simp add: closeOld_def split: option.splits)
  then have "attached w' =
      (if snd (LinkSetXdpFdWithFlags x l (- 1) 0 ?w2) then putSlot (attached w) l (slotOf native l 0) None else attached w)"
    using w' w2 close_detaches[OF xc link(1), of ?w2 l] link(2) by simp
  moreover have "\<not> is_open w' r" if "asnReader g = Some r \<or> countryReader g = Some r" for r
    using that closing w' by (auto simp: closeOld_def split: option.splits)
  ultimately show ?thesis using g' by (auto simp: putSlot_def)
qed

text \<open>The reference database with a record of the readers that were closed.\<close>

definition closingDB :: "(string \<times> ref_network list, ref_network, world) maxmind" where
  "closingDB = refDB\<lparr>CloseDB := (\<lambda>r w. w\<lparr>wCommands := wCommands w @ [[''close'', fst r]]\<rparr>)\<rparr>"

theorem orderly_stop_witness:
  "case stopProcess closingDB refXdp (refProc True) refGeo (Some \<lparr>prog_objs = refObjs, ifaceName = ''eth0''\<rparr>)
       (emptyWorld\<lparr>wXdp := [(''eth0'', 7)]\<rparr>) of
     (g', w') \<Rightarrow> map_of (wXdp w') ''eth0'' = None \<and> [''close'', ''GeoLite2-Country''] \<in> set (wCommands w')"
proof -
  let ?w = "emptyWorld\<lparr>wXdp := [(''eth0'', 7)]\<rparr>" and ?pr = "\<lparr>prog_objs = refObjs, ifaceName = ''eth0''\<rparr>"
  obtain g' w' where run: "stopProcess closingDB refXdp (refProc True) refGeo (Some ?pr) ?w = (g', w')" by fastforce
  have det: "snd (LinkSetXdpFdWithFlags refXdp ''eth0'' (- 1) 0 v)" for v by (simp add: refXdp_def DRV_MODE_def)
  have rd: "countryReader refGeo = Some (''GeoLite2-Country'', take 2 refNetworks)" by code_simp
  have keep: "\<forall>w. refSlots (fst (ShutdownServer (refProc True) w)) = refSlots w"
    "\<forall>d w. refSlots (RemoveAll refXdp d w) = refSlots w" "\<forall>r w. refSlots (CloseDB closingDB r w) = refSlots w"
    by (simp_all add: refProc_def refXdp_def closingDB_def refSlots_def fun_eq_iff split: xdp_slot.split)
  have closing: "\<forall>r w. \<not> [''close'', fst r] \<notin> set (wCommands (CloseDB closingDB r w))"
    "\<forall>r r' w. \<not> [''close'', fst r] \<notin> set (wCommands w) \<longrightarrow> \<not> [''close'', fst r] \<notin> set (wCommands (CloseDB closingDB r' w))"
    by (simp_all add: closingDB_def)
  have link: "ifaceName ?pr \<noteq> []" "\<forall>w. LinkByName refXdp (ifaceName ?pr) w = Some ''eth0''"
    by (simp_all add: refXdp_def)
  note stop = orderly_stop[where is_open = "\<lambda>w r. [''close'', fst r] \<notin> set (wCommands w)",
      OF refXdp_contract keep closing link run]
  have "refSlots w' = putSlot (refSlots ?w) ''eth0'' Generic None" using stop det by simp
  then have "refSlots w' ''eth0'' Generic = None" by (simp add: putSlot_def)
  moreover have "[''close'', ''GeoLite2-Country''] \<in> set (wCommands w')" using stop rd by (metis fst_conv)
  ultimately show ?thesis using run by (simp add: refSlots_def)
qed

end
