(* ===== verification/Observe.thy ===== *)
theory Observe
  imports System "HOL-Library.Sublist" "HOL-Library.Multiset"
begin

text \<open>
  The two endpoints that anybody may read: \<open>/metrics\<close> (\<open>handlePrometheusMetrics\<close> of \<open>main.go\<close> and the
  gauges of \<open>metrics.go\<close>) and \<open>/health\<close>.  A page of metrics is a list of families, each with its
  name, its type and its samples; the help texts, and the digits a number is printed with, are left
  out.  The last part of a page of metrics is written by the Prometheus client (\<open>promhttp\<close>), which adds
  families of its own and may compress that part when the request accepts it; the client is a parameter.
\<close>

subsection \<open>Metrics\<close>



















subsection \<open>Health\<close>

text \<open>
  \<open>syscall.Sysinfo\<close>, and \<open>os.ReadDir\<close> with the name of each entry and whether it is a directory
  (\<open>None\<close> when it fails).
\<close>

record sysinfo =
  Procs :: u16
  UnitSize :: u32
  Totalram :: u64
  Freeram :: u64
  Load1 :: u64

record 'w host_api =
  Sysinfo :: "'w \<Rightarrow> sysinfo"
  ReadDir :: "string \<Rightarrow> 'w \<Rightarrow> (string \<times> bool) list option"

record health_report =
  HealthStatus :: string
  UptimeSec :: int
  XdpLoaded :: bool
  GeoIPStatus :: "(string \<times> bool) list"
  RamTotal :: u64
  RamUsed :: u64
  RamFree :: u64
  Load1m :: float64
  ProcsCount :: int

definition procsCount :: "'w host_api \<Rightarrow> 'w \<Rightarrow> int" where
  "procsCount host w =
     (case ReadDir host ''/proc'' w of
        Some dirEntries \<Rightarrow>
          int (length (filter (\<lambda>(name, isDir). isDir \<and> name \<noteq> [] \<and> isDigit (hd name)) dirEntries))
      | None \<Rightarrow> uint (Procs (Sysinfo host w)))"

text \<open>Total, used and free memory in bytes.\<close>

definition memoryBytes :: "'w goos \<Rightarrow> 'w host_api \<Rightarrow> 'w \<Rightarrow> u64 \<times> u64 \<times> u64" where
  "memoryBytes os host w =
     (case ReadFile os ''/proc/meminfo'' w of
        Some data \<Rightarrow>
          (let v = parseMemInfo data in (memTotal v * 1024, usedKB v * 1024, memFree v * 1024))
      | None \<Rightarrow>
          (let i = Sysinfo host w;
               u = (ucast (UnitSize i) :: u64);
               unit = (if u = 0 then 1 else u);
               totalRam = Totalram i * unit
           in (totalRam, totalRam - Freeram i * unit, Freeram i * unit)))"

text \<open>\<open>int(time.Since(startTime).Seconds())\<close> for a clock that does not run backwards.\<close>

definition uptimeSec :: "int \<Rightarrow> int" where
  "uptimeSec d =
     \<lfloor>fl (fl (of_int (d div 1000000000)) + fdiv (of_int (d mod 1000000000)) 1000000000)\<rfloor>"

definition handleHealth ::
  "'w goos \<Rightarrow> 'w host_api \<Rightarrow> int \<Rightarrow> ('r, 'w) server \<times> 'w \<Rightarrow> health_report" where
  "handleHealth os host startTime = (\<lambda>(s, w).
     let xdpLoaded = (manager s \<noteq> None) in
     case memoryBytes os host w of (totalRam, usedRam, freeRam) \<Rightarrow>
       \<lparr>HealthStatus = (if xdpLoaded then ''healthy'' else ''degraded''),
        UptimeSec = uptimeSec (NowNano os w - startTime),
        XdpLoaded = xdpLoaded,
        GeoIPStatus = (case geo s of None \<Rightarrow> []
          | Some g \<Rightarrow> [(''asn'', asnLoaded g), (''country'', countryLoaded g)]),
        RamTotal = totalRam, RamUsed = usedRam, RamFree = freeRam,
        Load1m = fdiv (float64_of (Load1 (Sysinfo host w))) 65536,
        ProcsCount = procsCount host w\<rparr>)"

subsection \<open>Lemmas\<close>









subsection \<open>Properties\<close>










text \<open>
  The memory the health page shows is the one the engine acts on: when the counters of
  \<open>/proc/meminfo\<close> are consistent, used memory is at most the total, both are whole kilobytes, and
  their ratio, rounded the same way, is exactly the percentage \<open>getMemoryStats\<close> gives.
\<close>

theorem health_memory_agrees:
  assumes "ReadFile os ''/proc/meminfo'' w = Some data" "parseMemInfo data = v"
    and "memTotal v \<noteq> 0" "unat (memTotal v) < 2 ^ 54"
    and "unat (memFree v) + unat (buffers v) + unat (cached v) + unat (sReclaimable v) \<le> unat (memTotal v)"
    and "handleHealth os host t (s, w) = rep"
  shows "RamUsed rep \<le> RamTotal rep \<and> RamFree rep \<le> RamTotal rep \<and>
    getMemoryStats os w = Inr (percent_of (RamUsed rep div 1024) (RamTotal rep div 1024)) \<and>
    (HealthStatus rep = ''healthy'' \<longleftrightarrow> manager s \<noteq> None)"
proof -
  have kb: "unat (x * 1024) = unat x * 1024" "x * 1024 div 1024 = x" if "unat x < 2 ^ 54" for x :: u64
  proof -
    show 1: "unat (x * 1024) = unat x * 1024" using that by (simp add: unat_mult_lem[THEN iffD1])
    show "x * 1024 div 1024 = x" by (simp add: word_unat_eq_iff 1 unat_div)
  qed
  have used: "unat (usedKB v) \<le> unat (memTotal v)" "unat (memFree v) \<le> unat (memTotal v)"
    using assms(5) by (simp_all add: usedKB_def unat_sub_if')
  have rep: "RamTotal rep = memTotal v * 1024" "RamUsed rep = usedKB v * 1024" "RamFree rep = memFree v * 1024"
    "HealthStatus rep = ''healthy'' \<longleftrightarrow> manager s \<noteq> None"
    using assms(1,2,6) by (auto simp: handleHealth_def memoryBytes_def Let_def split: if_splits)
  show ?thesis
    using used assms(1-4) kb[of "memTotal v"] kb[of "usedKB v"] kb[of "memFree v"]
    by (simp add: rep getMemoryStats_def Let_def word_le_nat_alt)
qed

definition refHost :: "world host_api" where
  "refHost =
     \<lparr>Sysinfo = (\<lambda>w. \<lparr>Procs = 3, UnitSize = 1, Totalram = 1024000, Freeram = 102400, Load1 = 32768\<rparr>),
      ReadDir = (\<lambda>d w. Some [(''1'', True), (''4711'', True), (''meminfo'', False)])\<rparr>"

theorem health_memory_agrees_witness:
  "RamUsed (handleHealth refOS refHost 0 (refServer, statWorld)) \<le> RamTotal (handleHealth refOS refHost 0 (refServer, statWorld))"
proof -
  let ?data = "joinWith newline (map (memText 2)
        [(''MemTotal'', 1000), (''MemFree'', 100), (''Buffers'', 50), (''Cached'', 200), (''SReclaimable'', 50)] @ [[]])"
  have "ReadFile refOS ''/proc/meminfo'' statWorld = Some ?data" by (simp add: refOS_def statWorld_def)
  moreover have "parseMemInfo ?data
      = \<lparr>memTotal = 1000, memFree = 100, buffers = 50, cached = 200, sReclaimable = 50\<rparr>" by code_simp
  ultimately show ?thesis
    using health_memory_agrees[OF _ _ _ _ _ refl, of refOS statWorld ?data _ refHost 0 refServer] by simp
qed

end
