(* ===== verification/Spec2Isabelle.thy ===== *)
theory Spec2Isabelle
  imports Prelude GoStrings GoNet GoUrl Ebpf Cidr Kernel RefKernel GoFloat GoJson JsonDecode JsonRoundtrip
    MapManager Mitigation Backend SysStats Fsm GeoIP Persist AutoMitigation Cluster Handlers Api ApiProps
    EventLog Startup System RuleBook Propagation Recovery Attach Interleave Certificates Process Observe
begin

text \<open>
  The control plane of Shield-Core (\<open>src/control_plane\<close>, Go): a daemon that loads an XDP
  program into
  the kernel and steers it through eBPF maps.  An HTTP API and an engine that watches the load of the
  machine both change those maps; the rules are kept in a file and sent to the other nodes of a
  cluster.

  \<^bold>\<open>Parts and theories.\<close>

  \<^item> The language and its library.  \<open>Prelude\<close> holds the types, the errors and lemmas
  on lists and words;
    \<open>GoStrings\<close>, \<open>GoNet\<close> and \<open>GoUrl\<close> the functions of
    \<open>strings\<close>, \<open>strconv\<close>, \<open>net\<close> and \<open>net/url\<close> the
    source calls; \<open>GoFloat\<close> the exactly rounded \<open>float64\<close> operations;
    \<open>GoJson\<close>, \<open>JsonDecode\<close> and
    \<open>JsonRoundtrip\<close> the encoder and the decoder of \<open>encoding/json\<close> and that
    they fit together.
  \<^item> What lies outside.  \<open>Ebpf\<close> declares the maps and the operating system as
  records of functions over
    an unspecified world \<^typ>\<open>'w\<close>; \<open>Kernel\<close> states their documented
    behaviour (\<open>kernel_contract\<close>,
    \<open>kernel_deletes\<close>); \<open>RefKernel\<close> is one kernel and one system that satisfy
    it, on which the
    witnesses run the program.
  \<^item> \<open>map_manager.go\<close>.  \<open>Cidr\<close>: the keys of the maps, parsed and
  printed.  \<open>MapManager\<close>: the record
    \<open>MapManager\<close> and its small operations; the four writes to the tries and the four sets
    of targets
    each share one locale (\<open>cidr_op\<close>, \<open>target_set\<close>). 
    \<open>Mitigation\<close>: \<open>ScanAndMitigate\<close>,
    \<open>CleanExpiredBlacklist\<close>, \<open>GetMapHealth\<close>.  \<open>Backend\<close>: routes,
    the WireGuard peer file, DNAT rules.
  \<^item> \<open>startAutoMitigation\<close> of \<open>main.go\<close>.  \<open>SysStats\<close>: the
  readers of \<open>/proc\<close> and \<open>/sys\<close>.  \<open>Fsm\<close>: the
    state machine and its policy, with the phases Normal, Defending and Recovering as abstract
    specification.  \<open>AutoMitigation\<close>: one whole tick, with the metrics of
    \<open>metrics.go\<close>.
  \<^item> \<open>geoip.go\<close>: \<open>GeoIP\<close>, with the locale \<open>geo_cache\<close> for
  what both cached lookups share.
  \<^item> \<open>persist.go\<close>: \<open>Persist\<close>, saving and restoring the rules, and the
  mitigation log of \<open>main.go\<close>.
  \<^item> The API of \<open>main.go\<close>.  \<open>Cluster\<close>: the nodes and the requests an
  event sends.  \<open>Handlers\<close>: the
    middlewares, the eight handlers and the routes.  \<open>Api\<close> and \<open>ApiProps\<close>:
    lemmas and properties.
    \<open>EventLog\<close>: the log as it is written and shown.
  \<^item> Start.  \<open>Startup\<close>: \<open>config.go\<close>, \<open>loader.go\<close>, the
  reputation list and the order of \<open>main\<close>;
    \<open>Attach\<close>: the two slots of an interface and the outcomes of loading;
    \<open>Certificates\<close>: the certificate of the server; \<open>Process\<close>: the
    whole of \<open>main\<close>, from the configuration through the drop of the privileges to the shutdown.
  \<^item> The parts together.  \<open>System\<close>: the server and the engine over one manager, one
  GeoIP manager and one
    world, with the states that ticks, requests and changes of the world can reach from a start, in which
    the XDP program was loaded or, in degraded mode, was not.  \<open>RuleBook\<close>: what
    the daemon promises about its rules, as an abstract state with one operation per request, which
    requests and ticks refine.  \<open>Propagation\<close>: the
    nodes of a cluster and the requests under way between them.  \<open>Recovery\<close>: a request,
    the state file
    and the next process.  \<open>Interleave\<close>: requests that run at the same time, cut at the locks.
  \<^item> What anybody may read: \<open>Observe\<close>, the endpoints \<open>/metrics\<close> and
  \<open>/health\<close>.

  \<^bold>\<open>State and steps.\<close>  An operation maps its inputs and the state (a record beside
  the world) to its
  result and the state after it; an error is a value of \<open>go_error\<close>.  The global variables of the
  process are the records \<open>server\<close> and \<open>engine\<close>.  Methods under a lock are
  atomic; where a method takes
  its lock twice (the GeoIP lookups) each section is a definition of its own and other steps may come
  between.  A tick and a request are atomic
  steps, except in \<open>Interleave\<close>: there the changes of the rules are lists of sections (one critical
  section, system call or reading each) that the goroutines of a pool take in any order, under the
  mutex of the state file; run alone the sections do what the handler does.  The goroutines that send
  an event are entries of a
  list (\<open>sent\<close>, and \<open>outbox\<close> within a tick).

  \<^bold>\<open>What is proved.\<close>  Of the state machine: it refines the phases, keeps its
  invariant, settles under a
  steady load, comes back to normal in calm, and holds Survival after an emergency.  Of the engine:
  the limits in the kernel are those of the level, only offenders are blocked and none among the
  entries looked at is missed whose block the kernel takes when the scan comes to it, expired entries
  and only they are removed, with their targets, and nothing else in the kernel is touched.  Of the
  API: no request without the key has an effect but on the counter of its sender, each endpoint changes only
  its own map, refused requests change nothing, the lists and the tries change exactly as asked, and
  a bound on the requests let through.  Of the data formats: keys, state file, log, URLs and peer
  blocks are read back as they were written.  Of the whole: the refinement of the rule
  book, the invariant of the reachable states, that acknowledged changes survive a restart, that
  concurrent changes are
  all saved and no request waits for ever, that a start as root cannot serve with its
  privileges dropped (it fails, or the kernel refused to change the user), and that every event dies out.

  \<^bold>\<open>Bounds and termination.\<close>  Every definition is total; nothing runs on fuel. 
  Loops over an iterator
  recurse over the sequence of entries it yields.  The recursions that are not structural (trimming,
  splitting, IPv6 parsing, the JSON lexer) have termination proofs.  Integers keep their width:
  \<open>uint64\<close>
  counters wrap.

  \<^bold>\<open>Hypotheses.\<close>  \<open>kernel_contract\<close> and \<open>kernel_deletes\<close>
  (the maps), \<open>map_order_contract\<close> (\<open>range\<close> visits
  each key once), \<open>os_frame\<close> (files and commands are no maps),
  \<open>disk_contract\<close> (a written file is read
  back), \<open>maps_leave_file\<close> (maps are no files), \<open>xdp_contract\<close>
  (\<open>netlink\<close>: which of the
  two slots a call fills or empties, by its flags and the driver), \<open>client_contract\<close> (the
  Prometheus client: its families,
  and plain text for a request that names no encoding), \<open>db_frame\<close> and
  \<open>routes_frame\<close> (the database package and the two
  route calls below leave the other maps alone), \<open>file_contract\<close> and
  \<open>key_contract\<close> (files, their owners and
  the user of the process, whose change the kernel may refuse).  Each has an instance on
  \<open>RefKernel\<close>.

  \<^bold>\<open>Not modelled.\<close>  The C programs (\<open>xdp_main.c\<close>,
  \<open>af_xdp_main.c\<close>).  The static files
  of the web page, the crypto packages and TLS itself.  The help texts and the number formats of
  \<open>/metrics\<close>.  The wording of replies and of the program's own log.  The race on the
  counters of the
  limiter (Go leaves its outcome open), and interleavings inside the handlers that do not change the
  rules.  \<open>strings.ToUpper\<close>
  and \<open>strings.ToLower\<close> are modelled on ASCII.  \<open>handleRouting\<close> calls
  \<open>AddBackendVIP\<close> and
  \<open>RemoveBackendVIP\<close> with fewer arguments than they have, so the package does not compile;
  what these
  two calls mean is a parameter (\<open>add_route\<close>, \<open>remove_route\<close>), instantiated
  in the witnesses by the
  operations with empty keys and endpoints.
\<close>

end
